(* ===== verification/Raft_Prelude.thy ===== *)
theory Raft_Prelude
  imports Main "HOL-Library.Word"
begin

text \<open>
  Shared vocabulary of the development.  It holds the machine types of the
  source (\<open>u8\<close>, \<open>u32\<close>, \<open>u64\<close> as words), the saturating operations of the
  Rust standard library, little-endian byte strings, the sequencing of
  fallible operations that keep the state reached at the failure, the
  arithmetic of majorities, and the decimal printing of integers inside error
  messages.  The collections \<open>sat_simps\<close> and \<open>le_simps\<close> carry the rewrite rules
  that the component theories use.
\<close>

named_theorems sat_simps
named_theorems le_simps

type_synonym u8 = "8 word"
type_synonym u16 = "16 word"
type_synonym u32 = "32 word"
type_synonym u64 = "64 word"
type_synonym bytes = "8 word list"

section \<open>Saturating arithmetic\<close>

text \<open>The methods \<open>saturating_add\<close> and \<open>saturating_sub\<close> of the unsigned integers.\<close>

definition sat_add :: "'a::len word \<Rightarrow> 'a word \<Rightarrow> 'a word" where
  "sat_add a b = (if a + b < a then - 1 else a + b)"

definition sat_sub :: "'a::len word \<Rightarrow> 'a word \<Rightarrow> 'a word" where
  "sat_sub a b = (if a < b then 0 else a - b)"

text \<open>A \<open>usize\<close> count read as a \<open>u64\<close> (the cast \<open>as u64\<close>).\<close>

abbreviation u64_of :: "nat \<Rightarrow> u64" where
  "u64_of n \<equiv> word_of_nat n"

lemma unat_minus_one_word: "unat (- 1 :: 'a::len word) = 2 ^ LENGTH('a) - 1"
  by (simp add: unsigned_minus_1_eq_mask mask_eq_exp_minus_1)

lemma unat_minus_one_word64 [simp]: "unat (- 1 :: u64) = 2 ^ 64 - 1"
  by (simp add: unat_minus_one_word)

lemma unat_lt2p: "unat (a :: 'a::len word) < 2 ^ LENGTH('a)"
  by (rule unsigned_less)

lemma unat_lt_64 [simp]: "unat (a :: u64) < 2 ^ 64"
  using unat_lt2p [of a] by simp

lemma unat_sat_add [sat_simps]:
  fixes a b :: "'a::len word"
  shows "unat (sat_add a b) = min (unat a + unat b) (2 ^ LENGTH('a) - 1)"
proof (cases "unat a + unat b < 2 ^ LENGTH('a)")
  case True
  then have "unat (a + b) = unat a + unat b"
    by (simp add: unat_add_lem)
  with True show ?thesis
    by (simp add: sat_add_def word_less_nat_alt)
next
  case False
  have lt: "unat a + unat b - 2 ^ LENGTH('a) < 2 ^ LENGTH('a)" "unat a < 2 ^ LENGTH('a)" "unat b < 2 ^ LENGTH('a)"
    using unat_lt2p [of a] unat_lt2p [of b] by linarith+
  have "unat (a + b) = (unat a + unat b) mod 2 ^ LENGTH('a)"
    by (rule unat_word_ariths(1))
  also have "\<dots> = unat a + unat b - 2 ^ LENGTH('a)"
    using False lt by (simp add: le_mod_geq)
  finally have "unat (a + b) = unat a + unat b - 2 ^ LENGTH('a)" .
  then have "a + b < a" "2 ^ LENGTH('a) \<le> unat a + unat b"
    unfolding word_less_nat_alt using False lt by linarith+
  then show ?thesis
    by (simp add: sat_add_def unat_minus_one_word)
qed

lemma unat_sat_sub [sat_simps]:
  "unat (sat_sub a b) = unat a - unat b"
  by (auto simp: sat_sub_def word_less_nat_alt unat_sub_if_size)

lemma sat_sub_zero [simp]: "sat_sub a 0 = a"
  by (simp add: sat_sub_def)

lemma sat_add_zero [simp]: "sat_add a 0 = a"
  by (simp add: sat_add_def)

lemma sat_add_ge [simp]: "a \<le> sat_add a b"
  by (simp add: sat_add_def word_order.extremum not_less)

lemma sat_sub_le [simp]: "sat_sub a b \<le> a"
  by (simp add: word_le_nat_alt unat_sat_sub)

lemma sat_add_one_gt: "a \<noteq> - 1 \<Longrightarrow> a < sat_add a (1 :: u64)"
proof -
  assume "a \<noteq> - 1"
  then have "unat a \<noteq> unat (- 1 :: u64)"
    by (simp only: word_unat_eq_iff not_False_eq_True)
  then have "unat a \<noteq> 2 ^ 64 - 1" by simp
  with unat_lt_64 [of a] show ?thesis
    by (simp add: word_less_nat_alt unat_sat_add)
qed

lemma word_nat_le: "(a :: 'a::len word) \<le> b \<longleftrightarrow> unat a \<le> unat b"
  by (rule word_le_nat_alt)

lemma word_nat_less: "(a :: 'a::len word) < b \<longleftrightarrow> unat a < unat b"
  by (rule word_less_nat_alt)

lemma word_nat_eq: "(a :: 'a::len word) = b \<longleftrightarrow> unat a = unat b"
  by (rule word_unat_eq_iff)

lemmas word_nat = word_nat_le word_nat_less word_nat_eq

section \<open>Fallible operations on a state\<close>

text \<open>
  A method \<open>&mut self\<close> that returns \<open>Result\<close> is a function from the state to a
  result and a state: an error keeps the mutations that were made before it,
  as the early return of the operator \<open>?\<close> does.
\<close>

type_synonym ('e, 'a, 's) op = "'s \<Rightarrow> ('e + 'a) \<times> 's"

definition bind_op :: "('e + 'a) \<times> 's \<Rightarrow> ('a \<Rightarrow> 's \<Rightarrow> ('e + 'b) \<times> 's) \<Rightarrow> ('e + 'b) \<times> 's" where
  "bind_op r f = (case r of (Inl e, s) \<Rightarrow> (Inl e, s) | (Inr a, s) \<Rightarrow> f a s)"

lemma bind_op_simps [simp]:
  "bind_op (Inl e, s) f = (Inl e, s)"
  "bind_op (Inr a, s) f = f a s"
  by (simp_all add: bind_op_def)

lemma bind_op_ok_iff:
  "bind_op r f = (Inr b, t) \<longleftrightarrow> (\<exists>a s. r = (Inr a, s) \<and> f a s = (Inr b, t))"
  by (auto simp: bind_op_def split: prod.splits sum.splits)

text \<open>A property of the state that both halves establish is kept by the sequence.\<close>

lemma bind_op_snd:
  assumes "P (snd r)" and "\<And>a. fst r = Inr a \<Longrightarrow> P (snd (f a (snd r)))"
  shows "P (snd (bind_op r f))"
  using assms by (auto simp: bind_op_def split: prod.splits sum.splits)

definition bind_res :: "'e + 'a \<Rightarrow> ('a \<Rightarrow> 'e + 'b) \<Rightarrow> 'e + 'b" where
  "bind_res r f = (case r of Inl e \<Rightarrow> Inl e | Inr a \<Rightarrow> f a)"

lemma bind_res_simps [simp]:
  "bind_res (Inl e) f = Inl e"
  "bind_res (Inr a) f = f a"
  by (simp_all add: bind_res_def)

fun is_ok :: "'e + 'a \<Rightarrow> bool" where
  "is_ok (Inl _) = False"
| "is_ok (Inr _) = True"

lemma is_ok_iff: "is_ok r \<longleftrightarrow> (\<exists>a. r = Inr a)"
  by (cases r) auto

section \<open>Little-endian byte strings\<close>

text \<open>\<open>le_bytes n w\<close> is the array \<open>w.to_le_bytes()\<close> of length \<open>n\<close>;
  \<open>le_word\<close> is \<open>from_le_bytes\<close>.\<close>

fun le_bytes :: "nat \<Rightarrow> 'a::len word \<Rightarrow> bytes" where
  "le_bytes 0 w = []"
| "le_bytes (Suc n) w = ucast w # le_bytes n (drop_bit 8 w)"

fun le_word :: "bytes \<Rightarrow> 'a::len word" where
  "le_word [] = 0"
| "le_word (b # bs) = or (ucast b) (push_bit 8 (le_word bs))"

lemma length_le_bytes [simp, le_simps]: "length (le_bytes n w) = n"
  by (induction n arbitrary: w) auto

lemma le_word_le_bytes_take:
  fixes w :: "'a::len word"
  shows "le_word (le_bytes n w) = take_bit (8 * n) w"
proof (induction n arbitrary: w)
  case (Suc n)
  have "le_word (le_bytes (Suc n) w) = or (ucast (ucast w :: u8)) (push_bit 8 (take_bit (8 * n) (drop_bit 8 w)))"
    by (simp add: Suc)
  also have "\<dots> = take_bit (8 * Suc n) w"
    by (rule bit_word_eqI) (auto simp: bit_simps)
  finally show ?case .
qed simp

lemma le_word_le_bytes [simp, le_simps]:
  fixes w :: "'a::len word"
  assumes "LENGTH('a) \<le> 8 * n"
  shows "le_word (le_bytes n w) = w"
proof -
  have "take_bit (8 * n) w = w"
    using assms by (intro bit_word_eqI) (auto simp: bit_simps dest: bit_imp_le_length)
  then show ?thesis by (simp add: le_word_le_bytes_take)
qed

lemma le_bytes_le_word:
  fixes bs :: bytes
  assumes "8 * length bs \<le> LENGTH('a::len)"
  shows "le_bytes (length bs) (le_word bs :: 'a word) = bs"
  using assms
proof (induction bs)
  case (Cons b bs)
  have len: "8 + 8 * length bs \<le> LENGTH('a)" using Cons.prems by simp
  have hd: "ucast (or (ucast b) (push_bit 8 (le_word bs)) :: 'a word) = b"
    using len by (intro bit_word_eqI) (auto simp: bit_simps dest: bit_imp_le_length)
  have dr: "drop_bit 8 (or (ucast b) (push_bit 8 v) :: 'a word) = take_bit (LENGTH('a) - 8) v" for v
    using len by (intro bit_word_eqI) (auto simp: bit_simps dest: bit_imp_le_length)
  have cut: "le_bytes m (take_bit k v :: 'a word) = le_bytes m v" if "8 * m \<le> k" for m k v
    using that
  proof (induction m arbitrary: k v)
    case (Suc m)
    have "ucast (take_bit k v) = (ucast v :: u8)"
      using Suc.prems by (intro bit_word_eqI) (auto simp: bit_simps)
    moreover have "drop_bit 8 (take_bit k v) = take_bit (k - 8) (drop_bit 8 v)"
      by (simp add: drop_bit_take_bit)
    ultimately show ?case
      using Suc.prems by (simp add: Suc.IH)
  qed simp
  show ?case
    using Cons len by (simp add: hd dr cut del: drop_bit_or)
qed simp

section \<open>Majorities\<close>

text \<open>Two majorities of one finite set meet; the fact behind every quorum argument.\<close>

lemma majorities_intersect:
  assumes "finite V" and "A \<subseteq> V" and "B \<subseteq> V"
    and "card V < 2 * card A" and "card V < 2 * card B"
  shows "A \<inter> B \<noteq> {}"
proof
  assume "A \<inter> B = {}"
  then have "card (A \<union> B) = card A + card B"
    using assms finite_subset by (metis card_Un_disjoint)
  moreover have "card (A \<union> B) \<le> card V"
    using assms by (simp add: card_mono)
  ultimately show False using assms by simp
qed

lemma length_filter_card:
  "distinct xs \<Longrightarrow> length (filter P xs) = card {x \<in> set xs. P x}"
  by (metis distinct_card distinct_filter set_filter)

section \<open>Printing of integers in messages\<close>

fun dec_str :: "nat \<Rightarrow> string" where
  "dec_str n = (if n < 10 then [char_of (48 + n)] else dec_str (n div 10) @ [char_of (48 + n mod 10)])"

declare dec_str.simps [simp del]

definition show_u64 :: "u64 \<Rightarrow> string" where
  "show_u64 w = dec_str (unat w)"

end
