(* ===== verification/Raft_Types.thy ===== *)
theory Raft_Types
  imports Raft_Prelude
begin

text \<open>
  The data every component shares: identifiers (\<open>src/types/ids.rs\<close>), log entries
  (\<open>src/entry/log_entry.rs\<close>), hard and soft state (\<open>src/state/hard_state.rs\<close>), the
  error type and its severity classes (\<open>src/error/raft_error.rs\<close>), the
  configuration records (\<open>src/config\<close>) and the start-up validation
  (\<open>src/validation/invariants.rs\<close>), for which the accepted configurations are
  characterised exactly.
\<close>

section \<open>Identifiers and durable state\<close>

type_synonym peer_id = u64
type_synonym group_id = u64
type_synonym cluster_id = u64
type_synonym raft_term = u64
type_synonym log_index = u64

record log_entry =
  entry_term :: raft_term
  entry_index :: log_index
  entry_payload :: bytes

record hard_state =
  current_term :: raft_term
  voted_for :: "peer_id option"

definition default_hard_state :: hard_state where
  "default_hard_state = \<lparr>current_term = 0, voted_for = None\<rparr>"

datatype role = Follower | Candidate | Leader

record soft_state =
  leader_id :: "peer_id option"
  soft_is_leader :: bool
  soft_role :: role
  soft_commit_index :: log_index

record snapshot_meta =
  last_included_index :: log_index
  last_included_term :: raft_term

section \<open>Errors\<close>

text \<open>The kinds of \<open>std::io::Error\<close> that the classification distinguishes.\<close>

datatype io_error_kind = StorageFull | QuotaExceeded | OutOfMemory | OtherKind string

datatype raft_error =
    NotLeader "peer_id option"
  | NoQuorum
  | TransferTimeout peer_id
  | TermChanged raft_term
  | Overloaded
  | PeerUnknown peer_id
  | InvalidConfig string
  | InvalidPayload string
  | Protocol string
  | Dispatch string
  | Storage string
  | Transport string
  | CorruptLog string
  | Snapshot string
  | Io io_error_kind

datatype error_class = Transient | NotLeaderRedirect | BadFrame | Resource | Fatal

fun io_kind_is_resource_exhaustion :: "io_error_kind \<Rightarrow> bool" where
  "io_kind_is_resource_exhaustion StorageFull = True"
| "io_kind_is_resource_exhaustion QuotaExceeded = True"
| "io_kind_is_resource_exhaustion OutOfMemory = True"
| "io_kind_is_resource_exhaustion (OtherKind _) = False"

fun error_class_of :: "raft_error \<Rightarrow> error_class" where
  "error_class_of (Io k) = (if io_kind_is_resource_exhaustion k then Resource else Fatal)"
| "error_class_of (Storage _) = Fatal"
| "error_class_of (CorruptLog _) = Fatal"
| "error_class_of (NotLeader _) = NotLeaderRedirect"
| "error_class_of (Protocol _) = BadFrame"
| "error_class_of (Dispatch _) = BadFrame"
| "error_class_of (Snapshot _) = BadFrame"
| "error_class_of (InvalidPayload _) = BadFrame"
| "error_class_of (InvalidConfig _) = BadFrame"
| "error_class_of (PeerUnknown _) = BadFrame"
| "error_class_of NoQuorum = Transient"
| "error_class_of (TermChanged _) = Transient"
| "error_class_of (Transport _) = Transient"
| "error_class_of Overloaded = Transient"
| "error_class_of (TransferTimeout _) = Transient"

definition is_fatal :: "raft_error \<Rightarrow> bool" where
  "is_fatal e \<longleftrightarrow> error_class_of e = Fatal"

definition is_resource_exhaustion :: "raft_error \<Rightarrow> bool" where
  "is_resource_exhaustion e \<longleftrightarrow> error_class_of e = Resource"

type_synonym 'a result = "raft_error + 'a"
type_synonym ('a, 's) raft_op = "'s \<Rightarrow> 'a result \<times> 's"

section \<open>Configuration\<close>

record limits_config =
  append_batch_bytes :: nat
  append_batch_entries :: nat
  snapshot_chunk_bytes :: nat
  max_inflight_per_peer :: nat
  max_snapshot_bytes :: nat
  snapshot_stall_timeout_ms :: u64
  snapshot_max_attempts_per_peer :: u32
  snapshot_attempt_cooldown_ms :: u64
  compaction_threshold_entries :: u64
  compaction_threshold_bytes :: u64
  compaction_min_retain :: u64
  inbound_decode_error_jail_threshold :: u32
  inbound_decode_error_window_ms :: u64
  inbound_jail_cooldown_ms :: u64
  client_mailbox_capacity :: nat

definition default_limits :: limits_config where
  "default_limits = \<lparr>
     append_batch_bytes = 256 * 1024,
     append_batch_entries = 1024,
     snapshot_chunk_bytes = 256 * 1024,
     max_inflight_per_peer = 8,
     max_snapshot_bytes = 4 * 1024 * 1024 * 1024,
     snapshot_stall_timeout_ms = 60000,
     snapshot_max_attempts_per_peer = 3,
     snapshot_attempt_cooldown_ms = 5000,
     compaction_threshold_entries = 4096,
     compaction_threshold_bytes = 64 * 1024 * 1024,
     compaction_min_retain = 64,
     inbound_decode_error_jail_threshold = 32,
     inbound_decode_error_window_ms = 10000,
     inbound_jail_cooldown_ms = 3000,
     client_mailbox_capacity = 8192\<rparr>"

record timing_config =
  heartbeat_ms :: u64
  election_min_ms :: u64
  election_max_ms :: u64

definition default_timing :: timing_config where
  "default_timing = \<lparr>heartbeat_ms = 50, election_min_ms = 300, election_max_ms = 600\<rparr>"

record bootstrap_peer =
  bp_id :: peer_id
  bp_addr :: string

record node_config =
  cfg_cluster_id :: cluster_id
  cfg_node_id :: peer_id
  cfg_peers :: "peer_id list"
  cfg_learners :: "peer_id list"
  cfg_bootstrap_peers :: "bootstrap_peer list"
  cfg_timing :: timing_config
  cfg_limits :: limits_config

section \<open>Start-up validation\<close>

text \<open>The loop over \<open>peers\<close> with the set \<open>seen\<close>.\<close>

fun check_peer_duplicates :: "peer_id list \<Rightarrow> peer_id list \<Rightarrow> unit result" where
  "check_peer_duplicates seen [] = Inr ()"
| "check_peer_duplicates seen (p # ps) =
     (if p \<in> set seen then Inl (InvalidConfig ''peers must not contain duplicates'')
      else check_peer_duplicates (p # seen) ps)"

text \<open>The loop over \<open>learners\<close> with the set \<open>seen_learners\<close>.\<close>

fun check_learners :: "peer_id list \<Rightarrow> peer_id list \<Rightarrow> peer_id list \<Rightarrow> unit result" where
  "check_learners peers seen [] = Inr ()"
| "check_learners peers seen (l # ls) =
     (if l \<in> set seen then Inl (InvalidConfig ''learners must not contain duplicates'')
      else if l \<in> set peers then Inl (InvalidConfig ''learners must be disjoint from peers'')
      else check_learners peers (l # seen) ls)"

definition validate_node_config :: "node_config \<Rightarrow> unit result" where
  "validate_node_config cfg =
    (if cfg_peers cfg = [] then Inl (InvalidConfig ''peers must not be empty'')
     else if cfg_node_id cfg \<notin> set (cfg_peers cfg) \<and> cfg_node_id cfg \<notin> set (cfg_learners cfg)
     then Inl (InvalidConfig ''node_id must appear in peers (voter) or learners (non-voting member)'')
     else if cfg_bootstrap_peers cfg = [] then Inl (InvalidConfig ''bootstrap_peers must not be empty'')
     else if \<not> list_ex (\<lambda>p. bp_id p = cfg_node_id cfg) (cfg_bootstrap_peers cfg)
     then Inl (InvalidConfig ''bootstrap_peers must include node_id for v1 bootstrap'')
     else bind_res (check_peer_duplicates [] (cfg_peers cfg)) (\<lambda>_.
       bind_res (check_learners (cfg_peers cfg) [] (cfg_learners cfg)) (\<lambda>_.
       let t = cfg_timing cfg in
       if heartbeat_ms t = 0 then Inl (InvalidConfig ''heartbeat_ms must be > 0'')
       else if election_min_ms t \<ge> election_max_ms t
       then Inl (InvalidConfig ''election_min_ms must be < election_max_ms'')
       else if heartbeat_ms t \<ge> election_min_ms t
       then Inl (InvalidConfig ''heartbeat_ms must be < election_min_ms (recommended: heartbeat_ms * 3 <= election_min_ms)'')
       else if snapshot_chunk_bytes (cfg_limits cfg) = 0
       then Inl (InvalidConfig ''snapshot_chunk_bytes must be > 0'')
       else Inr ())))"

section \<open>What the validation guarantees\<close>

lemma check_peer_duplicates_ok:
  "check_peer_duplicates seen ps = Inr () \<longleftrightarrow> distinct ps \<and> set ps \<inter> set seen = {}"
  by (induction seen ps rule: check_peer_duplicates.induct) auto

lemma check_learners_ok:
  "check_learners peers seen ls = Inr () \<longleftrightarrow>
     distinct ls \<and> set ls \<inter> set seen = {} \<and> set ls \<inter> set peers = {}"
  by (induction peers seen ls rule: check_learners.induct) auto

lemma result_unit_cases: "(r :: unit result) = Inr () \<or> (\<exists>e. r = Inl e)"
  by (cases r) auto

text \<open>The membership part of a configuration that the quorum arithmetic relies on.\<close>

definition sound_membership :: "node_config \<Rightarrow> bool" where
  "sound_membership cfg \<longleftrightarrow>
     cfg_peers cfg \<noteq> [] \<and> distinct (cfg_peers cfg @ cfg_learners cfg) \<and>
     cfg_node_id cfg \<in> set (cfg_peers cfg @ cfg_learners cfg)"

lemma validate_node_config_iff:
  "validate_node_config cfg = Inr () \<longleftrightarrow>
     sound_membership cfg \<and>
     cfg_node_id cfg \<in> bp_id ` set (cfg_bootstrap_peers cfg) \<and>
     0 < heartbeat_ms (cfg_timing cfg) \<and>
     heartbeat_ms (cfg_timing cfg) < election_min_ms (cfg_timing cfg) \<and>
     election_min_ms (cfg_timing cfg) < election_max_ms (cfg_timing cfg) \<and>
     0 < snapshot_chunk_bytes (cfg_limits cfg)"
proof -
  have ex: "list_ex (\<lambda>p. bp_id p = cfg_node_id cfg) (cfg_bootstrap_peers cfg) \<longleftrightarrow>
      cfg_node_id cfg \<in> bp_id ` set (cfg_bootstrap_peers cfg)"
    by (force simp: list_ex_iff image_iff)
  have bind: "bind_res r (\<lambda>_. s) = Inr () \<longleftrightarrow> r = Inr () \<and> s = Inr ()" for r s :: "unit result"
    using result_unit_cases [of r] by auto
  show ?thesis
    unfolding validate_node_config_def ex bind Let_def sound_membership_def
      check_peer_duplicates_ok check_learners_ok
    by (auto simp: check_peer_duplicates_ok check_learners_ok bind word_neq_0_conv)
qed

text \<open>
  (C26) The start-up validation accepts a configuration exactly when the voter
  list is non-empty, voters and learners are duplicate-free and disjoint, the
  node is one of them and is in the bootstrap list, the heartbeat period is
  positive and shorter than the election range, the range is not empty, and
  the snapshot chunk size is positive.
\<close>

theorem validate_node_config_exact:
  "validate_node_config cfg = Inr () \<longleftrightarrow>
     cfg_peers cfg \<noteq> [] \<and> distinct (cfg_peers cfg @ cfg_learners cfg) \<and>
     cfg_node_id cfg \<in> set (cfg_peers cfg @ cfg_learners cfg) \<and>
     cfg_node_id cfg \<in> bp_id ` set (cfg_bootstrap_peers cfg) \<and>
     0 < heartbeat_ms (cfg_timing cfg) \<and>
     heartbeat_ms (cfg_timing cfg) < election_min_ms (cfg_timing cfg) \<and>
     election_min_ms (cfg_timing cfg) < election_max_ms (cfg_timing cfg) \<and>
     0 < snapshot_chunk_bytes (cfg_limits cfg)"
  by (simp add: validate_node_config_iff sound_membership_def)

end
