(* ===== verification/Peer_Map.thy ===== *)
theory Peer_Map
  imports Raft_Types "HOL-Library.Multiset"
begin

text \<open>
  The per-peer bookkeeping of \<open>src/api/node/progress.rs\<close>: the linear-scan map
  \<open>PeerMap\<close> with its \<open>swap_remove\<close> deletion, the replication progress of a peer
  and the state of a snapshot transfer.  The locale \<open>peer_table\<close> states what
  the rest of the node relies on; it is interpreted on the linear-scan map.
  Instants are milliseconds of the monotonic clock, as natural numbers.
\<close>

section \<open>The linear-scan map\<close>

type_synonym 'v peer_map = "(peer_id \<times> 'v) list"

definition pm_empty :: "'v peer_map" where
  "pm_empty = []"

definition pm_is_empty :: "'v peer_map \<Rightarrow> bool" where
  "pm_is_empty m \<longleftrightarrow> m = []"

definition pm_clear :: "'v peer_map \<Rightarrow> 'v peer_map" where
  "pm_clear m = []"

fun pm_insert :: "peer_id \<Rightarrow> 'v \<Rightarrow> 'v peer_map \<Rightarrow> 'v peer_map" where
  "pm_insert k v [] = [(k, v)]"
| "pm_insert k v ((k', v') # m) = (if k' = k then (k', v) # m else (k', v') # pm_insert k v m)"

fun pm_get :: "peer_id \<Rightarrow> 'v peer_map \<Rightarrow> 'v option" where
  "pm_get k [] = None"
| "pm_get k ((k', v) # m) = (if k' = k then Some v else pm_get k m)"

text \<open>Writing through the reference returned by \<open>get_mut\<close>; absent keys change nothing.\<close>

fun pm_modify :: "peer_id \<Rightarrow> ('v \<Rightarrow> 'v) \<Rightarrow> 'v peer_map \<Rightarrow> 'v peer_map" where
  "pm_modify k f [] = []"
| "pm_modify k f ((k', v) # m) = (if k' = k then (k', f v) # m else (k', v) # pm_modify k f m)"

fun position :: "('a \<Rightarrow> bool) \<Rightarrow> 'a list \<Rightarrow> nat option" where
  "position P [] = None"
| "position P (x # xs) = (if P x then Some 0 else map_option Suc (position P xs))"

text \<open>\<open>Vec::swap_remove\<close>: the last element takes the place of the removed one.\<close>

definition swap_remove :: "nat \<Rightarrow> 'a list \<Rightarrow> 'a list" where
  "swap_remove i xs = butlast (xs[i := last xs])"

definition pm_remove :: "peer_id \<Rightarrow> 'v peer_map \<Rightarrow> 'v peer_map" where
  "pm_remove k m = (case position (\<lambda>e. fst e = k) m of None \<Rightarrow> m | Some i \<Rightarrow> swap_remove i m)"

definition pm_iter :: "'v peer_map \<Rightarrow> (peer_id \<times> 'v) list" where
  "pm_iter m = m"

definition pm_contains_key :: "peer_id \<Rightarrow> 'v peer_map \<Rightarrow> bool" where
  "pm_contains_key k m = list_ex (\<lambda>e. fst e = k) m"

text \<open>No key occurs twice: the representation invariant.\<close>

definition pm_ok :: "'v peer_map \<Rightarrow> bool" where
  "pm_ok m \<longleftrightarrow> distinct (map fst m)"

section \<open>Progress and snapshot-transfer records\<close>

record peer_progress =
  next_index :: log_index
  match_index :: log_index

record append_attempt_state =
  attempts :: u64
  sent_last_index :: log_index

datatype append_advance = Completed | Retry append_attempt_state | Dropped | Ignored

record pending_snapshot =
  ps_meta :: snapshot_meta
  ps_bytes :: bytes
  ps_deadline :: nat

definition pending_snapshot_new :: "nat \<Rightarrow> snapshot_meta \<Rightarrow> nat \<Rightarrow> pending_snapshot" where
  "pending_snapshot_new now meta stall = \<lparr>ps_meta = meta, ps_bytes = [], ps_deadline = now + stall\<rparr>"

definition pending_snapshot_touch :: "nat \<Rightarrow> nat \<Rightarrow> pending_snapshot \<Rightarrow> pending_snapshot" where
  "pending_snapshot_touch now stall p = p\<lparr>ps_deadline := now + stall\<rparr>"

definition pending_snapshot_reset :: "nat \<Rightarrow> snapshot_meta \<Rightarrow> nat \<Rightarrow> pending_snapshot \<Rightarrow> pending_snapshot" where
  "pending_snapshot_reset now meta stall p =
     pending_snapshot_touch now stall (p\<lparr>ps_meta := meta, ps_bytes := []\<rparr>)"

definition pending_snapshot_is_expired :: "nat \<Rightarrow> pending_snapshot \<Rightarrow> bool" where
  "pending_snapshot_is_expired now p \<longleftrightarrow> now > ps_deadline p"

record snapshot_attempts =
  sa_attempts :: u32
  sa_cooldown_until :: "nat option"

definition default_snapshot_attempts :: snapshot_attempts where
  "default_snapshot_attempts = \<lparr>sa_attempts = 0, sa_cooldown_until = None\<rparr>"

section \<open>Representation lemmas\<close>

lemma pm_get_map_of: "pm_get k m = map_of m k"
  by (induction k m rule: pm_get.induct) auto

lemma fst_pm_insert: "fst ` set (pm_insert k v m) = insert k (fst ` set m)"
  by (induction k v m rule: pm_insert.induct) auto

lemma pm_ok_insert [simp]: "pm_ok m \<Longrightarrow> pm_ok (pm_insert k v m)"
  by (induction k v m rule: pm_insert.induct) (auto simp: pm_ok_def fst_pm_insert)

lemma pm_get_insert [simp]: "pm_get k' (pm_insert k v m) = (if k' = k then Some v else pm_get k' m)"
  by (induction k v m rule: pm_insert.induct) auto

lemma map_fst_pm_modify [simp]: "map fst (pm_modify k f m) = map fst m"
  by (induction k f m rule: pm_modify.induct) auto

lemma pm_ok_modify [simp]: "pm_ok (pm_modify k f m) \<longleftrightarrow> pm_ok m"
  by (simp add: pm_ok_def)

lemma pm_get_modify [simp]:
  "pm_get k' (pm_modify k f m) = (if k' = k then map_option f (pm_get k m) else pm_get k' m)"
  by (induction k f m rule: pm_modify.induct) auto

lemma position_Some:
  "position P xs = Some i \<Longrightarrow> i < length xs \<and> P (xs ! i)"
  by (induction xs arbitrary: i) (auto split: if_splits)

lemma position_None: "position P xs = None \<longleftrightarrow> (\<forall>x\<in>set xs. \<not> P x)"
  by (induction xs) auto

lemma mset_swap_remove:
  assumes "i < length xs"
  shows "mset (swap_remove i xs) = mset (take i xs @ drop (Suc i) xs)"
proof -
  have ne: "xs[i := last xs] \<noteq> []" using assms by (auto simp flip: length_greater_0_conv)
  have last: "last (xs[i := last xs]) = last xs"
    using assms by (cases xs rule: rev_cases) (auto simp: last_list_update)
  have "add_mset (last xs) (mset (swap_remove i xs)) = mset (xs[i := last xs])"
    using ne last by (metis append_butlast_last_id mset_append swap_remove_def mset_single_iff_right
      add_mset_add_single mset.simps(1) mset.simps(2))
  also have "\<dots> = add_mset (last xs) (mset xs - {#xs ! i#})"
    using assms by (simp add: mset_update)
  finally have "mset (swap_remove i xs) = mset xs - {#xs ! i#}" by simp
  also have "mset xs = add_mset (xs ! i) (mset (take i xs @ drop (Suc i) xs))"
    using assms by (subst id_take_nth_drop [OF assms]) simp
  finally show ?thesis by simp
qed

lemma pm_remove_props:
  assumes "pm_ok m"
  shows pm_ok_remove: "pm_ok (pm_remove k m)"
    and pm_get_remove: "pm_get k' (pm_remove k m) = (if k' = k then None else pm_get k' m)"
proof -
  have "pm_ok (pm_remove k m) \<and> pm_get k' (pm_remove k m) = (if k' = k then None else pm_get k' m)"
  proof (cases "position (\<lambda>e. fst e = k) m")
    case None
    then have "k \<notin> fst ` set m" by (auto simp: position_None)
    then show ?thesis using assms None
      by (auto simp: pm_remove_def pm_get_map_of map_of_eq_None_iff)
  next
    case (Some i)
    then have i: "i < length m" "fst (m ! i) = k" by (auto dest: position_Some)
    let ?r = "take i m @ drop (Suc i) m"
    have eq: "mset (pm_remove k m) = mset ?r"
      using Some i by (simp add: pm_remove_def mset_swap_remove)
    have m: "m = take i m @ m ! i # drop (Suc i) m"
      by (rule id_take_nth_drop [OF i(1)])
    have "distinct (map fst (take i m @ m ! i # drop (Suc i) m))"
      using assms m by (simp add: pm_ok_def)
    then have dr: "distinct (map fst ?r)" "k \<notin> fst ` set ?r"
      using i(2) by (auto simp: image_iff)
    have dm: "distinct (map fst (pm_remove k m))"
      using dr(1) eq by (metis mset_eq_imp_distinct_iff mset_map)
    have sets: "set (pm_remove k m) = set ?r" using eq by (metis set_mset_mset)
    have "map_of (pm_remove k m) = map_of ?r"
      using map_of_inject_set [OF dm dr(1)] sets by blast
    moreover have "map_of ?r k' = (if k' = k then None else map_of m k')"
    proof (cases "k' = k")
      case False
      with i(2) show ?thesis by (subst m) (auto simp: map_add_def split: option.splits prod.splits)
    qed (use dr(2) in \<open>simp add: map_of_eq_None_iff del: map_of_append\<close>)
    ultimately show ?thesis using dm by (simp add: pm_get_map_of pm_ok_def)
  qed
  then show "pm_ok (pm_remove k m)" "pm_get k' (pm_remove k m) = (if k' = k then None else pm_get k' m)"
    by auto
qed

lemma pm_contains_key_get: "pm_contains_key k m \<longleftrightarrow> pm_get k m \<noteq> None"
  by (induction k m rule: pm_get.induct) (auto simp: pm_contains_key_def)

section \<open>The contract the node relies on\<close>

text \<open>
  A table keyed by peers: what a lookup returns after each operation, and the
  representation invariant that every operation keeps.
\<close>

locale peer_table =
  fixes empty :: 'm
    and insert_at :: "peer_id \<Rightarrow> 'v \<Rightarrow> 'm \<Rightarrow> 'm"
    and modify_at :: "peer_id \<Rightarrow> ('v \<Rightarrow> 'v) \<Rightarrow> 'm \<Rightarrow> 'm"
    and remove_at :: "peer_id \<Rightarrow> 'm \<Rightarrow> 'm"
    and lookup :: "peer_id \<Rightarrow> 'm \<Rightarrow> 'v option"
    and keys :: "'m \<Rightarrow> peer_id list"
    and invar :: "'m \<Rightarrow> bool"
  assumes lookup_empty: "lookup k empty = None"
    and lookup_insert: "invar m \<Longrightarrow> lookup k' (insert_at k v m) = (if k' = k then Some v else lookup k' m)"
    and lookup_modify: "invar m \<Longrightarrow> lookup k' (modify_at k f m) = (if k' = k then map_option f (lookup k m) else lookup k' m)"
    and lookup_remove: "invar m \<Longrightarrow> lookup k' (remove_at k m) = (if k' = k then None else lookup k' m)"
    and keys_lookup: "invar m \<Longrightarrow> k \<in> set (keys m) \<longleftrightarrow> lookup k m \<noteq> None"
    and invar_empty: "invar empty"
    and invar_insert: "invar m \<Longrightarrow> invar (insert_at k v m)"
    and invar_modify: "invar m \<Longrightarrow> invar (modify_at k f m)"
    and invar_remove: "invar m \<Longrightarrow> invar (remove_at k m)"
begin

text \<open>Rebuilding the table from scratch, as a new leader and a membership change do.\<close>

lemma fill_props:
  assumes "invar m"
  shows "invar (fold (\<lambda>k. insert_at k (f k)) ks m)"
    and "lookup k (fold (\<lambda>k. insert_at k (f k)) ks m) = (if k \<in> set ks then Some (f k) else lookup k m)"
proof -
  have "invar (fold (\<lambda>k. insert_at k (f k)) ks m) \<and>
      lookup k (fold (\<lambda>k. insert_at k (f k)) ks m) = (if k \<in> set ks then Some (f k) else lookup k m)"
    using assms
    by (induction ks arbitrary: m) (auto simp: lookup_insert invar_insert)
  then show "invar (fold (\<lambda>k. insert_at k (f k)) ks m)"
    and "lookup k (fold (\<lambda>k. insert_at k (f k)) ks m) = (if k \<in> set ks then Some (f k) else lookup k m)"
    by blast+
qed

lemma drop_props:
  assumes "invar m"
  shows "invar (fold remove_at ks m)"
    and "lookup k (fold remove_at ks m) = (if k \<in> set ks then None else lookup k m)"
proof -
  have "invar (fold remove_at ks m) \<and>
      lookup k (fold remove_at ks m) = (if k \<in> set ks then None else lookup k m)"
    using assms
    by (induction ks arbitrary: m) (auto simp: lookup_remove invar_remove)
  then show "invar (fold remove_at ks m)"
    and "lookup k (fold remove_at ks m) = (if k \<in> set ks then None else lookup k m)"
    by blast+
qed

end

definition pm_keys :: "'v peer_map \<Rightarrow> peer_id list" where
  "pm_keys m = map fst (pm_iter m)"

interpretation pm: peer_table pm_empty pm_insert pm_modify pm_remove pm_get pm_keys pm_ok
proof unfold_locales
  fix m :: "'a peer_map" and k
  show "k \<in> set (pm_keys m) \<longleftrightarrow> pm_get k m \<noteq> None"
    by (simp add: pm_keys_def pm_iter_def pm_get_map_of map_of_eq_None_iff)
qed (simp_all add: pm_empty_def pm_ok_remove pm_get_remove pm_ok_def [of "[]"])

text \<open>
  (C25) The linear-scan peer map implements a finite map: on a table without
  repeated keys every operation keeps the keys distinct, an insertion is the
  map update, the write through \<open>get_mut\<close> changes one present key only, and the
  deletion by \<open>swap_remove\<close> removes exactly the key it is given.
\<close>

theorem peer_map_refines_map:
  assumes "pm_ok m"
  shows "pm_ok (pm_insert k v m) \<and> map_of (pm_insert k v m) = (map_of m)(k \<mapsto> v) \<and>
    pm_ok (pm_modify k f m) \<and> map_of (pm_modify k f m) = (map_of m)(k := map_option f (map_of m k)) \<and>
    pm_ok (pm_remove k m) \<and> map_of (pm_remove k m) = (map_of m)(k := None) \<and>
    pm_get k m = map_of m k \<and> (pm_contains_key k m \<longleftrightarrow> k \<in> dom (map_of m))"
  using assms
  by (auto simp: fun_eq_iff pm.lookup_remove [unfolded pm_get_map_of]
      pm_get_insert [unfolded pm_get_map_of] pm_get_modify [unfolded pm_get_map_of]
      pm.invar_remove pm_get_map_of pm_contains_key_get domIff)

theorem peer_map_refines_map_witness:
  "pm_ok [(1 :: peer_id, True), (2, False), (3, True)] \<and>
   map_of (pm_remove 1 [(1 :: peer_id, True), (2, False), (3, True)]) =
     (map_of [(1 :: peer_id, True), (2, False), (3, True)])(1 := None)"
  using peer_map_refines_map [of "[(1 :: peer_id, True), (2, False), (3, True)]" 1]
  by (simp add: pm_ok_def)

end
