(* ===== verification/Log_Arena.thy ===== *)
theory Log_Arena
  imports Raft_Types
begin

text \<open>
  The circular cache of entry terms, \<open>LogMetadataArena\<close> of
  \<open>src/api/node/generational.rs\<close>.  The node answers the term of an index from
  this ring before it asks the storage, so a wrong answer would break the
  consistency check.  The ring is shown to be exactly a bounded window of a
  map from indexes to terms, for every index but the last one of \<open>u64\<close>, where
  the saturating arithmetic makes the lookup answer nothing.
\<close>

section \<open>The ring\<close>

record log_metadata_slot =
  slot_term :: raft_term
  slot_index :: log_index
  slot_generation :: u32

record log_metadata_arena =
  ar_slots :: "log_metadata_slot list"
  ar_head :: nat
  ar_len :: nat
  ar_base_index :: log_index
  ar_generation :: u32

definition arena_new :: "nat \<Rightarrow> log_metadata_arena" where
  "arena_new capacity = \<lparr>
     ar_slots = replicate capacity \<lparr>slot_term = 0, slot_index = 0, slot_generation = 0\<rparr>,
     ar_head = 0, ar_len = 0, ar_base_index = 0, ar_generation = 1\<rparr>"

definition bump_generation :: "log_metadata_slot list \<Rightarrow> nat \<Rightarrow> log_metadata_slot list" where
  "bump_generation slots i = slots[i := (slots ! i)\<lparr>slot_generation := slot_generation (slots ! i) + 1\<rparr>]"

text \<open>The loops that bump the generation of the slots at offsets \<open>from\<close> up to \<open>len\<close>.\<close>

definition bump_range :: "nat \<Rightarrow> nat \<Rightarrow> nat \<Rightarrow> log_metadata_slot list \<Rightarrow> log_metadata_slot list" where
  "bump_range head from len slots =
     fold (\<lambda>i ss. bump_generation ss ((head + i) mod length ss)) [from..<len] slots"

definition arena_clear :: "log_index \<Rightarrow> log_metadata_arena \<Rightarrow> log_metadata_arena" where
  "arena_clear new_base a = a\<lparr>
     ar_slots := bump_range (ar_head a) 0 (ar_len a) (ar_slots a),
     ar_head := 0, ar_len := 0, ar_base_index := new_base,
     ar_generation := ar_generation a + 1\<rparr>"

text \<open>The three stages of \<open>append\<close>: re-anchor the window on a gap, evict the oldest
  slot of a full ring, write the new slot.\<close>

definition arena_anchor :: "log_index \<Rightarrow> log_metadata_arena \<Rightarrow> log_metadata_arena" where
  "arena_anchor index a =
    (let a = (if ar_len a = 0 then a\<lparr>ar_base_index := index\<rparr> else a)
     in if index \<noteq> sat_add (ar_base_index a) (u64_of (ar_len a)) then arena_clear index a else a)"

definition arena_evict :: "log_metadata_arena \<Rightarrow> log_metadata_arena" where
  "arena_evict a =
    (if ar_len a = length (ar_slots a)
     then a\<lparr>ar_slots := bump_generation (ar_slots a) (ar_head a),
            ar_head := (ar_head a + 1) mod length (ar_slots a),
            ar_base_index := sat_add (ar_base_index a) 1,
            ar_len := ar_len a - 1\<rparr>
     else a)"

definition arena_write :: "log_index \<Rightarrow> raft_term \<Rightarrow> log_metadata_arena \<Rightarrow> log_metadata_arena" where
  "arena_write index trm a =
    (let write_idx = (ar_head a + ar_len a) mod length (ar_slots a)
     in a\<lparr>ar_slots := (ar_slots a)[write_idx :=
              \<lparr>slot_term = trm, slot_index = index, slot_generation = ar_generation a\<rparr>],
          ar_len := ar_len a + 1\<rparr>)"

definition arena_append :: "log_index \<Rightarrow> raft_term \<Rightarrow> log_metadata_arena \<Rightarrow> log_metadata_arena" where
  "arena_append index trm a =
    (if ar_slots a = [] then a
     else arena_write index trm (arena_evict (arena_anchor index a)))"

definition arena_get_term :: "log_metadata_arena \<Rightarrow> log_index \<Rightarrow> raft_term option" where
  "arena_get_term a index =
    (let cap = length (ar_slots a) in
     if cap = 0 \<or> ar_len a = 0 then None
     else if index \<ge> ar_base_index a \<and> index < sat_add (ar_base_index a) (u64_of (ar_len a))
     then let slot = ar_slots a ! ((ar_head a + unat (index - ar_base_index a)) mod cap)
          in if slot_index slot = index then Some (slot_term slot) else None
     else None)"

definition arena_truncate_suffix :: "log_index \<Rightarrow> log_metadata_arena \<Rightarrow> log_metadata_arena" where
  "arena_truncate_suffix from a =
    (if ar_len a = 0 then a
     else if from \<le> ar_base_index a then arena_clear from a
     else if from < sat_add (ar_base_index a) (u64_of (ar_len a))
     then let new_len = unat (from - ar_base_index a)
          in a\<lparr>ar_slots := bump_range (ar_head a) new_len (ar_len a) (ar_slots a), ar_len := new_len\<rparr>
     else a)"

section \<open>Representation invariant and abstraction\<close>

definition ring_slot :: "log_metadata_arena \<Rightarrow> nat \<Rightarrow> log_metadata_slot" where
  "ring_slot a j = ar_slots a ! ((ar_head a + j) mod length (ar_slots a))"

text \<open>
  The slot at offset \<open>j\<close> of the window holds the index \<open>base + j\<close>.  Nothing is
  asked at the index \<open>u64::MAX\<close> and beyond, where the additions saturate.
\<close>

definition arena_ok :: "log_metadata_arena \<Rightarrow> bool" where
  "arena_ok a \<longleftrightarrow>
     ar_len a \<le> length (ar_slots a) \<and> length (ar_slots a) < 2 ^ 64 \<and>
     (\<forall>j < ar_len a. unat (ar_base_index a) + j < 2 ^ 64 - 1 \<longrightarrow>
        unat (slot_index (ring_slot a j)) = unat (ar_base_index a) + j)"

text \<open>The indexes the window covers, and the map it stands for.\<close>

definition in_window :: "log_metadata_arena \<Rightarrow> log_index \<Rightarrow> bool" where
  "in_window a i \<longleftrightarrow> unat (ar_base_index a) \<le> unat i \<and>
     unat i < unat (ar_base_index a) + ar_len a \<and> unat i < 2 ^ 64 - 1"

definition arena_map :: "log_metadata_arena \<Rightarrow> log_index \<Rightarrow> raft_term option" where
  "arena_map a i = (if in_window a i
     then Some (slot_term (ring_slot a (unat i - unat (ar_base_index a)))) else None)"

section \<open>Slots of the ring\<close>

lemma mod_offset_inj:
  fixes c :: nat
  assumes "(h + a) mod c = (h + b) mod c" "a < c" "b < c"
  shows "a = b"
proof -
  have "x = y" if "(h + x) mod c = (h + y) mod c" "x \<le> y" "x < c" "y < c" for x y
  proof -
    have "c dvd y - x"
      using that mod_eq_dvd_iff_nat [of "h + x" "h + y" c] by simp
    then show ?thesis using that by (auto dest: dvd_imp_le)
  qed
  then show ?thesis using assms nat_le_linear [of a b] by metis
qed

lemma length_bump_generation [simp]: "length (bump_generation ss i) = length ss"
  by (simp add: bump_generation_def)

lemma bump_generation_nth [simp]:
  "slot_index (bump_generation ss i ! k) = slot_index (ss ! k)"
  "slot_term (bump_generation ss i ! k) = slot_term (ss ! k)"
  by (cases "i < length ss"; auto simp: bump_generation_def nth_list_update list_update_beyond)+

lemma bump_range_props [simp]:
  "length (bump_range h f l ss) = length ss"
  "slot_index (bump_range h f l ss ! k) = slot_index (ss ! k)"
  "slot_term (bump_range h f l ss ! k) = slot_term (ss ! k)"
proof -
  have "length (fold (\<lambda>i ss. bump_generation ss ((h + i) mod length ss)) js ss) = length ss \<and>
      slot_index (fold (\<lambda>i ss. bump_generation ss ((h + i) mod length ss)) js ss ! k) = slot_index (ss ! k) \<and>
      slot_term (fold (\<lambda>i ss. bump_generation ss ((h + i) mod length ss)) js ss ! k) = slot_term (ss ! k)" for js
    by (induction js arbitrary: ss) auto
  then show "length (bump_range h f l ss) = length ss"
    "slot_index (bump_range h f l ss ! k) = slot_index (ss ! k)"
    "slot_term (bump_range h f l ss ! k) = slot_term (ss ! k)"
    unfolding bump_range_def by blast+
qed

lemma unat_window_end:
  assumes "n < 2 ^ 64"
  shows "unat (sat_add b (u64_of n)) = min (unat b + n) (2 ^ 64 - 1)"
  using assms by (simp add: unat_sat_add unat_of_nat)

section \<open>Every operation refines its map\<close>

lemma arena_get_term_map:
  assumes "arena_ok a"
  shows "arena_get_term a i = arena_map a i"
proof (cases "in_window a i")
  case True
  then have w: "unat (ar_base_index a) \<le> unat i" "unat i < unat (ar_base_index a) + ar_len a"
      "unat i < 2 ^ 64 - 1"
    by (auto simp: in_window_def)
  let ?j = "unat i - unat (ar_base_index a)"
  have j: "unat (i - ar_base_index a) = ?j"
    using w(1) by (simp add: unat_sub word_le_nat_alt)
  have "unat (slot_index (ring_slot a ?j)) = unat i"
    using assms w by (simp add: arena_ok_def)
  then have s: "slot_index (ring_slot a ?j) = i" by (simp add: word_unat_eq_iff)
  have "ar_len a < 2 ^ 64" using assms by (simp add: arena_ok_def)
  then have "i < sat_add (ar_base_index a) (u64_of (ar_len a))"
    using w by (simp add: word_less_nat_alt unat_window_end)
  moreover have "ar_len a \<noteq> 0" "length (ar_slots a) \<noteq> 0" "i \<ge> ar_base_index a"
    using w assms by (auto simp: arena_ok_def word_le_nat_alt)
  ultimately show ?thesis
    using True s j by (simp add: arena_get_term_def arena_map_def ring_slot_def Let_def)
next
  case False
  have "ar_len a < 2 ^ 64" using assms by (simp add: arena_ok_def)
  then show ?thesis
    using False by (auto simp: arena_get_term_def arena_map_def in_window_def
        word_less_nat_alt word_le_nat_alt unat_window_end Let_def)
qed

lemma arena_new_ok: "capacity < 2 ^ 64 \<Longrightarrow> arena_ok (arena_new capacity)"
  by (simp add: arena_ok_def arena_new_def)

lemma arena_clear_ok: "arena_ok a \<Longrightarrow> arena_ok (arena_clear b a)"
  by (simp add: arena_ok_def arena_clear_def)

lemma arena_clear_map: "arena_map (arena_clear b a) = Map.empty"
  by (rule ext) (simp add: arena_map_def in_window_def arena_clear_def)

lemma arena_truncate_suffix_ok: "arena_ok a \<Longrightarrow> arena_ok (arena_truncate_suffix from a)"
proof (cases "ar_len a \<noteq> 0 \<and> \<not> from \<le> ar_base_index a \<and> from < sat_add (ar_base_index a) (u64_of (ar_len a))")
  case True
  assume ok: "arena_ok a"
  then have len: "ar_len a < 2 ^ 64" by (simp add: arena_ok_def)
  have "unat (from - ar_base_index a) < ar_len a"
    using True len by (auto simp: word_less_nat_alt word_le_nat_alt unat_window_end unat_sub_if_size)
  with True ok show ?thesis
    by (auto simp: arena_ok_def arena_truncate_suffix_def ring_slot_def Let_def)
qed (auto simp: arena_truncate_suffix_def arena_clear_ok)

lemma arena_truncate_suffix_map:
  assumes "arena_ok a"
  shows "arena_map (arena_truncate_suffix from a) = arena_map a |` {..<from}"
proof (rule ext)
  fix i
  have len: "ar_len a < 2 ^ 64" using assms by (simp add: arena_ok_def)
  consider "ar_len a = 0" | "ar_len a \<noteq> 0" "from \<le> ar_base_index a"
    | "ar_len a \<noteq> 0" "\<not> from \<le> ar_base_index a" "from < sat_add (ar_base_index a) (u64_of (ar_len a))"
    | "ar_len a \<noteq> 0" "\<not> from \<le> ar_base_index a" "\<not> from < sat_add (ar_base_index a) (u64_of (ar_len a))"
    by blast
  then show "arena_map (arena_truncate_suffix from a) i = (arena_map a |` {..<from}) i"
  proof cases
    case 3
    then have "unat (from - ar_base_index a) = unat from - unat (ar_base_index a)"
      by (simp add: unat_sub_if_size word_le_nat_alt)
    with 3 len show ?thesis
      by (auto simp: arena_truncate_suffix_def arena_map_def in_window_def ring_slot_def restrict_map_def
          Let_def word_less_nat_alt word_le_nat_alt unat_window_end)
  qed (use len in \<open>auto simp: arena_truncate_suffix_def arena_clear_map arena_map_def in_window_def
      restrict_map_def word_less_nat_alt word_le_nat_alt unat_window_end\<close>)
qed

lemma ring_slot_cong:
  "ar_slots a = ar_slots b \<Longrightarrow> ar_head a = ar_head b \<Longrightarrow> ring_slot a j = ring_slot b j"
  by (simp add: ring_slot_def)

text \<open>An append is contiguous when it extends the window at its end.\<close>

definition contiguous :: "log_index \<Rightarrow> log_metadata_arena \<Rightarrow> bool" where
  "contiguous index a \<longleftrightarrow> ar_len a = 0 \<or> index = sat_add (ar_base_index a) (u64_of (ar_len a))"

lemma arena_anchor_props:
  assumes "arena_ok a"
  shows "arena_ok (arena_anchor i a)"
    and "length (ar_slots (arena_anchor i a)) = length (ar_slots a)"
    and "i = sat_add (ar_base_index (arena_anchor i a)) (u64_of (ar_len (arena_anchor i a)))"
    and "arena_map (arena_anchor i a) = (if contiguous i a then arena_map a else Map.empty)"
    and "contiguous i a \<Longrightarrow> ar_len (arena_anchor i a) = ar_len a"
    and "\<not> contiguous i a \<Longrightarrow> ar_len (arena_anchor i a) = 0"
    and "ar_len a \<noteq> 0 \<Longrightarrow> contiguous i a \<Longrightarrow> arena_anchor i a = a"
proof -
  show "arena_ok (arena_anchor i a)"
  proof (cases "ar_len a = 0")
    case True
    then have "arena_ok (a\<lparr>ar_base_index := i\<rparr>)"
      using assms by (simp add: arena_ok_def)
    then show ?thesis by (simp add: arena_anchor_def arena_clear_ok True)
  qed (use assms in \<open>simp add: arena_anchor_def arena_clear_ok\<close>)
  consider "ar_len a = 0" "contiguous i a" "arena_anchor i a = a\<lparr>ar_base_index := i\<rparr>"
    | "ar_len a \<noteq> 0" "contiguous i a" "arena_anchor i a = a" "i = sat_add (ar_base_index a) (u64_of (ar_len a))"
    | "ar_len a \<noteq> 0" "\<not> contiguous i a" "arena_anchor i a = arena_clear i a"
    by (cases "ar_len a = 0"; cases "i = sat_add (ar_base_index a) (u64_of (ar_len a))")
      (simp_all add: arena_anchor_def contiguous_def)
  note cases = this
  show "arena_map (arena_anchor i a) = (if contiguous i a then arena_map a else Map.empty)"
    by (rule cases) (simp_all add: arena_clear_map arena_map_def in_window_def fun_eq_iff, linarith)
  show "i = sat_add (ar_base_index (arena_anchor i a)) (u64_of (ar_len (arena_anchor i a)))"
    by (rule cases) (simp_all add: arena_clear_def)
  show "length (ar_slots (arena_anchor i a)) = length (ar_slots a)"
    by (rule cases) (simp_all add: arena_clear_def)
  show "contiguous i a \<Longrightarrow> ar_len (arena_anchor i a) = ar_len a"
    by (rule cases) simp_all
  show "\<not> contiguous i a \<Longrightarrow> ar_len (arena_anchor i a) = 0"
    by (rule cases) (simp_all add: arena_clear_def)
  show "ar_len a \<noteq> 0 \<Longrightarrow> contiguous i a \<Longrightarrow> arena_anchor i a = a"
    by (rule cases) simp_all
qed

lemma arena_evict_props:
  assumes ok: "arena_ok a" and cap: "ar_slots a \<noteq> []"
    and i: "i = sat_add (ar_base_index a) (u64_of (ar_len a))"
  shows "arena_ok (arena_evict a)"
    and "ar_len (arena_evict a) < length (ar_slots (arena_evict a))"
    and "length (ar_slots (arena_evict a)) = length (ar_slots a)"
    and "i = sat_add (ar_base_index (arena_evict a)) (u64_of (ar_len (arena_evict a)))"
    and "arena_map (arena_evict a) j =
      (if ar_len a = length (ar_slots a) \<and> j = ar_base_index a then None else arena_map a j)"
proof -
  let ?n = "length (ar_slots a)" and ?b = "unat (ar_base_index a)"
  have n: "0 < ?n" "?n < 2 ^ 64" "ar_len a \<le> ?n" using ok cap by (auto simp: arena_ok_def)
  have b': "unat (sat_add (ar_base_index a) 1) = min (?b + 1) (2 ^ 64 - 1)"
    by (simp add: unat_sat_add)
  have slot: "slot_index (ring_slot (arena_evict a) k) = slot_index (ring_slot a (Suc k)) \<and>
      slot_term (ring_slot (arena_evict a) k) = slot_term (ring_slot a (Suc k))" if "ar_len a = ?n" for k
    using that by (simp add: ring_slot_def arena_evict_def mod_simps)
  show "arena_ok (arena_evict a)"
  proof (cases "ar_len a = ?n")
    case True
    have "unat (slot_index (ring_slot (arena_evict a) k)) = unat (ar_base_index (arena_evict a)) + k"
      if "k < ar_len (arena_evict a)" "unat (ar_base_index (arena_evict a)) + k < 2 ^ 64 - 1" for k
    proof -
      have "Suc k < ar_len a" "?b + Suc k < 2 ^ 64 - 1" "?b + 1 < 2 ^ 64 - 1"
        using that True b' by (auto simp: arena_evict_def)
      then show ?thesis using slot [OF True] ok b' True
        by (simp add: arena_ok_def) (simp add: arena_evict_def)
    qed
    then show ?thesis using True n by (simp add: arena_ok_def) (simp add: arena_evict_def)
  qed (use ok in \<open>simp add: arena_evict_def\<close>)
  show "ar_len (arena_evict a) < length (ar_slots (arena_evict a))"
    "length (ar_slots (arena_evict a)) = length (ar_slots a)"
    using n by (auto simp: arena_evict_def)
  have "unat (sat_add (sat_add (ar_base_index a) 1) (u64_of (?n - 1))) = unat (sat_add (ar_base_index a) (u64_of ?n))"
  proof -
    obtain m where m: "?n = Suc m" using n(1) by (cases ?n) auto
    have "unat (sat_add (sat_add (ar_base_index a) 1) (u64_of m)) =
        min (unat (sat_add (ar_base_index a) 1) + m) (2 ^ 64 - 1)"
      "unat (sat_add (ar_base_index a) (u64_of (Suc m))) = min (?b + Suc m) (2 ^ 64 - 1)"
      using n m by (simp_all add: unat_window_end del: of_nat_Suc)
    then show ?thesis unfolding b' m by simp
  qed
  then show "i = sat_add (ar_base_index (arena_evict a)) (u64_of (ar_len (arena_evict a)))"
    using i by (auto simp: arena_evict_def word_unat_eq_iff)
  show "arena_map (arena_evict a) j =
      (if ar_len a = ?n \<and> j = ar_base_index a then None else arena_map a j)"
  proof (cases "ar_len a = ?n")
    case True
    have win: "in_window (arena_evict a) j \<longleftrightarrow> in_window a j \<and> j \<noteq> ar_base_index a"
      using True n b' by (auto simp: in_window_def arena_evict_def word_unat_eq_iff)
    show ?thesis
    proof (cases "in_window (arena_evict a) j")
      case inw: True
      then have "?b < unat j" "unat j < 2 ^ 64 - 1"
        using win by (auto simp: in_window_def word_unat_eq_iff)
      then have "unat j - ?b = Suc (unat j - unat (ar_base_index (arena_evict a)))"
        using True b' by (simp add: arena_evict_def)
      then show ?thesis using inw win slot [OF True] by (simp add: arena_map_def)
    qed (use True win in \<open>auto simp: arena_map_def\<close>)
  qed (simp add: arena_evict_def)
qed

lemma arena_write_props:
  assumes ok: "arena_ok a" and room: "ar_len a < length (ar_slots a)"
    and i: "i = sat_add (ar_base_index a) (u64_of (ar_len a))"
  shows "arena_ok (arena_write i t a)"
    and "arena_map (arena_write i t a) j =
      (if j = i then if i = - 1 then None else Some t else arena_map a j)"
proof -
  let ?n = "length (ar_slots a)" and ?b = "unat (ar_base_index a)" and ?w = "arena_write i t a"
  have n: "?n < 2 ^ 64" using ok by (simp add: arena_ok_def)
  then have ui: "unat i = min (?b + ar_len a) (2 ^ 64 - 1)"
    using i room by (simp add: unat_window_end)
  have lt: "(ar_head a + ar_len a) mod ?n < ?n"
    using room by (intro mod_less_divisor) linarith
  have old: "ring_slot ?w k = ring_slot a k" if "k < ar_len a" for k
  proof -
    have "(ar_head a + k) mod ?n \<noteq> (ar_head a + ar_len a) mod ?n"
      using that room mod_offset_inj [of "ar_head a" k ?n "ar_len a"] by auto
    then show ?thesis by (simp add: ring_slot_def arena_write_def Let_def)
  qed
  have new: "slot_index (ring_slot ?w (ar_len a)) = i" "slot_term (ring_slot ?w (ar_len a)) = t"
    using lt by (simp_all add: ring_slot_def arena_write_def Let_def)
  have fields: "ar_len ?w = Suc (ar_len a)" "ar_base_index ?w = ar_base_index a"
      "length (ar_slots ?w) = ?n"
    by (simp_all add: arena_write_def Let_def)
  have "unat (slot_index (ring_slot ?w k)) = ?b + k" if "k < Suc (ar_len a)" "?b + k < 2 ^ 64 - 1" for k
  proof (cases "k = ar_len a")
    case False
    then show ?thesis using that ok old by (simp add: arena_ok_def)
  qed (use that new ui in simp)
  then show "arena_ok ?w"
    using room n by (simp add: arena_ok_def fields)
  have max: "i = - 1 \<longleftrightarrow> unat i = 2 ^ 64 - 1"
    by (simp add: word_unat_eq_iff)
  show "arena_map ?w j = (if j = i then if i = - 1 then None else Some t else arena_map a j)"
  proof (cases "in_window a j")
    case True
    then have "unat j - ?b < ar_len a" "j \<noteq> i" "in_window ?w j"
      using ui by (auto simp: in_window_def fields)
    then show ?thesis using True old by (simp add: arena_map_def fields)
  next
    case False
    then have "in_window ?w j \<longleftrightarrow> unat j = ?b + ar_len a \<and> unat j < 2 ^ 64 - 1"
      by (auto simp: in_window_def fields)
    then have "in_window ?w j \<longleftrightarrow> j = i \<and> i \<noteq> - 1"
      using ui max by (auto simp: word_unat_eq_iff)
    moreover have "unat j - ?b = ar_len a" if "in_window ?w j"
      using that False by (auto simp: in_window_def fields)
    ultimately show ?thesis using False new by (auto simp: arena_map_def fields)
  qed
qed

text \<open>The exact effect of an append on the window.\<close>

lemma arena_append_props:
  assumes ok: "arena_ok a" and cap: "ar_slots a \<noteq> []"
  shows "arena_ok (arena_append i t a)"
    and "arena_map (arena_append i t a) j =
      (if j = i then if i = - 1 then None else Some t
       else if contiguous i a \<and> \<not> (ar_len a = length (ar_slots a) \<and> j = ar_base_index a)
       then arena_map a j else None)"
proof -
  let ?b = "arena_anchor i a" and ?c = "arena_evict (arena_anchor i a)"
  note an = arena_anchor_props [OF ok, of i]
  have capb: "ar_slots ?b \<noteq> []" using an(2) cap by (metis length_0_conv)
  note ev = arena_evict_props [OF an(1) capb an(3)]
  note wr = arena_write_props [OF ev(1,2,4)]
  show "arena_ok (arena_append i t a)"
    using wr(1) cap by (simp add: arena_append_def)
  have b: "arena_map ?c j =
      (if ar_len ?b = length (ar_slots a) \<and> j = ar_base_index ?b then None else arena_map ?b j)"
    using ev(5) an(2) by simp
  have empty: "arena_map a j = None" if "ar_len a = 0"
    using that by (simp add: arena_map_def in_window_def)
  have "arena_map ?c j =
      (if contiguous i a \<and> \<not> (ar_len a = length (ar_slots a) \<and> j = ar_base_index a)
       then arena_map a j else None)"
    unfolding b an(4) using an(5,6,7) empty cap by (cases "ar_len a = 0"; cases "contiguous i a") auto
  then show "arena_map (arena_append i t a) j =
      (if j = i then if i = - 1 then None else Some t
       else if contiguous i a \<and> \<not> (ar_len a = length (ar_slots a) \<and> j = ar_base_index a)
       then arena_map a j else None)"
    using wr(2) [of t j] cap by (simp add: arena_append_def)
qed

lemma arena_append_ok: "arena_ok a \<Longrightarrow> arena_ok (arena_append i t a)"
  by (cases "ar_slots a = []") (simp add: arena_append_def, rule arena_append_props(1))

section \<open>The contract of a term cache\<close>

text \<open>
  What the node relies on: an answer after an append is the appended term or
  an answer that was there before, a truncation leaves answers below the cut
  only, and a cleared cache answers nothing.
\<close>

locale term_cache =
  fixes put :: "log_index \<Rightarrow> raft_term \<Rightarrow> 'c \<Rightarrow> 'c"
    and cut :: "log_index \<Rightarrow> 'c \<Rightarrow> 'c"
    and wipe :: "log_index \<Rightarrow> 'c \<Rightarrow> 'c"
    and find :: "'c \<Rightarrow> log_index \<Rightarrow> raft_term option"
    and invar :: "'c \<Rightarrow> bool"
  assumes find_put: "invar c \<Longrightarrow> find (put i t c) j = Some u \<Longrightarrow> if j = i then u = t else find c j = Some u"
    and find_cut: "invar c \<Longrightarrow> find (cut from c) j = Some u \<Longrightarrow> j < from \<and> find c j = Some u"
    and find_wipe: "invar c \<Longrightarrow> find (wipe b c) j = None"
    and invar_put: "invar c \<Longrightarrow> invar (put i t c)"
    and invar_cut: "invar c \<Longrightarrow> invar (cut from c)"
    and invar_wipe: "invar c \<Longrightarrow> invar (wipe b c)"
begin

text \<open>A cache that agrees with a log keeps agreeing with it.\<close>

lemma sound_put:
  "invar c \<Longrightarrow> find c \<subseteq>\<^sub>m log \<Longrightarrow> find (put i t c) \<subseteq>\<^sub>m log(i \<mapsto> t)"
  by (fastforce simp: map_le_def dom_def dest: find_put split: if_splits)

lemma sound_cut:
  "invar c \<Longrightarrow> find c \<subseteq>\<^sub>m log \<Longrightarrow> find (cut from c) \<subseteq>\<^sub>m log |` {..<from}"
  by (fastforce simp: map_le_def dom_def dest: find_cut)

lemma sound_wipe: "invar c \<Longrightarrow> find (wipe b c) \<subseteq>\<^sub>m log"
  by (simp add: map_le_def dom_def find_wipe)

lemma sound_puts:
  assumes "invar c" and "find c \<subseteq>\<^sub>m log"
  shows "invar (fold (\<lambda>(i, t). put i t) es c)"
    and "find (fold (\<lambda>(i, t). put i t) es c) \<subseteq>\<^sub>m log ++ map_of (rev es)"
proof -
  have "invar (fold (\<lambda>(i, t). put i t) es c) \<and>
      find (fold (\<lambda>(i, t). put i t) es c) \<subseteq>\<^sub>m log ++ map_of (rev es)"
    using assms
  proof (induction es arbitrary: c log)
    case (Cons e es)
    obtain i t where e: "e = (i, t)" by force
    have step: "find (put i t c) \<subseteq>\<^sub>m log(i \<mapsto> t)" using Cons.prems by (rule sound_put)
    have log: "log ++ map_of (rev (e # es)) = log(i \<mapsto> t) ++ map_of (rev es)"
      by (simp add: e map_add_assoc [symmetric])
    show ?case
      unfolding log using Cons.IH [OF invar_put [OF Cons.prems(1)] step]
      by (simp only: e fold.simps o_apply prod.case)
  qed simp
  then show "invar (fold (\<lambda>(i, t). put i t) es c)"
    and "find (fold (\<lambda>(i, t). put i t) es c) \<subseteq>\<^sub>m log ++ map_of (rev es)" by blast+
qed

end

interpretation arena: term_cache arena_append arena_truncate_suffix arena_clear arena_get_term arena_ok
proof unfold_locales
  fix c i t j u assume ok: "arena_ok c" and get: "arena_get_term (arena_append i t c) j = Some u"
  show "if j = i then u = t else arena_get_term c j = Some u"
  proof (cases "ar_slots c = []")
    case True
    then show ?thesis using get by (simp add: arena_append_def arena_get_term_def)
  next
    case False
    have "arena_map (arena_append i t c) j = Some u"
      using get ok by (simp add: arena_get_term_map arena_append_ok)
    then show ?thesis
      using arena_append_props(2) [OF ok False, of i t j] ok
      by (auto simp: arena_get_term_map split: if_splits)
  qed
next
  fix c "from" j u assume ok: "arena_ok c" and "arena_get_term (arena_truncate_suffix from c) j = Some u"
  then show "j < from \<and> arena_get_term c j = Some u"
    by (simp add: arena_get_term_map arena_truncate_suffix_ok arena_truncate_suffix_map restrict_map_def
        split: if_splits)
qed (simp_all add: arena_append_ok arena_truncate_suffix_ok arena_clear_ok arena_get_term_map arena_clear_map)

text \<open>
  (C24) The ring of entry terms is a bounded window of a map.  On a ring in a
  consistent state, a lookup reads the window; an append makes the new index
  answer its term (unless it is \<open>u64::MAX\<close>, which is never answered), keeps
  every other answer except the oldest one of a full ring, and forgets the
  window when the index leaves a gap; a truncation keeps exactly the answers
  below the cut; every operation keeps the state consistent.
\<close>

theorem arena_refines_window:
  assumes "arena_ok a" and "ar_slots a \<noteq> []"
  shows "arena_get_term (arena_append i t a) j =
      (if j = i then if i = - 1 then None else Some t
       else if contiguous i a \<and> \<not> (ar_len a = length (ar_slots a) \<and> j = ar_base_index a)
       then arena_get_term a j else None) \<and>
    arena_get_term (arena_truncate_suffix from a) j = (if j < from then arena_get_term a j else None) \<and>
    arena_get_term (arena_clear b a) j = None \<and>
    arena_ok (arena_append i t a) \<and> arena_ok (arena_truncate_suffix from a) \<and> arena_ok (arena_clear b a)"
proof -
  note ok = arena_append_ok [OF assms(1)] arena_truncate_suffix_ok [OF assms(1)] arena_clear_ok [OF assms(1)]
  note maps = arena_append_props(2) [OF assms] arena_truncate_suffix_map [OF assms(1)] arena_clear_map
  show ?thesis
    unfolding arena_get_term_map [OF assms(1)] arena_get_term_map [OF ok(1)]
      arena_get_term_map [OF ok(2)] arena_get_term_map [OF ok(3)] maps
    using ok by (simp add: restrict_map_def)
qed

theorem arena_refines_window_witness:
  "arena_ok (arena_new 2) \<and> ar_slots (arena_new 2) \<noteq> [] \<and>
   arena_get_term (arena_append 7 3 (arena_new 2)) 7 = Some 3"
  using arena_refines_window [of "arena_new 2" 7 3 7]
  by (simp add: arena_new_ok) (simp add: arena_new_def)

end
