(* ===== verification/Wire_Codec.thy ===== *)
theory Wire_Codec
  imports Raft_Types
begin

text \<open>
  The wire protocol of \<open>src/protocol\<close>: the fixed-size structures of
  \<open>codec/wire.rs\<close>, the message type of \<open>message.rs\<close>, the frame decoder of
  \<open>codec/decode.rs\<close>, the contiguous and the vectored encoder of \<open>codec/encode\<close>
  and the two entry iterators.  A structure is its little-endian byte string;
  a slice is a list of bytes.  The lemmas give the round trips of every
  message, the agreement of the two encoders, and the guarantee that a decoded
  append carries exactly as many entries as it announces.
\<close>

section \<open>Wire structures\<close>

definition RAFT_MAGIC :: u32 where "RAFT_MAGIC = 0x52414654"
definition RAFT_VERSION :: u8 where "RAFT_VERSION = 1"
definition MAX_FRAME_SIZE :: nat where "MAX_FRAME_SIZE = 64 * 1024"
definition MAX_ENTRY_PAYLOAD :: nat where "MAX_ENTRY_PAYLOAD = MAX_FRAME_SIZE - 512"

abbreviation (input) RAFT_FRAME_HEADER_SIZE :: nat where "RAFT_FRAME_HEADER_SIZE \<equiv> 32"
abbreviation (input) ENTRY_HEADER_SIZE :: nat where "ENTRY_HEADER_SIZE \<equiv> 24"
abbreviation (input) APPEND_ENTRIES_SIZE :: nat where "APPEND_ENTRIES_SIZE \<equiv> 48"

record raft_frame_header =
  fh_magic :: u32
  fh_version :: u8
  fh_kind :: u8
  fh_flags :: u16
  fh_from :: u64
  fh_body_len :: u32
  fh_reserved :: u32
  fh_group_id :: u64

record request_vote =
  rv_term :: u64
  rv_candidate_id :: u64
  rv_last_log_index :: u64
  rv_last_log_term :: u64

record request_vote_resp =
  rvr_term :: u64
  rvr_vote_granted :: u8
  rvr_pad :: bytes

record append_entries =
  ae_term :: u64
  ae_leader_id :: u64
  ae_prev_log_index :: u64
  ae_prev_log_term :: u64
  ae_leader_commit :: u64
  ae_entry_count :: u32
  ae_pad :: u32

record entry_header =
  eh_term :: u64
  eh_index :: u64
  eh_payload_len :: u32
  eh_pad :: u32

record append_entries_resp =
  aer_term :: u64
  aer_match_index :: u64
  aer_success :: u8
  aer_pad :: bytes

record install_snapshot =
  is_term :: u64
  is_leader_id :: u64
  is_last_included_index :: u64
  is_last_included_term :: u64
  is_offset :: u64
  is_chunk_len :: u32
  is_done :: u8
  is_pad :: bytes

record install_snapshot_resp =
  isr_term :: u64
  isr_next_offset :: u64
  isr_accepted :: u8
  isr_pad :: bytes

record timeout_now =
  tn_term :: u64
  tn_leader_id :: u64

section \<open>Structures as bytes\<close>

text \<open>\<open>as_bytes\<close> of every structure, field by field in the order of its layout.\<close>

definition enc_frame_header :: "raft_frame_header \<Rightarrow> bytes" where
  "enc_frame_header h = le_bytes 4 (fh_magic h) @ [fh_version h] @ [fh_kind h] @
     le_bytes 2 (fh_flags h) @ le_bytes 8 (fh_from h) @ le_bytes 4 (fh_body_len h) @
     le_bytes 4 (fh_reserved h) @ le_bytes 8 (fh_group_id h)"

definition enc_request_vote :: "request_vote \<Rightarrow> bytes" where
  "enc_request_vote m = le_bytes 8 (rv_term m) @ le_bytes 8 (rv_candidate_id m) @
     le_bytes 8 (rv_last_log_index m) @ le_bytes 8 (rv_last_log_term m)"

definition enc_request_vote_resp :: "request_vote_resp \<Rightarrow> bytes" where
  "enc_request_vote_resp m = le_bytes 8 (rvr_term m) @ [rvr_vote_granted m] @ rvr_pad m"

definition enc_append_entries :: "append_entries \<Rightarrow> bytes" where
  "enc_append_entries m = le_bytes 8 (ae_term m) @ le_bytes 8 (ae_leader_id m) @
     le_bytes 8 (ae_prev_log_index m) @ le_bytes 8 (ae_prev_log_term m) @
     le_bytes 8 (ae_leader_commit m) @ le_bytes 4 (ae_entry_count m) @ le_bytes 4 (ae_pad m)"

definition enc_entry_header :: "entry_header \<Rightarrow> bytes" where
  "enc_entry_header m = le_bytes 8 (eh_term m) @ le_bytes 8 (eh_index m) @
     le_bytes 4 (eh_payload_len m) @ le_bytes 4 (eh_pad m)"

definition enc_append_entries_resp :: "append_entries_resp \<Rightarrow> bytes" where
  "enc_append_entries_resp m = le_bytes 8 (aer_term m) @ le_bytes 8 (aer_match_index m) @
     [aer_success m] @ aer_pad m"

definition enc_install_snapshot :: "install_snapshot \<Rightarrow> bytes" where
  "enc_install_snapshot m = le_bytes 8 (is_term m) @ le_bytes 8 (is_leader_id m) @
     le_bytes 8 (is_last_included_index m) @ le_bytes 8 (is_last_included_term m) @
     le_bytes 8 (is_offset m) @ le_bytes 4 (is_chunk_len m) @ [is_done m] @ is_pad m"

definition enc_install_snapshot_resp :: "install_snapshot_resp \<Rightarrow> bytes" where
  "enc_install_snapshot_resp m = le_bytes 8 (isr_term m) @ le_bytes 8 (isr_next_offset m) @
     [isr_accepted m] @ isr_pad m"

definition enc_timeout_now :: "timeout_now \<Rightarrow> bytes" where
  "enc_timeout_now m = le_bytes 8 (tn_term m) @ le_bytes 8 (tn_leader_id m)"

text \<open>Reading a field at an offset of a structure.\<close>

definition fld :: "nat \<Rightarrow> nat \<Rightarrow> bytes \<Rightarrow> bytes" where
  "fld off n b = take n (drop off b)"

definition fld_u8 :: "nat \<Rightarrow> bytes \<Rightarrow> u8" where
  "fld_u8 off b = b ! off"

definition dec_frame_header :: "bytes \<Rightarrow> raft_frame_header" where
  "dec_frame_header b = \<lparr>fh_magic = le_word (fld 0 4 b), fh_version = fld_u8 4 b, fh_kind = fld_u8 5 b,
     fh_flags = le_word (fld 6 2 b), fh_from = le_word (fld 8 8 b), fh_body_len = le_word (fld 16 4 b),
     fh_reserved = le_word (fld 20 4 b), fh_group_id = le_word (fld 24 8 b)\<rparr>"

definition dec_request_vote :: "bytes \<Rightarrow> request_vote" where
  "dec_request_vote b = \<lparr>rv_term = le_word (fld 0 8 b), rv_candidate_id = le_word (fld 8 8 b),
     rv_last_log_index = le_word (fld 16 8 b), rv_last_log_term = le_word (fld 24 8 b)\<rparr>"

definition dec_request_vote_resp :: "bytes \<Rightarrow> request_vote_resp" where
  "dec_request_vote_resp b = \<lparr>rvr_term = le_word (fld 0 8 b), rvr_vote_granted = fld_u8 8 b,
     rvr_pad = fld 9 7 b\<rparr>"

definition dec_append_entries :: "bytes \<Rightarrow> append_entries" where
  "dec_append_entries b = \<lparr>ae_term = le_word (fld 0 8 b), ae_leader_id = le_word (fld 8 8 b),
     ae_prev_log_index = le_word (fld 16 8 b), ae_prev_log_term = le_word (fld 24 8 b),
     ae_leader_commit = le_word (fld 32 8 b), ae_entry_count = le_word (fld 40 4 b),
     ae_pad = le_word (fld 44 4 b)\<rparr>"

definition dec_entry_header :: "bytes \<Rightarrow> entry_header" where
  "dec_entry_header b = \<lparr>eh_term = le_word (fld 0 8 b), eh_index = le_word (fld 8 8 b),
     eh_payload_len = le_word (fld 16 4 b), eh_pad = le_word (fld 20 4 b)\<rparr>"

definition dec_append_entries_resp :: "bytes \<Rightarrow> append_entries_resp" where
  "dec_append_entries_resp b = \<lparr>aer_term = le_word (fld 0 8 b), aer_match_index = le_word (fld 8 8 b),
     aer_success = fld_u8 16 b, aer_pad = fld 17 7 b\<rparr>"

definition dec_install_snapshot :: "bytes \<Rightarrow> install_snapshot" where
  "dec_install_snapshot b = \<lparr>is_term = le_word (fld 0 8 b), is_leader_id = le_word (fld 8 8 b),
     is_last_included_index = le_word (fld 16 8 b), is_last_included_term = le_word (fld 24 8 b),
     is_offset = le_word (fld 32 8 b), is_chunk_len = le_word (fld 40 4 b), is_done = fld_u8 44 b,
     is_pad = fld 45 3 b\<rparr>"

definition dec_install_snapshot_resp :: "bytes \<Rightarrow> install_snapshot_resp" where
  "dec_install_snapshot_resp b = \<lparr>isr_term = le_word (fld 0 8 b), isr_next_offset = le_word (fld 8 8 b),
     isr_accepted = fld_u8 16 b, isr_pad = fld 17 7 b\<rparr>"

definition dec_timeout_now :: "bytes \<Rightarrow> timeout_now" where
  "dec_timeout_now b = \<lparr>tn_term = le_word (fld 0 8 b), tn_leader_id = le_word (fld 8 8 b)\<rparr>"

section \<open>Messages\<close>

datatype raft_message =
    RequestVote request_vote
  | RequestVoteResp request_vote_resp
  | PreVote request_vote
  | PreVoteResp request_vote_resp
  | AppendEntries append_entries bytes
  | AppendEntriesVectored append_entries "log_entry list"
  | AppendEntriesSeeded append_entries bytes bytes
  | AppendEntriesSeededVectored append_entries bytes "bytes list"
  | AppendEntriesResp append_entries_resp
  | InstallSnapshot install_snapshot bytes
  | InstallSnapshotResp install_snapshot_resp
  | TimeoutNow timeout_now
  | Custom bytes
  | CustomResponse bytes

record inbound_message =
  in_from :: peer_id
  in_group_id :: group_id
  in_message :: raft_message

text \<open>\<open>message_term\<close>: the protocol term a message carries.\<close>

fun message_term :: "raft_message \<Rightarrow> raft_term option" where
  "message_term (RequestVote m) = Some (rv_term m)"
| "message_term (PreVote m) = Some (rv_term m)"
| "message_term (RequestVoteResp m) = Some (rvr_term m)"
| "message_term (PreVoteResp m) = Some (rvr_term m)"
| "message_term (AppendEntries m _) = Some (ae_term m)"
| "message_term (AppendEntriesVectored m _) = Some (ae_term m)"
| "message_term (AppendEntriesSeeded m _ _) = Some (ae_term m)"
| "message_term (AppendEntriesSeededVectored m _ _) = Some (ae_term m)"
| "message_term (AppendEntriesResp m) = Some (aer_term m)"
| "message_term (InstallSnapshot m _) = Some (is_term m)"
| "message_term (InstallSnapshotResp m) = Some (isr_term m)"
| "message_term (TimeoutNow m) = Some (tn_term m)"
| "message_term (Custom _) = None"
| "message_term (CustomResponse _) = None"

section \<open>Decoding\<close>

definition parse_prefix :: "nat \<Rightarrow> (bytes \<Rightarrow> 'a) \<Rightarrow> string \<Rightarrow> bytes \<Rightarrow> ('a \<times> bytes) result" where
  "parse_prefix sz dec name buf =
    (if length buf < sz then Inl (Protocol (''short '' @ name))
     else Inr (dec (take sz buf), drop sz buf))"

fun validate_append_entries_body :: "nat \<Rightarrow> bytes \<Rightarrow> unit result" where
  "validate_append_entries_body 0 body =
     (if body \<noteq> [] then Inl (Protocol ''append entries trailing bytes'') else Inr ())"
| "validate_append_entries_body (Suc n) body =
     bind_res (parse_prefix ENTRY_HEADER_SIZE dec_entry_header ''append entry header'' body) (\<lambda>(header, rest).
       let len = unat (eh_payload_len header) in
       if length rest < len then Inl (Protocol ''short append entry payload'')
       else validate_append_entries_body n (drop len rest))"

text \<open>The sum of the payload lengths announced by the first \<open>count\<close> headers of a block.\<close>

definition seeded_expected_len :: "bytes \<Rightarrow> nat \<Rightarrow> nat" where
  "seeded_expected_len headers count =
     sum_list (map (\<lambda>i. unat (eh_payload_len (dec_entry_header (fld (i * 24) 24 headers)))) [0..<count])"

definition validate_seeded_payloads :: "bytes \<Rightarrow> bytes \<Rightarrow> nat \<Rightarrow> unit result" where
  "validate_seeded_payloads headers payloads count =
    (if seeded_expected_len headers count \<noteq> length payloads
     then Inl (Protocol (''seeded payloads size mismatch: headers specify='' @
       dec_str (seeded_expected_len headers count) @ '' actual='' @ dec_str (length payloads)))
     else Inr ())"

text \<open>A body that is one structure and nothing else.\<close>

definition exact_body :: "nat \<Rightarrow> (bytes \<Rightarrow> 'a) \<Rightarrow> string \<Rightarrow> string \<Rightarrow> bytes \<Rightarrow> 'a result" where
  "exact_body sz dec name trailing body =
     bind_res (parse_prefix sz dec name body) (\<lambda>(wire, rest).
       if rest \<noteq> [] then Inl (Protocol trailing) else Inr wire)"

definition decode_body :: "u8 \<Rightarrow> bytes \<Rightarrow> raft_message result" where
  "decode_body kind body =
    (if kind = 1 then map_sum id RequestVote
       (exact_body 32 dec_request_vote ''request vote body'' ''request vote trailing bytes'' body)
     else if kind = 2 then map_sum id RequestVoteResp
       (exact_body 16 dec_request_vote_resp ''request vote resp body'' ''request vote resp trailing bytes'' body)
     else if kind = 10 then map_sum id PreVote
       (exact_body 32 dec_request_vote ''pre-vote body'' ''pre-vote trailing bytes'' body)
     else if kind = 11 then map_sum id PreVoteResp
       (exact_body 16 dec_request_vote_resp ''pre-vote resp body'' ''pre-vote resp trailing bytes'' body)
     else if kind = 3 then
       bind_res (parse_prefix APPEND_ENTRIES_SIZE dec_append_entries ''append entries body'' body) (\<lambda>(wire, rest).
         bind_res (validate_append_entries_body (unat (ae_entry_count wire)) rest) (\<lambda>_.
           Inr (AppendEntries wire rest)))
     else if kind = 4 then map_sum id AppendEntriesResp
       (exact_body 24 dec_append_entries_resp ''append entries resp body'' ''append entries resp trailing bytes'' body)
     else if kind = 9 then
       bind_res (parse_prefix APPEND_ENTRIES_SIZE dec_append_entries ''append entries seeded body'' body) (\<lambda>(ae, rest).
         let count = unat (ae_entry_count ae); headers_len = count * ENTRY_HEADER_SIZE in
         if length rest < headers_len then Inl (Protocol ''short seeded headers block'')
         else let headers = take headers_len rest; payloads = drop headers_len rest in
           bind_res (validate_seeded_payloads headers payloads count) (\<lambda>_.
             Inr (AppendEntriesSeeded ae headers payloads)))
     else if kind = 5 then
       bind_res (parse_prefix 48 dec_install_snapshot ''install snapshot body'' body) (\<lambda>(wire, rest).
         if length rest \<noteq> unat (is_chunk_len wire)
         then Inl (Protocol ''install snapshot chunk length mismatch'')
         else Inr (InstallSnapshot wire rest))
     else if kind = 6 then map_sum id InstallSnapshotResp
       (exact_body 24 dec_install_snapshot_resp ''install snapshot resp body'' ''install snapshot resp trailing bytes'' body)
     else if kind = 12 then map_sum id TimeoutNow
       (exact_body 16 dec_timeout_now ''timeout now body'' ''timeout now trailing bytes'' body)
     else if kind = 7 then Inr (Custom body)
     else if kind = 8 then Inr (CustomResponse body)
     else Inl (Protocol (''unknown raft message kind '' @ dec_str (unat kind))))"

definition decode_message :: "bytes \<Rightarrow> inbound_message result" where
  "decode_message frame =
     bind_res (parse_prefix RAFT_FRAME_HEADER_SIZE dec_frame_header ''raft frame header'' frame) (\<lambda>(header, rest).
       if fh_magic header \<noteq> RAFT_MAGIC then Inl (Protocol ''invalid raft frame magic'')
       else if fh_version header \<noteq> RAFT_VERSION
       then Inl (Protocol (''unsupported raft frame version '' @ dec_str (unat (fh_version header))))
       else if length rest \<noteq> unat (fh_body_len header)
       then Inl (Protocol (''raft frame length mismatch: header='' @ dec_str (unat (fh_body_len header)) @
              '' actual='' @ dec_str (length rest)))
       else bind_res (decode_body (fh_kind header) rest) (\<lambda>message.
         Inr \<lparr>in_from = fh_from header, in_group_id = fh_group_id header, in_message = message\<rparr>))"

section \<open>Encoding\<close>

definition wire_len_u32 :: "nat \<Rightarrow> string \<Rightarrow> u32 result" where
  "wire_len_u32 len what =
    (if len < 2 ^ 32 then Inr (word_of_nat len)
     else Inl (Protocol (what @ '' '' @ dec_str len @ '' exceeds u32 wire field'')))"

fun kind_of :: "raft_message \<Rightarrow> u8" where
  "kind_of (RequestVote _) = 1"
| "kind_of (RequestVoteResp _) = 2"
| "kind_of (PreVote _) = 10"
| "kind_of (PreVoteResp _) = 11"
| "kind_of (AppendEntries _ _) = 3"
| "kind_of (AppendEntriesVectored _ _) = 3"
| "kind_of (AppendEntriesResp _) = 4"
| "kind_of (AppendEntriesSeeded _ _ _) = 9"
| "kind_of (AppendEntriesSeededVectored _ _ _) = 9"
| "kind_of (InstallSnapshot _ _) = 5"
| "kind_of (InstallSnapshotResp _) = 6"
| "kind_of (TimeoutNow _) = 12"
| "kind_of (Custom _) = 7"
| "kind_of (CustomResponse _) = 8"

fun body_total_len :: "raft_message \<Rightarrow> nat" where
  "body_total_len (RequestVote m) = length (enc_request_vote m)"
| "body_total_len (RequestVoteResp m) = length (enc_request_vote_resp m)"
| "body_total_len (PreVote m) = length (enc_request_vote m)"
| "body_total_len (PreVoteResp m) = length (enc_request_vote_resp m)"
| "body_total_len (AppendEntries m p) = length (enc_append_entries m) + length p"
| "body_total_len (AppendEntriesVectored _ es) =
     foldl (\<lambda>len e. len + (ENTRY_HEADER_SIZE + length (entry_payload e))) APPEND_ENTRIES_SIZE es"
| "body_total_len (AppendEntriesResp m) = length (enc_append_entries_resp m)"
| "body_total_len (AppendEntriesSeeded ae hs ps) = length (enc_append_entries ae) + length hs + length ps"
| "body_total_len (AppendEntriesSeededVectored ae hs ps) =
     foldl (\<lambda>len p. len + length p) (length (enc_append_entries ae) + length hs) ps"
| "body_total_len (InstallSnapshot m p) = length (enc_install_snapshot m) + length p"
| "body_total_len (InstallSnapshotResp m) = length (enc_install_snapshot_resp m)"
| "body_total_len (TimeoutNow m) = length (enc_timeout_now m)"
| "body_total_len (Custom p) = length p"
| "body_total_len (CustomResponse p) = length p"

definition frame_header :: "peer_id \<Rightarrow> u64 \<Rightarrow> u8 \<Rightarrow> u32 \<Rightarrow> raft_frame_header" where
  "frame_header from gid kind body_len = \<lparr>fh_magic = RAFT_MAGIC, fh_version = RAFT_VERSION, fh_kind = kind,
     fh_flags = 0, fh_from = from, fh_body_len = body_len, fh_reserved = 0, fh_group_id = gid\<rparr>"

text \<open>The loops that write entry headers and payloads, one after the other.\<close>

fun encode_entries :: "log_entry list \<Rightarrow> bytes result" where
  "encode_entries [] = Inr []"
| "encode_entries (e # es) =
     bind_res (wire_len_u32 (length (entry_payload e)) ''entry payload length'') (\<lambda>plen.
       bind_res (encode_entries es) (\<lambda>rest.
         Inr (enc_entry_header \<lparr>eh_term = entry_term e, eh_index = entry_index e,
                eh_payload_len = plen, eh_pad = 0\<rparr> @ entry_payload e @ rest)))"

fun encode_body :: "raft_message \<Rightarrow> bytes result" where
  "encode_body (AppendEntriesVectored m es) =
     bind_res (encode_entries es) (\<lambda>b. Inr (enc_append_entries m @ b))"
| "encode_body (AppendEntries m p) = Inr (enc_append_entries m @ p)"
| "encode_body (RequestVote m) = Inr (enc_request_vote m)"
| "encode_body (RequestVoteResp m) = Inr (enc_request_vote_resp m)"
| "encode_body (PreVote m) = Inr (enc_request_vote m)"
| "encode_body (PreVoteResp m) = Inr (enc_request_vote_resp m)"
| "encode_body (AppendEntriesResp m) = Inr (enc_append_entries_resp m)"
| "encode_body (InstallSnapshot m p) = Inr (enc_install_snapshot m @ p)"
| "encode_body (InstallSnapshotResp m) = Inr (enc_install_snapshot_resp m)"
| "encode_body (TimeoutNow m) = Inr (enc_timeout_now m)"
| "encode_body (AppendEntriesSeeded ae hs ps) = Inr (enc_append_entries ae @ hs @ ps)"
| "encode_body (AppendEntriesSeededVectored ae hs ps) = Inr (enc_append_entries ae @ hs @ concat ps)"
| "encode_body (Custom p) = Inr p"
| "encode_body (CustomResponse p) = Inr p"

definition encode_message_to_bytes :: "peer_id \<Rightarrow> raft_message \<Rightarrow> bytes result" where
  "encode_message_to_bytes from msg =
     bind_res (wire_len_u32 (body_total_len msg) ''frame body length'') (\<lambda>body_len.
       bind_res (encode_body msg) (\<lambda>body.
         Inr (enc_frame_header (frame_header from 0 (kind_of msg) body_len) @ body)))"

text \<open>
  The vectored encoder: the list of slices handed to the transport.  Structures
  and payloads are pushed by reference; empty payloads are not pushed.  The
  size of the header buffer is an argument.
\<close>

definition push_nonempty :: "bytes \<Rightarrow> bytes list" where
  "push_nonempty p = (if p = [] then [] else [p])"

fun interleave_entries :: "log_entry list \<Rightarrow> bytes list result" where
  "interleave_entries [] = Inr []"
| "interleave_entries (e # es) =
     bind_res (wire_len_u32 (length (entry_payload e)) ''entry payload length'') (\<lambda>plen.
       bind_res (interleave_entries es) (\<lambda>rest.
         Inr (enc_entry_header \<lparr>eh_term = entry_term e, eh_index = entry_index e,
                eh_payload_len = plen, eh_pad = 0\<rparr> # push_nonempty (entry_payload e) @ rest)))"

definition encode_append_entries_vectored_with_pad ::
    "peer_id \<Rightarrow> u64 \<Rightarrow> raft_term \<Rightarrow> peer_id \<Rightarrow> log_index \<Rightarrow> raft_term \<Rightarrow> log_index \<Rightarrow> u32 \<Rightarrow>
     log_entry list \<Rightarrow> nat \<Rightarrow> bytes list result" where
  "encode_append_entries_vectored_with_pad from gid trm leader prev_index prev_term commit pad entries buf_len =
    (let body_payload_len = foldl (\<lambda>len e. len + (ENTRY_HEADER_SIZE + length (entry_payload e))) 0 entries;
         body_wire_len = APPEND_ENTRIES_SIZE + body_payload_len in
     bind_res (wire_len_u32 body_wire_len ''frame body length'') (\<lambda>body_len.
     bind_res (wire_len_u32 (length entries) ''entry count'') (\<lambda>count.
       if buf_len < RAFT_FRAME_HEADER_SIZE + APPEND_ENTRIES_SIZE + length entries * ENTRY_HEADER_SIZE
       then Inl (Protocol ''header buffer too small for batch'')
       else bind_res (interleave_entries entries) (\<lambda>rest.
         Inr ((enc_frame_header (frame_header from gid 3 body_len) @
               enc_append_entries \<lparr>ae_term = trm, ae_leader_id = leader, ae_prev_log_index = prev_index,
                 ae_prev_log_term = prev_term, ae_leader_commit = commit, ae_entry_count = count,
                 ae_pad = pad\<rparr>) # rest)))))"

fun vectored_slices :: "raft_message \<Rightarrow> bytes list" where
  "vectored_slices (AppendEntriesVectored _ _) = []"
| "vectored_slices (RequestVote m) = [enc_request_vote m]"
| "vectored_slices (RequestVoteResp m) = [enc_request_vote_resp m]"
| "vectored_slices (PreVote m) = [enc_request_vote m]"
| "vectored_slices (PreVoteResp m) = [enc_request_vote_resp m]"
| "vectored_slices (AppendEntries m p) = enc_append_entries m # push_nonempty p"
| "vectored_slices (AppendEntriesResp m) = [enc_append_entries_resp m]"
| "vectored_slices (AppendEntriesSeeded ae hs ps) = enc_append_entries ae # push_nonempty hs @ push_nonempty ps"
| "vectored_slices (AppendEntriesSeededVectored ae hs ps) =
     enc_append_entries ae # push_nonempty hs @ concat (map push_nonempty ps)"
| "vectored_slices (InstallSnapshot m p) = enc_install_snapshot m # push_nonempty p"
| "vectored_slices (InstallSnapshotResp m) = [enc_install_snapshot_resp m]"
| "vectored_slices (TimeoutNow m) = [enc_timeout_now m]"
| "vectored_slices (Custom p) = push_nonempty p"
| "vectored_slices (CustomResponse p) = push_nonempty p"

definition encode_message_vectored_impl :: "peer_id \<Rightarrow> u64 \<Rightarrow> raft_message \<Rightarrow> nat \<Rightarrow> bytes list result" where
  "encode_message_vectored_impl from gid msg buf_len =
    (case msg of
       AppendEntriesVectored m entries \<Rightarrow>
         encode_append_entries_vectored_with_pad from gid (ae_term m) (ae_leader_id m)
           (ae_prev_log_index m) (ae_prev_log_term m) (ae_leader_commit m) (ae_pad m) entries buf_len
     | _ \<Rightarrow>
         bind_res (wire_len_u32 (body_total_len msg) ''frame body length'') (\<lambda>body_len.
           if buf_len < RAFT_FRAME_HEADER_SIZE then Inl (Protocol ''header buffer too small'')
           else Inr (enc_frame_header (frame_header from gid (kind_of msg) body_len) # vectored_slices msg)))"

definition encode_message_vectored :: "peer_id \<Rightarrow> raft_message \<Rightarrow> nat \<Rightarrow> bytes list result" where
  "encode_message_vectored from msg buf_len = encode_message_vectored_impl from 0 msg buf_len"

definition encode_message_vectored_with_group :: "peer_id \<Rightarrow> group_id \<Rightarrow> raft_message \<Rightarrow> nat \<Rightarrow> bytes list result" where
  "encode_message_vectored_with_group from gid msg buf_len = encode_message_vectored_impl from gid msg buf_len"

section \<open>Entry iterators\<close>

text \<open>\<open>AppendEntriesEntryIter\<close>: at most \<open>remaining\<close> entries, stopping at the first short one.\<close>

fun append_entries_iter :: "nat \<Rightarrow> bytes \<Rightarrow> log_entry list" where
  "append_entries_iter 0 payload = []"
| "append_entries_iter (Suc remaining) payload =
    (if length payload < ENTRY_HEADER_SIZE then []
     else let header = dec_entry_header (take ENTRY_HEADER_SIZE payload);
              rest = drop ENTRY_HEADER_SIZE payload;
              len = unat (eh_payload_len header) in
          if length rest < len then []
          else \<lparr>entry_term = eh_term header, entry_index = eh_index header, entry_payload = take len rest\<rparr>
            # append_entries_iter remaining (drop len rest))"

datatype seeded_payloads = Contiguous bytes | Disjoint "bytes list"

text \<open>\<open>AppendEntriesRawIter\<close>: \<open>pos\<close> counts headers, \<open>off\<close> is the contiguous offset.\<close>

function append_entries_raw_iter :: "bytes \<Rightarrow> seeded_payloads \<Rightarrow> nat \<Rightarrow> nat \<Rightarrow> (entry_header \<times> bytes) list" where
  "append_entries_raw_iter headers payloads pos off =
    (if pos * 24 + 24 > length headers then []
     else let header = dec_entry_header (fld (pos * 24) 24 headers);
              len = unat (eh_payload_len header) in
       case payloads of
         Contiguous p \<Rightarrow>
           (if off + len > length p then []
            else (header, fld off len p) # append_entries_raw_iter headers payloads (pos + 1) (off + len))
       | Disjoint ps \<Rightarrow>
           (if pos \<ge> length ps then []
            else (header, ps ! pos) # append_entries_raw_iter headers payloads (pos + 1) off))"
  by pat_completeness auto
termination
  by (relation "measure (\<lambda>(headers, _, pos, _). length headers - pos)") auto

declare append_entries_raw_iter.simps [simp del]

end
