(* ===== verification/Raft_Storage.thy ===== *)
theory Raft_Storage
  imports Wire_Codec
begin

text \<open>
  The storage interface of \<open>src/traits/storage.rs\<close>.  A node is generic in its
  storage, so the operations of the trait are a record of functions on an
  arbitrary storage state, which the node's definitions take as an argument.
  The documented contract of the trait is the locale \<open>raft_storage\<close>; it is
  interpreted on the in-memory storage of \<open>tests/log_compaction.rs\<close>.
  Slices handed out by a read are lists; a caller-owned buffer is its length.
\<close>

section \<open>The trait\<close>

record 's storage_ops =
  so_load_hard_state :: "(hard_state, 's) raft_op"
  so_save_hard_state :: "hard_state \<Rightarrow> (unit, 's) raft_op"
  so_append_entries :: "log_entry list \<Rightarrow> (unit, 's) raft_op"
  so_append_entries_seeded :: "entry_header list \<Rightarrow> bytes list \<Rightarrow> (unit, 's) raft_op"
  so_read_entries :: "log_index \<Rightarrow> log_index \<Rightarrow> nat \<Rightarrow> (log_entry list, 's) raft_op"
  so_read_entry_headers :: "log_index \<Rightarrow> log_index \<Rightarrow> (entry_header list option, 's) raft_op"
  so_for_each_payload :: "log_index \<Rightarrow> log_index \<Rightarrow> (bytes list, 's) raft_op"
  so_entry_at :: "log_index \<Rightarrow> nat \<Rightarrow> (log_entry option, 's) raft_op"
  so_term_at :: "log_index \<Rightarrow> (raft_term option, 's) raft_op"
  so_last_log_position :: "(log_index \<times> raft_term, 's) raft_op"
  so_truncate_suffix :: "log_index \<Rightarrow> (unit, 's) raft_op"
  so_truncate_before :: "log_index \<Rightarrow> (unit, 's) raft_op"
  so_save_snapshot :: "snapshot_meta \<Rightarrow> bytes \<Rightarrow> (unit, 's) raft_op"
  so_load_snapshot :: "((snapshot_meta \<times> bytes) option, 's) raft_op"
  so_load_snapshot_meta :: "(snapshot_meta option, 's) raft_op"

text \<open>The methods the trait provides by default.\<close>

definition default_append_entries_seeded :: "entry_header list \<Rightarrow> bytes list \<Rightarrow> (unit, 's) raft_op" where
  "default_append_entries_seeded headers payloads s = (Inl (Storage ''Seeded append not implemented''), s)"

definition default_read_entry_headers :: "log_index \<Rightarrow> log_index \<Rightarrow> (entry_header list option, 's) raft_op" where
  "default_read_entry_headers from until s = (Inr None, s)"

definition default_for_each_payload :: "log_index \<Rightarrow> log_index \<Rightarrow> (bytes list, 's) raft_op" where
  "default_for_each_payload from until s = (Inl (Storage ''for_each_payload not implemented''), s)"

definition default_term_at ::
    "(log_index \<Rightarrow> nat \<Rightarrow> (log_entry option, 's) raft_op) \<Rightarrow> log_index \<Rightarrow> (raft_term option, 's) raft_op" where
  "default_term_at entry_at index s =
     bind_op (entry_at index 512 s) (\<lambda>e s. (Inr (map_option entry_term e), s))"

definition default_truncate_before :: "log_index \<Rightarrow> (unit, 's) raft_op" where
  "default_truncate_before up_to s = (Inr (), s)"

definition default_load_snapshot_meta ::
    "((snapshot_meta \<times> bytes) option, 's) raft_op \<Rightarrow> (snapshot_meta option, 's) raft_op" where
  "default_load_snapshot_meta load_snapshot s =
     bind_op (load_snapshot s) (\<lambda>r s. (Inr (map_option fst r), s))"

section \<open>The documented contract\<close>

text \<open>
  What an append may assume of its argument: the indexes increase and lie above
  every index of the log.
\<close>

definition appendable :: "(log_index \<rightharpoonup> log_entry) \<Rightarrow> log_entry list \<Rightarrow> bool" where
  "appendable log es \<longleftrightarrow> sorted_wrt (<) (map entry_index es) \<and>
     (\<forall>e\<in>set es. \<forall>i\<in>dom log. i < entry_index e)"

abbreviation entry_map :: "log_entry list \<Rightarrow> log_index \<rightharpoonup> log_entry" where
  "entry_map es \<equiv> map_of (map (\<lambda>e. (entry_index e, e)) es)"

text \<open>The highest index of a log and its term; \<open>(0, 0)\<close> for the empty log.\<close>

definition is_last_position :: "(log_index \<rightharpoonup> log_entry) \<Rightarrow> log_index \<times> raft_term \<Rightarrow> bool" where
  "is_last_position log p \<longleftrightarrow>
     (if log = Map.empty then p = (0, 0)
      else \<exists>e. log (fst p) = Some e \<and> snd p = entry_term e \<and> (\<forall>i\<in>dom log. i \<le> fst p))"

text \<open>
  \<open>hs\<close> is the hard state that a restart would load and \<open>log\<close> the durable log.
  A successful write is durable when it returns; a failed hard-state write
  leaves the old or the new value; a read changes neither; a suffix truncation
  removes the indexes from the given one on; a prefix truncation may keep
  anything but changes no retained entry.
\<close>

locale raft_storage =
  fixes S :: "'s storage_ops"
    and hs :: "'s \<Rightarrow> hard_state"
    and log :: "'s \<Rightarrow> log_index \<rightharpoonup> log_entry"
    and invar :: "'s \<Rightarrow> bool"
  assumes load_hs: "invar s \<Longrightarrow> so_load_hard_state S s = (rh, t) \<Longrightarrow>
      invar t \<and> hs t = hs s \<and> log t = log s \<and> (\<forall>h. rh = Inr h \<longrightarrow> h = hs s)"
    and save_hs: "invar s \<Longrightarrow> so_save_hard_state S h s = (r, t) \<Longrightarrow>
      invar t \<and> log t = log s \<and> (if is_ok r then hs t = h else hs t = h \<or> hs t = hs s)"
    and append_es: "invar s \<Longrightarrow> appendable (log s) es \<Longrightarrow> so_append_entries S es s = (r, t) \<Longrightarrow>
      invar t \<and> hs t = hs s \<and> (is_ok r \<longrightarrow> log t = log s ++ entry_map es)"
    and term_at: "invar s \<Longrightarrow> so_term_at S i s = (rt, t) \<Longrightarrow>
      invar t \<and> hs t = hs s \<and> log t = log s \<and> (\<forall>v. rt = Inr v \<longrightarrow> v = map_option entry_term (log s i))"
    and last_pos: "invar s \<Longrightarrow> so_last_log_position S s = (rp, t) \<Longrightarrow>
      invar t \<and> hs t = hs s \<and> log t = log s \<and> (\<forall>p. rp = Inr p \<longrightarrow> is_last_position (log s) p)"
    and trunc_suffix: "invar s \<Longrightarrow> so_truncate_suffix S from s = (r, t) \<Longrightarrow>
      invar t \<and> hs t = hs s \<and> (is_ok r \<longrightarrow> log t = log s |` {..<from})"
    and trunc_before: "invar s \<Longrightarrow> so_truncate_before S up_to s = (r, t) \<Longrightarrow>
      invar t \<and> hs t = hs s \<and> log t \<subseteq>\<^sub>m log s \<and> (\<forall>i \<ge> up_to. log t i = log s i)"
    and save_snap: "invar s \<Longrightarrow> so_save_snapshot S m b s = (r, t) \<Longrightarrow>
      invar t \<and> hs t = hs s \<and> log t = log s"
    and load_snap_meta: "invar s \<Longrightarrow> so_load_snapshot_meta S s = (rm, t) \<Longrightarrow>
      invar t \<and> hs t = hs s \<and> log t = log s"
begin

text \<open>Saving the same hard state again, or failing to save it, never loses it.\<close>

lemma save_same:
  assumes "invar s" and "so_save_hard_state S (hs s) s = (r, t)"
  shows "hs t = hs s"
  using save_hs [OF assms] by (auto split: if_splits)

text \<open>A truncation followed by an append replaces the suffix.\<close>

lemma replace_suffix:
  assumes "invar s" and "so_truncate_suffix S from s = (Inr (), s1)"
    and "sorted_wrt (<) (map entry_index es)" and "\<forall>e\<in>set es. from \<le> entry_index e"
    and "so_append_entries S es s1 = (Inr (), t)"
  shows "invar t" and "hs t = hs s" and "log t = (log s |` {..<from}) ++ entry_map es"
proof -
  have s1: "invar s1" "hs s1 = hs s" "log s1 = log s |` {..<from}"
    using trunc_suffix [OF assms(1,2)] by auto
  have "appendable (log s1) es"
    using assms(3,4) s1(3) by (fastforce simp: appendable_def restrict_map_def split: if_splits)
  from append_es [OF s1(1) this assms(5)] s1
  show "invar t" and "hs t = hs s" and "log t = (log s |` {..<from}) ++ entry_map es" by auto
qed

end

section \<open>The in-memory storage\<close>

record mem_storage =
  ms_hard_state :: "hard_state option"
  ms_entries :: "log_entry list"
  ms_snapshot :: "(snapshot_meta \<times> bytes) option"

definition mem_load_hard_state :: "(hard_state, mem_storage) raft_op" where
  "mem_load_hard_state s =
     (Inr (case ms_hard_state s of None \<Rightarrow> default_hard_state | Some h \<Rightarrow> h), s)"

definition mem_save_hard_state :: "hard_state \<Rightarrow> (unit, mem_storage) raft_op" where
  "mem_save_hard_state h s = (Inr (), s\<lparr>ms_hard_state := Some h\<rparr>)"

definition mem_append_entries :: "log_entry list \<Rightarrow> (unit, mem_storage) raft_op" where
  "mem_append_entries es s = (Inr (), s\<lparr>ms_entries := ms_entries s @ es\<rparr>)"

fun mem_collect :: "log_index \<Rightarrow> log_index \<Rightarrow> nat \<Rightarrow> log_entry list \<Rightarrow> log_entry list result" where
  "mem_collect from until buf [] = Inr []"
| "mem_collect from until buf (e # es) =
    (if entry_index e \<ge> from \<and> entry_index e < until
     then if length (entry_payload e) > buf then Inl (Storage ''payload_buf too small'')
          else bind_res (mem_collect from until (buf - length (entry_payload e)) es) (\<lambda>out. Inr (e # out))
     else mem_collect from until buf es)"

definition mem_read_entries :: "log_index \<Rightarrow> log_index \<Rightarrow> nat \<Rightarrow> (log_entry list, mem_storage) raft_op" where
  "mem_read_entries from until buf s = (mem_collect from until buf (ms_entries s), s)"

definition mem_truncate_suffix :: "log_index \<Rightarrow> (unit, mem_storage) raft_op" where
  "mem_truncate_suffix from s = (Inr (), s\<lparr>ms_entries := filter (\<lambda>e. entry_index e < from) (ms_entries s)\<rparr>)"

definition mem_truncate_before :: "log_index \<Rightarrow> (unit, mem_storage) raft_op" where
  "mem_truncate_before up_to s = (Inr (), s\<lparr>ms_entries := filter (\<lambda>e. entry_index e \<ge> up_to) (ms_entries s)\<rparr>)"

definition mem_save_snapshot :: "snapshot_meta \<Rightarrow> bytes \<Rightarrow> (unit, mem_storage) raft_op" where
  "mem_save_snapshot m b s = (Inr (), s\<lparr>ms_snapshot := Some (m, b)\<rparr>)"

definition mem_load_snapshot :: "((snapshot_meta \<times> bytes) option, mem_storage) raft_op" where
  "mem_load_snapshot s = (Inr (ms_snapshot s), s)"

definition mem_last_log_position :: "(log_index \<times> raft_term, mem_storage) raft_op" where
  "mem_last_log_position s =
     (Inr (if ms_entries s = [] then (0, 0)
           else (entry_index (last (ms_entries s)), entry_term (last (ms_entries s)))), s)"

definition mem_entry_at :: "log_index \<Rightarrow> nat \<Rightarrow> (log_entry option, mem_storage) raft_op" where
  "mem_entry_at index buf s =
    (case find (\<lambda>e. entry_index e = index) (rev (ms_entries s)) of
       None \<Rightarrow> (Inr None, s)
     | Some e \<Rightarrow> if buf < length (entry_payload e) then (Inl (Storage ''payload_buf too small''), s)
                 else (Inr (Some e), s))"

definition mem_ops :: "mem_storage storage_ops" where
  "mem_ops = \<lparr>so_load_hard_state = mem_load_hard_state, so_save_hard_state = mem_save_hard_state,
     so_append_entries = mem_append_entries, so_append_entries_seeded = default_append_entries_seeded,
     so_read_entries = mem_read_entries, so_read_entry_headers = default_read_entry_headers,
     so_for_each_payload = default_for_each_payload, so_entry_at = mem_entry_at,
     so_term_at = default_term_at mem_entry_at, so_last_log_position = mem_last_log_position,
     so_truncate_suffix = mem_truncate_suffix, so_truncate_before = mem_truncate_before,
     so_save_snapshot = mem_save_snapshot, so_load_snapshot = mem_load_snapshot,
     so_load_snapshot_meta = default_load_snapshot_meta mem_load_snapshot\<rparr>"

definition mem_empty :: mem_storage where
  "mem_empty = \<lparr>ms_hard_state = None, ms_entries = [], ms_snapshot = None\<rparr>"

definition mem_hs :: "mem_storage \<Rightarrow> hard_state" where
  "mem_hs s = (case ms_hard_state s of None \<Rightarrow> default_hard_state | Some h \<Rightarrow> h)"

definition mem_log :: "mem_storage \<Rightarrow> log_index \<rightharpoonup> log_entry" where
  "mem_log s = entry_map (ms_entries s)"

definition mem_ok :: "mem_storage \<Rightarrow> bool" where
  "mem_ok s \<longleftrightarrow> sorted_wrt (<) (map entry_index (ms_entries s))"

lemma find_entry_map:
  assumes "sorted_wrt (<) (map entry_index es)"
  shows "find (\<lambda>e. entry_index e = i) (rev es) = entry_map es i"
proof (cases "find (\<lambda>e. entry_index e = i) (rev es)")
  case None
  then have "entry_map es i = None"
    by (auto simp: find_None_iff map_of_eq_None_iff)
  with None show ?thesis by simp
next
  case (Some e)
  then have "e \<in> set es" "entry_index e = i"
    by (metis find_Some_iff nth_mem set_rev, auto simp: find_Some_iff)
  moreover have "distinct (map entry_index es)"
    using assms by (simp add: strict_sorted_iff)
  ultimately have "entry_map es i = Some e"
    by (auto intro!: map_of_is_SomeI simp: comp_def image_iff)
  with Some show ?thesis by simp
qed

lemma entry_map_dom: "dom (entry_map es) = entry_index ` set es"
  by (auto simp: dom_map_of_conv_image_fst image_image)

lemma entry_map_filter:
  assumes "distinct (map entry_index es)"
  shows "entry_map (filter (\<lambda>e. P (entry_index e)) es) = entry_map es |` {i. P i}"
  using assms by (induction es) (auto simp: fun_eq_iff restrict_map_def map_of_eq_None_iff)

interpretation mem: raft_storage mem_ops mem_hs mem_log mem_ok
proof unfold_locales
  fix s t :: mem_storage and es :: "log_entry list" and r :: "unit result"
  assume ok: "mem_ok s" and app: "appendable (mem_log s) es"
    and step: "so_append_entries mem_ops es s = (r, t)"
  have t: "r = Inr ()" "t = s\<lparr>ms_entries := ms_entries s @ es\<rparr>"
    using step by (auto simp: mem_ops_def mem_append_entries_def)
  have "mem_ok t"
    using ok app by (auto simp: t mem_ok_def appendable_def sorted_wrt_append mem_log_def entry_map_dom)
  moreover have "mem_log t = mem_log s ++ entry_map es"
  proof -
    have "dom (entry_map (ms_entries s)) \<inter> dom (entry_map es) = {}"
      using app unfolding appendable_def mem_log_def entry_map_dom by fastforce
    then show ?thesis by (simp add: t mem_log_def map_add_comm)
  qed
  ultimately show "mem_ok t \<and> mem_hs t = mem_hs s \<and> (is_ok r \<longrightarrow> mem_log t = mem_log s ++ entry_map es)"
    by (simp add: t mem_hs_def)
next
  fix s t :: mem_storage and i and r :: "raft_term option result"
  assume ok: "mem_ok s" and "so_term_at mem_ops i s = (r, t)"
  then show "mem_ok t \<and> mem_hs t = mem_hs s \<and> mem_log t = mem_log s \<and>
      (\<forall>v. r = Inr v \<longrightarrow> v = map_option entry_term (mem_log s i))"
    using find_entry_map [OF ok [unfolded mem_ok_def], of i]
    by (auto simp: mem_ops_def default_term_at_def mem_entry_at_def bind_op_def mem_log_def
        split: option.splits if_splits)
next
  fix s t :: mem_storage and r
  assume ok: "mem_ok s" and step: "so_last_log_position mem_ops s = (r, t)"
  show "mem_ok t \<and> mem_hs t = mem_hs s \<and> mem_log t = mem_log s \<and>
      (\<forall>p. r = Inr p \<longrightarrow> is_last_position (mem_log s) p)"
  proof (cases "ms_entries s" rule: rev_cases)
    case Nil
    then show ?thesis using ok step
      by (auto simp: mem_ops_def mem_last_log_position_def mem_log_def is_last_position_def)
  next
    case (snoc es e)
    have "mem_log s (entry_index e) = Some e"
      using ok by (auto simp: mem_log_def mem_ok_def snoc strict_sorted_iff map_add_def split: option.splits
          dest!: map_of_SomeD)
    moreover have "\<forall>i\<in>dom (mem_log s). i \<le> entry_index e"
      using ok by (auto simp: mem_log_def entry_map_dom mem_ok_def snoc sorted_wrt_append)
    moreover have "mem_log s \<noteq> Map.empty" using calculation(1) by auto
    ultimately show ?thesis using ok step snoc
      by (auto simp: mem_ops_def mem_last_log_position_def is_last_position_def)
  qed
next
  fix s t :: mem_storage and "from" and r :: "unit result"
  assume ok: "mem_ok s" and step: "so_truncate_suffix mem_ops from s = (r, t)"
  then show "mem_ok t \<and> mem_hs t = mem_hs s \<and> (is_ok r \<longrightarrow> mem_log t = mem_log s |` {..<from})"
    by (auto simp: mem_ops_def mem_truncate_suffix_def mem_ok_def mem_hs_def mem_log_def
        entry_map_filter [where P = "\<lambda>i. i < from"]
        strict_sorted_iff lessThan_def sorted_wrt_filter sorted_filter distinct_map_filter)
next
  fix s t :: mem_storage and up_to and r :: "unit result"
  assume ok: "mem_ok s" and step: "so_truncate_before mem_ops up_to s = (r, t)"
  then show "mem_ok t \<and> mem_hs t = mem_hs s \<and> mem_log t \<subseteq>\<^sub>m mem_log s \<and>
      (\<forall>i\<ge>up_to. mem_log t i = mem_log s i)"
    by (auto simp: mem_ops_def mem_truncate_before_def mem_ok_def mem_hs_def mem_log_def
        entry_map_filter [where P = "\<lambda>i. up_to \<le> i"]
        strict_sorted_iff sorted_filter distinct_map_filter map_le_def restrict_map_def split: if_splits)
qed (auto simp: mem_ops_def mem_load_hard_state_def mem_save_hard_state_def mem_save_snapshot_def
    mem_load_snapshot_def default_load_snapshot_meta_def bind_op_def mem_hs_def mem_log_def mem_ok_def)

end
