(* ===== verification/Raft_Node.thy ===== *)
theory Raft_Node
  imports Peer_Map Log_Arena Wire_Codec Raft_Storage
begin

text \<open>
  The node of \<open>src/api/node/mod.rs\<close>: its state, its construction, the accessors,
  the two ways of leaving a role (\<open>step_down\<close> and
  \<open>demote_to_follower_keep_term\<close>), log truncation, the sending of a message and
  the check-quorum lease, together with the majority predicates of
  \<open>src/api/node/election.rs\<close> that every quorum decision shares.

  The storage is a parameter (\<open>e_store\<close>), the clock an argument (\<open>e_now\<close>,
  milliseconds), and the transport a function that says whether the \<open>k\<close>-th send
  of the node to a peer succeeds (\<open>e_send_ok\<close>).  Every message handed to the
  transport is appended to \<open>n_outbox\<close>.  Scratch buffers are not state.
\<close>

section \<open>State\<close>

record raft_metrics =
  m_elections_started :: u64
  m_elections_won :: u64
  m_step_downs :: u64
  m_config_changes_applied :: u64
  m_frames_dropped_nonfatal :: u64
  m_snapshots_evicted :: u64
  m_snapshot_installs_refused :: u64
  m_log_compactions :: u64
  m_peers_jailed :: u64
  m_frames_shed_jailed :: u64
  m_resource_exhausted :: u64

definition default_metrics :: raft_metrics where
  "default_metrics = \<lparr>m_elections_started = 0, m_elections_won = 0, m_step_downs = 0,
     m_config_changes_applied = 0, m_frames_dropped_nonfatal = 0, m_snapshots_evicted = 0,
     m_snapshot_installs_refused = 0, m_log_compactions = 0, m_peers_jailed = 0,
     m_frames_shed_jailed = 0, m_resource_exhausted = 0\<rparr>"

record pending_transfer =
  pt_target :: peer_id
  pt_deadline :: nat

record 's raft_node =
  n_config :: node_config
  n_storage :: 's
  n_hard :: hard_state
  n_soft :: soft_state
  n_pending_custom :: "u64 list"
  n_progress :: "peer_progress peer_map"
  n_joint_peers :: "(peer_id list \<times> peer_id list) option"
  n_pending_snapshots :: "pending_snapshot peer_map"
  n_snapshot_attempts :: "snapshot_attempts peer_map"
  n_log_metadata :: log_metadata_arena
  n_voter_contact :: "nat peer_map"
  n_last_log :: "log_index \<times> raft_term"
  n_snapshot_boundary :: "log_index \<times> raft_term"
  n_commit_index_pub :: u64
  n_metrics :: raft_metrics
  n_last_applied :: log_index
  n_debt_entries :: u64
  n_debt_bytes :: u64
  n_leader_contact :: "nat option"
  n_pending_transfer :: "pending_transfer option"
  n_forced_campaign_term :: "raft_term option"
  n_read_probe_seq :: u32
  n_aborted_custom :: "u64 list"
  n_outbox :: "(peer_id \<times> raft_message) list"

record 's raft_env =
  e_store :: "'s storage_ops"
  e_now :: nat
  e_send_ok :: "nat \<Rightarrow> peer_id \<Rightarrow> bool"

text \<open>A storage call of the node.\<close>

definition with_storage :: "('a, 's) raft_op \<Rightarrow> ('a, 's raft_node) raft_op" where
  "with_storage f n = (case f (n_storage n) of (r, s) \<Rightarrow> (r, n\<lparr>n_storage := s\<rparr>))"

definition fresh_node :: "node_config \<Rightarrow> 's \<Rightarrow> hard_state \<Rightarrow> log_index \<times> raft_term \<Rightarrow> log_index \<times> raft_term \<Rightarrow> 's raft_node" where
  "fresh_node config storage hard last_pos boundary =
     \<lparr>n_config = config, n_storage = storage, n_hard = hard,
      n_soft = \<lparr>leader_id = None, soft_is_leader = False, soft_role = Follower, soft_commit_index = 0\<rparr>,
      n_pending_custom = [], n_progress = pm_empty, n_joint_peers = None,
      n_pending_snapshots = pm_empty, n_snapshot_attempts = pm_empty,
      n_log_metadata = arena_new 8192, n_voter_contact = pm_empty, n_last_log = last_pos,
      n_snapshot_boundary = boundary, n_commit_index_pub = 0, n_metrics = default_metrics,
      n_last_applied = 0, n_debt_entries = 0, n_debt_bytes = 0, n_leader_contact = None,
      n_pending_transfer = None, n_forced_campaign_term = None, n_read_probe_seq = 0,
      n_aborted_custom = [], n_outbox = []\<rparr>"

definition raft_node_new :: "'s storage_ops \<Rightarrow> node_config \<Rightarrow> 's \<Rightarrow> 's raft_node result \<times> 's" where
  "raft_node_new S config storage =
    (case validate_node_config config of Inl e \<Rightarrow> (Inl e, storage) | Inr _ \<Rightarrow>
     bind_op (so_load_hard_state S storage) (\<lambda>hard s.
     bind_op (so_last_log_position S s) (\<lambda>last_pos s.
     bind_op (so_load_snapshot_meta S s) (\<lambda>meta s.
       (Inr (fresh_node config s hard last_pos
          (case meta of None \<Rightarrow> (0, 0) | Some m \<Rightarrow> (last_included_index m, last_included_term m))), s)))))"

section \<open>Accessors\<close>

abbreviation node_id :: "'s raft_node \<Rightarrow> peer_id" where
  "node_id n \<equiv> cfg_node_id (n_config n)"

abbreviation peers :: "'s raft_node \<Rightarrow> peer_id list" where
  "peers n \<equiv> cfg_peers (n_config n)"

abbreviation learners :: "'s raft_node \<Rightarrow> peer_id list" where
  "learners n \<equiv> cfg_learners (n_config n)"

abbreviation node_term :: "'s raft_node \<Rightarrow> raft_term" where
  "node_term n \<equiv> current_term (n_hard n)"

abbreviation commit_index :: "'s raft_node \<Rightarrow> log_index" where
  "commit_index n \<equiv> soft_commit_index (n_soft n)"

abbreviation role :: "'s raft_node \<Rightarrow> role" where
  "role n \<equiv> soft_role (n_soft n)"

definition is_leader :: "'s raft_node \<Rightarrow> bool" where
  "is_leader n \<longleftrightarrow> role n = Leader"

definition not_leader_error :: "'s raft_node \<Rightarrow> raft_error" where
  "not_leader_error n = NotLeader (leader_id (n_soft n))"

definition set_commit_index :: "log_index \<Rightarrow> 's raft_node \<Rightarrow> 's raft_node" where
  "set_commit_index idx n =
     n\<lparr>n_soft := (n_soft n)\<lparr>soft_commit_index := idx\<rparr>, n_commit_index_pub := idx\<rparr>"

definition set_last_applied :: "log_index \<Rightarrow> 's raft_node \<Rightarrow> 's raft_node" where
  "set_last_applied idx n = n\<lparr>n_last_applied := idx\<rparr>"

record raft_status =
  rs_node_id :: peer_id
  rs_term :: raft_term
  rs_role :: role
  rs_leader_id :: "peer_id option"
  rs_is_leader :: bool
  rs_commit_index :: log_index
  rs_last_applied :: log_index
  rs_last_log_index :: log_index
  rs_voter_count :: nat
  rs_config_change_in_progress :: bool

definition node_status :: "'s raft_node \<Rightarrow> raft_status" where
  "node_status n = \<lparr>rs_node_id = node_id n, rs_term = node_term n, rs_role = role n,
     rs_leader_id = leader_id (n_soft n), rs_is_leader = (role n = Leader),
     rs_commit_index = commit_index n, rs_last_applied = n_last_applied n,
     rs_last_log_index = fst (n_last_log n), rs_voter_count = length (peers n),
     rs_config_change_in_progress = (n_joint_peers n \<noteq> None)\<rparr>"

definition learner_caught_up :: "peer_id \<Rightarrow> 's raft_node \<Rightarrow> bool result" where
  "learner_caught_up peer n =
    (if \<not> is_leader n then Inl (not_leader_error n)
     else if peer \<notin> set (learners n) then Inl (PeerUnknown peer)
     else Inr (case pm_get peer (n_progress n) of None \<Rightarrow> False
               | Some p \<Rightarrow> match_index p \<ge> commit_index n))"

text \<open>The counters; \<open>fetch_add\<close> wraps.\<close>

definition inc_elections_started :: "'s raft_node \<Rightarrow> 's raft_node" where
  "inc_elections_started n =
     n\<lparr>n_metrics := (n_metrics n)\<lparr>m_elections_started := m_elections_started (n_metrics n) + 1\<rparr>\<rparr>"

definition inc_elections_won :: "'s raft_node \<Rightarrow> 's raft_node" where
  "inc_elections_won n =
     n\<lparr>n_metrics := (n_metrics n)\<lparr>m_elections_won := m_elections_won (n_metrics n) + 1\<rparr>\<rparr>"

definition inc_step_downs :: "'s raft_node \<Rightarrow> 's raft_node" where
  "inc_step_downs n =
     n\<lparr>n_metrics := (n_metrics n)\<lparr>m_step_downs := m_step_downs (n_metrics n) + 1\<rparr>\<rparr>"

definition inc_config_changes_applied :: "'s raft_node \<Rightarrow> 's raft_node" where
  "inc_config_changes_applied n =
     n\<lparr>n_metrics := (n_metrics n)\<lparr>m_config_changes_applied := m_config_changes_applied (n_metrics n) + 1\<rparr>\<rparr>"

definition inc_frames_dropped_nonfatal :: "'s raft_node \<Rightarrow> 's raft_node" where
  "inc_frames_dropped_nonfatal n =
     n\<lparr>n_metrics := (n_metrics n)\<lparr>m_frames_dropped_nonfatal := m_frames_dropped_nonfatal (n_metrics n) + 1\<rparr>\<rparr>"

section \<open>Stalled snapshot transfers\<close>

definition evict_stalled_snapshots :: "nat \<Rightarrow> 's raft_node \<Rightarrow> nat \<times> 's raft_node" where
  "evict_stalled_snapshots now n =
    (let keep = filter (\<lambda>(_, snap). \<not> pending_snapshot_is_expired now snap) (n_pending_snapshots n);
         evicted = length (n_pending_snapshots n) - length keep
     in (evicted, n\<lparr>n_pending_snapshots := keep,
           n_metrics := (n_metrics n)\<lparr>m_snapshots_evicted :=
             m_snapshots_evicted (n_metrics n) + u64_of evicted\<rparr>\<rparr>))"

section \<open>Leaving a role\<close>

definition demote_to_follower_keep_term :: "'s raft_node \<Rightarrow> 's raft_node" where
  "demote_to_follower_keep_term n =
    (let n = (if role n \<noteq> Follower then inc_step_downs n else n) in
     n\<lparr>n_soft := (n_soft n)\<lparr>soft_role := Follower, soft_is_leader := False, leader_id := None\<rparr>,
       n_progress := pm_clear (n_progress n),
       n_pending_snapshots := pm_clear (n_pending_snapshots n),
       n_snapshot_attempts := pm_clear (n_snapshot_attempts n),
       n_aborted_custom := n_aborted_custom n @ n_pending_custom n,
       n_pending_custom := [],
       n_voter_contact := pm_clear (n_voter_contact n),
       n_pending_transfer := None\<rparr>)"

definition step_down :: "'s raft_env \<Rightarrow> raft_term \<Rightarrow> (unit, 's raft_node) raft_op" where
  "step_down E new_term n =
    (let n = n\<lparr>n_hard := \<lparr>current_term = new_term, voted_for = None\<rparr>\<rparr> in
     bind_op (with_storage (so_save_hard_state (e_store E) (n_hard n)) n) (\<lambda>_ n.
       (Inr (), demote_to_follower_keep_term n)))"

definition storage_truncate :: "'s raft_env \<Rightarrow> log_index \<Rightarrow> (unit, 's raft_node) raft_op" where
  "storage_truncate E from n =
     bind_op (with_storage (so_truncate_suffix (e_store E) from) n) (\<lambda>_ n.
       let n = n\<lparr>n_log_metadata := arena_truncate_suffix from (n_log_metadata n)\<rparr> in
       bind_op (with_storage (so_last_log_position (e_store E)) n) (\<lambda>last_pos n.
         (Inr (), n\<lparr>n_last_log := last_pos\<rparr>)))"

section \<open>Sending\<close>

definition SCRATCH_OUTBOUND_LEN :: nat where
  "SCRATCH_OUTBOUND_LEN = 1024 * 1024"

definition send_message :: "'s raft_env \<Rightarrow> peer_id \<Rightarrow> raft_message \<Rightarrow> 's raft_node \<Rightarrow> bool \<times> 's raft_node" where
  "send_message E peer msg n =
    (case encode_message_vectored (node_id n) msg SCRATCH_OUTBOUND_LEN of
       Inl _ \<Rightarrow> (False, n)
     | Inr _ \<Rightarrow> (e_send_ok E (length (n_outbox n)) peer, n\<lparr>n_outbox := n_outbox n @ [(peer, msg)]\<rparr>))"

section \<open>Majorities\<close>

definition quorum :: "nat \<Rightarrow> nat" where
  "quorum nodes = nodes div 2 + 1"

definition subset_vote_majority :: "peer_id list \<Rightarrow> peer_id list \<Rightarrow> bool" where
  "subset_vote_majority side granted \<longleftrightarrow>
     length (filter (\<lambda>p. p \<in> set granted) side) \<ge> quorum (length side)"

definition voter_majority :: "'s raft_node \<Rightarrow> peer_id list \<Rightarrow> bool" where
  "voter_majority n granted =
    (case n_joint_peers n of
       Some (old_peers, new_peers) \<Rightarrow>
         subset_vote_majority old_peers granted \<and> subset_vote_majority new_peers granted
     | None \<Rightarrow> length granted \<ge> quorum (length (peers n)))"

text \<open>A duration in milliseconds read from a \<open>u64\<close> setting.\<close>

definition election_timeout :: "'s raft_node \<Rightarrow> nat" where
  "election_timeout n = max (unat (election_max_ms (cfg_timing (n_config n)))) 1"

definition active_voters :: "nat \<Rightarrow> 's raft_node \<Rightarrow> peer_id list" where
  "active_voters now n = node_id n #
     filter (\<lambda>p. p \<noteq> node_id n \<and> (case pm_get p (n_voter_contact n) of
         None \<Rightarrow> False | Some t \<Rightarrow> now - t < election_timeout n)) (peers n)"

definition check_quorum_active :: "nat \<Rightarrow> 's raft_node \<Rightarrow> bool" where
  "check_quorum_active now n = voter_majority n (active_voters now n)"

section \<open>Frame lemmas\<close>

text \<open>A storage call and a send leave the consensus state alone.\<close>

lemma with_storage_cases:
  obtains r s where "f (n_storage n) = (r, s)" and "with_storage f n = (r, n\<lparr>n_storage := s\<rparr>)"
  by (cases "f (n_storage n)") (simp add: with_storage_def)

lemma with_storage_fields [simp]:
  "n_config (snd (with_storage f n)) = n_config n"
  "n_hard (snd (with_storage f n)) = n_hard n"
  "n_soft (snd (with_storage f n)) = n_soft n"
  "n_progress (snd (with_storage f n)) = n_progress n"
  "n_joint_peers (snd (with_storage f n)) = n_joint_peers n"
  "n_log_metadata (snd (with_storage f n)) = n_log_metadata n"
  "n_last_log (snd (with_storage f n)) = n_last_log n"
  "n_outbox (snd (with_storage f n)) = n_outbox n"
  "n_commit_index_pub (snd (with_storage f n)) = n_commit_index_pub n"
  "n_snapshot_boundary (snd (with_storage f n)) = n_snapshot_boundary n"
  "n_last_applied (snd (with_storage f n)) = n_last_applied n"
  "n_storage (snd (with_storage f n)) = snd (f (n_storage n))"
  "fst (with_storage f n) = fst (f (n_storage n))"
  by (simp_all add: with_storage_def split: prod.splits)

lemma send_message_fields [simp]:
  "n_config (snd (send_message E p m n)) = n_config n"
  "n_storage (snd (send_message E p m n)) = n_storage n"
  "n_hard (snd (send_message E p m n)) = n_hard n"
  "n_soft (snd (send_message E p m n)) = n_soft n"
  "n_progress (snd (send_message E p m n)) = n_progress n"
  "n_joint_peers (snd (send_message E p m n)) = n_joint_peers n"
  "n_log_metadata (snd (send_message E p m n)) = n_log_metadata n"
  "n_last_log (snd (send_message E p m n)) = n_last_log n"
  "n_commit_index_pub (snd (send_message E p m n)) = n_commit_index_pub n"
  "n_snapshot_boundary (snd (send_message E p m n)) = n_snapshot_boundary n"
  "n_last_applied (snd (send_message E p m n)) = n_last_applied n"
  by (simp_all add: send_message_def split: sum.splits)

lemma send_message_outbox:
  "n_outbox (snd (send_message E p m n)) = n_outbox n \<or>
   n_outbox (snd (send_message E p m n)) = n_outbox n @ [(p, m)]"
  by (simp add: send_message_def split: sum.splits)

lemma set_commit_index_fields [simp]:
  "n_config (set_commit_index i n) = n_config n"
  "n_storage (set_commit_index i n) = n_storage n"
  "n_hard (set_commit_index i n) = n_hard n"
  "n_progress (set_commit_index i n) = n_progress n"
  "n_joint_peers (set_commit_index i n) = n_joint_peers n"
  "n_log_metadata (set_commit_index i n) = n_log_metadata n"
  "n_last_log (set_commit_index i n) = n_last_log n"
  "n_outbox (set_commit_index i n) = n_outbox n"
  "commit_index (set_commit_index i n) = i"
  "role (set_commit_index i n) = role n"
  "n_commit_index_pub (set_commit_index i n) = i"
  by (simp_all add: set_commit_index_def)

lemma demote_fields [simp]:
  "n_config (demote_to_follower_keep_term n) = n_config n"
  "n_storage (demote_to_follower_keep_term n) = n_storage n"
  "n_hard (demote_to_follower_keep_term n) = n_hard n"
  "n_joint_peers (demote_to_follower_keep_term n) = n_joint_peers n"
  "n_log_metadata (demote_to_follower_keep_term n) = n_log_metadata n"
  "n_last_log (demote_to_follower_keep_term n) = n_last_log n"
  "n_outbox (demote_to_follower_keep_term n) = n_outbox n"
  "n_commit_index_pub (demote_to_follower_keep_term n) = n_commit_index_pub n"
  "commit_index (demote_to_follower_keep_term n) = commit_index n"
  "role (demote_to_follower_keep_term n) = Follower"
  "soft_is_leader (n_soft (demote_to_follower_keep_term n)) = False"
  "n_progress (demote_to_follower_keep_term n) = []"
  "n_snapshot_boundary (demote_to_follower_keep_term n) = n_snapshot_boundary n"
  "n_last_applied (demote_to_follower_keep_term n) = n_last_applied n"
  by (simp_all add: demote_to_follower_keep_term_def inc_step_downs_def Let_def pm_clear_def)

lemma step_down_fields [simp]:
  "n_hard (snd (step_down E t n)) = \<lparr>current_term = t, voted_for = None\<rparr>"
  "n_config (snd (step_down E t n)) = n_config n"
  "n_joint_peers (snd (step_down E t n)) = n_joint_peers n"
  "n_log_metadata (snd (step_down E t n)) = n_log_metadata n"
  "n_last_log (snd (step_down E t n)) = n_last_log n"
  "n_outbox (snd (step_down E t n)) = n_outbox n"
  "n_commit_index_pub (snd (step_down E t n)) = n_commit_index_pub n"
  "commit_index (snd (step_down E t n)) = commit_index n"
  "n_storage (snd (step_down E t n)) =
     snd (so_save_hard_state (e_store E) \<lparr>current_term = t, voted_for = None\<rparr> (n_storage n))"
  "fst (step_down E t n) = fst (so_save_hard_state (e_store E) \<lparr>current_term = t, voted_for = None\<rparr> (n_storage n))"
  by (auto simp: step_down_def bind_op_def with_storage_def Let_def split: prod.splits sum.splits)

lemma step_down_role: "step_down E t n = (Inr u, n') \<Longrightarrow> role n' = Follower"
  by (auto simp: step_down_def bind_op_def with_storage_def Let_def split: prod.splits sum.splits)

section \<open>Quorums meet\<close>

text \<open>
  The interface of a quorum rule: which lists of voters count as a quorum of a
  configuration, such that two quorums of one configuration share a member.
\<close>

locale quorum_rule =
  fixes well_formed :: "'c \<Rightarrow> bool"
    and is_quorum :: "'c \<Rightarrow> peer_id list \<Rightarrow> bool"
  assumes quorums_meet: "well_formed c \<Longrightarrow> is_quorum c A \<Longrightarrow> is_quorum c B \<Longrightarrow> set A \<inter> set B \<noteq> {}"
begin

text \<open>When every voter supports at most one choice, at most one choice has a quorum.\<close>

lemma unique_choice:
  assumes "well_formed c" and "is_quorum c A" and "is_quorum c B"
    and "\<forall>p\<in>set A. vote p = Some a" and "\<forall>p\<in>set B. vote p = Some b"
  shows "a = b"
proof -
  obtain p where "p \<in> set A" "p \<in> set B"
    using quorums_meet [OF assms(1-3)] by blast
  then show ?thesis using assms(4,5) by (metis option.inject)
qed

end

lemma subset_vote_majority_card:
  assumes "distinct side"
  shows "subset_vote_majority side granted \<longleftrightarrow> length side < 2 * card (set side \<inter> set granted)"
proof -
  have "length (filter (\<lambda>p. p \<in> set granted) side) = card (set side \<inter> set granted)"
    using assms by (simp add: length_filter_card Int_def)
  then show ?thesis by (auto simp: subset_vote_majority_def quorum_def)
qed

lemma subset_majorities_meet:
  assumes "distinct side" and "subset_vote_majority side A" and "subset_vote_majority side B"
  shows "set side \<inter> set A \<inter> set B \<noteq> {}"
proof -
  have "(set side \<inter> set A) \<inter> (set side \<inter> set B) \<noteq> {}"
    using assms by (intro majorities_intersect [of "set side"])
      (simp_all add: subset_vote_majority_card distinct_card)
  then show ?thesis by blast
qed

text \<open>The grants that a node counts: voters of its configuration, each once.\<close>

definition counted_grants :: "'s raft_node \<Rightarrow> peer_id list \<Rightarrow> bool" where
  "counted_grants n granted \<longleftrightarrow> distinct granted \<and> set granted \<subseteq> set (peers n)"

definition quorum_config_ok :: "'s raft_node \<Rightarrow> bool" where
  "quorum_config_ok n \<longleftrightarrow> distinct (peers n) \<and>
     (case n_joint_peers n of None \<Rightarrow> True
      | Some (old_peers, new_peers) \<Rightarrow> distinct old_peers \<and> distinct new_peers)"

lemma plain_majority_subset:
  assumes "n_joint_peers n = None" and "distinct (peers n)" and "counted_grants n granted"
  shows "voter_majority n granted \<longleftrightarrow> subset_vote_majority (peers n) granted"
proof -
  have "set (peers n) \<inter> set granted = set granted"
    using assms(3) by (auto simp: counted_grants_def)
  then have "card (set (peers n) \<inter> set granted) = length granted"
    using assms(3) by (simp add: counted_grants_def distinct_card)
  then show ?thesis
    using assms by (auto simp: voter_majority_def subset_vote_majority_card quorum_def)
qed

lemma voter_majorities_meet:
  assumes "quorum_config_ok n" and "counted_grants n A" and "counted_grants n B"
    and "voter_majority n A" and "voter_majority n B"
  shows "set A \<inter> set B \<noteq> {}"
proof (cases "n_joint_peers n")
  case None
  then have "subset_vote_majority (peers n) A" "subset_vote_majority (peers n) B" "distinct (peers n)"
    using assms plain_majority_subset [OF None] by (auto simp: quorum_config_ok_def)
  then show ?thesis using subset_majorities_meet by blast
next
  case (Some jp)
  then obtain old_peers new_peers where jp: "n_joint_peers n = Some (old_peers, new_peers)" by (cases jp) auto
  then have "subset_vote_majority old_peers A" "subset_vote_majority old_peers B" "distinct old_peers"
    using assms by (auto simp: voter_majority_def quorum_config_ok_def)
  then show ?thesis using subset_majorities_meet by blast
qed

interpretation vq: quorum_rule quorum_config_ok "\<lambda>n granted. counted_grants n granted \<and> voter_majority n granted"
  using voter_majorities_meet by unfold_locales blast

interpretation sq: quorum_rule distinct subset_vote_majority
  using subset_majorities_meet by unfold_locales blast

text \<open>
  (C11) The two sides of a membership change cannot decide independently: during
  a joint configuration, a set of voters that the node accepts as a majority
  shares a voter with every majority of the old voter set and with every
  majority of the new voter set, whether these are counted by another node in
  the joint configuration or by a node that is still, or already, in one of
  the two plain configurations.
\<close>

theorem joint_majority_meets_both_sides:
  assumes "n_joint_peers n = Some (old_peers, new_peers)" and "distinct old_peers" and "distinct new_peers"
    and "voter_majority n granted"
    and "subset_vote_majority old_peers other \<or> subset_vote_majority new_peers other"
  shows "set granted \<inter> set other \<noteq> {}"
proof -
  have both: "subset_vote_majority old_peers granted" "subset_vote_majority new_peers granted"
    using assms(1,4) by (simp_all add: voter_majority_def)
  show ?thesis
    using assms(5) sq.quorums_meet [OF assms(2) both(1)] sq.quorums_meet [OF assms(3) both(2)] by blast
qed

text \<open>A three-voter cluster over the in-memory storage, for concrete runs.\<close>

definition sample_config :: "peer_id \<Rightarrow> node_config" where
  "sample_config i = \<lparr>cfg_cluster_id = 1, cfg_node_id = i, cfg_peers = [1, 2, 3], cfg_learners = [],
     cfg_bootstrap_peers = [\<lparr>bp_id = 1, bp_addr = ''a''\<rparr>, \<lparr>bp_id = 2, bp_addr = ''b''\<rparr>, \<lparr>bp_id = 3, bp_addr = ''c''\<rparr>],
     cfg_timing = default_timing, cfg_limits = default_limits\<rparr>"

definition sample_node :: "peer_id \<Rightarrow> mem_storage raft_node" where
  "sample_node i = fresh_node (sample_config i) mem_empty default_hard_state (0, 0) (0, 0)"

definition sample_env :: "mem_storage raft_env" where
  "sample_env = \<lparr>e_store = mem_ops, e_now = 1000, e_send_ok = (\<lambda>_ _. True)\<rparr>"

definition sample_leader :: "mem_storage raft_node" where
  "sample_leader = (sample_node 1)\<lparr>
     n_hard := \<lparr>current_term = 1, voted_for = Some 1\<rparr>,
     n_soft := \<lparr>leader_id = Some 1, soft_is_leader = True, soft_role = Leader, soft_commit_index = 0\<rparr>,
     n_progress := [(2, \<lparr>next_index = 1, match_index = 0\<rparr>), (3, \<lparr>next_index = 1, match_index = 0\<rparr>)]\<rparr>"

lemma sample_node_new:
  "raft_node_new mem_ops (sample_config 1) mem_empty = (Inr (sample_node 1), mem_empty)"
proof -
  have "validate_node_config (sample_config 1) = Inr ()"
    by (simp add: validate_node_config_iff sound_membership_def sample_config_def default_timing_def
        default_limits_def)
  then show ?thesis
    by (simp add: raft_node_new_def mem_ops_def mem_load_hard_state_def mem_last_log_position_def
        default_load_snapshot_meta_def mem_load_snapshot_def mem_empty_def sample_node_def)
qed

theorem joint_majority_meets_both_sides_witness:
  "voter_majority ((sample_node 1)\<lparr>n_joint_peers := Some ([1, 2, 3], [3, 4, 5])\<rparr>) [1, 3, 4] \<and>
   subset_vote_majority [3, 4, 5] [4, 5] \<and> set [1, 3, 4 :: peer_id] \<inter> set [4, 5] \<noteq> {}"
  using joint_majority_meets_both_sides [of "(sample_node 1)\<lparr>n_joint_peers := Some ([1, 2, 3], [3, 4, 5])\<rparr>"
      "[1, 2, 3]" "[3, 4, 5]" "[1, 3, 4]" "[4, 5]"]
  by (simp add: voter_majority_def subset_vote_majority_def quorum_def)

end
