(* ===== verification/Raft_Membership.thy ===== *)
theory Raft_Membership
  imports Raft_Node
begin

text \<open>
  Joint-consensus membership changes, \<open>src/api/node/membership.rs\<close>: the control
  entries carried in the log, their byte layout, and their effect on a node's
  voter, learner and progress tables.  The layout is shown to round-trip, and
  a change is shown to keep voters and learners disjoint and to leave a leader
  with a progress entry for exactly the members it replicates to.
\<close>

section \<open>Control entries\<close>

definition CONFIG_CHANGE_MAGIC :: u8 where "CONFIG_CHANGE_MAGIC = 0xC0"
definition CONFIG_CHANGE_VERSION :: u8 where "CONFIG_CHANGE_VERSION = 1"
definition NOOP_DISCRIMINANT :: u8 where "NOOP_DISCRIMINANT = 0x7F"

definition noop_entry :: bytes where
  "noop_entry = [CONFIG_CHANGE_MAGIC, CONFIG_CHANGE_VERSION, NOOP_DISCRIMINANT, 0]"

definition is_noop_entry :: "bytes \<Rightarrow> bool" where
  "is_noop_entry payload \<longleftrightarrow> payload = noop_entry"

datatype config_change_phase = Joint | Final | AddLearner | RemoveLearner

record config_change_entry =
  cc_phase :: config_change_phase
  cc_old_peers :: "peer_id list"
  cc_new_peers :: "peer_id list"

fun phase_byte :: "config_change_phase \<Rightarrow> u8" where
  "phase_byte Joint = 1"
| "phase_byte Final = 2"
| "phase_byte AddLearner = 3"
| "phase_byte RemoveLearner = 4"

definition config_change_encode :: "config_change_entry \<Rightarrow> bytes" where
  "config_change_encode e =
     [CONFIG_CHANGE_MAGIC, CONFIG_CHANGE_VERSION, phase_byte (cc_phase e), 0] @
     le_bytes 4 (word_of_nat (length (cc_old_peers e)) :: u32) @
     le_bytes 4 (word_of_nat (length (cc_new_peers e)) :: u32) @
     concat (map (le_bytes 8) (cc_old_peers e)) @ concat (map (le_bytes 8) (cc_new_peers e))"

definition phase_of_byte :: "u8 \<Rightarrow> config_change_phase option" where
  "phase_of_byte b = (if b = 1 then Some Joint else if b = 2 then Some Final
     else if b = 3 then Some AddLearner else if b = 4 then Some RemoveLearner else None)"

text \<open>The loops that read peer ids from the cursor on.\<close>

fun read_peers :: "nat \<Rightarrow> bytes \<Rightarrow> peer_id list" where
  "read_peers 0 b = []"
| "read_peers (Suc n) b = le_word (take 8 b) # read_peers n (drop 8 b)"

definition config_change_decode :: "bytes \<Rightarrow> config_change_entry option" where
  "config_change_decode b =
    (if length b < 12 then None
     else if b ! 0 \<noteq> CONFIG_CHANGE_MAGIC then None
     else if b ! 1 \<noteq> CONFIG_CHANGE_VERSION then None
     else case phase_of_byte (b ! 2) of None \<Rightarrow> None | Some phase \<Rightarrow>
       let old_len = unat (le_word (fld 4 4 b) :: u32);
           new_len = unat (le_word (fld 8 4 b) :: u32) in
       if length b < 12 + old_len * 8 + new_len * 8 then None
       else Some \<lparr>cc_phase = phase, cc_old_peers = read_peers old_len (drop 12 b),
                  cc_new_peers = read_peers new_len (drop (12 + old_len * 8) b)\<rparr>)"

section \<open>Effect on a node\<close>

definition merge_peers :: "peer_id list \<Rightarrow> peer_id list \<Rightarrow> peer_id list" where
  "merge_peers old_peers new_peers =
     fold (\<lambda>p merged. if p \<in> set merged then merged else merged @ [p]) new_peers old_peers"

definition set_members :: "peer_id list \<Rightarrow> peer_id list \<Rightarrow> 's raft_node \<Rightarrow> 's raft_node" where
  "set_members vs ls n = n\<lparr>n_config := (n_config n)\<lparr>cfg_peers := vs, cfg_learners := ls\<rparr>\<rparr>"

definition fresh_progress :: "'s raft_node \<Rightarrow> peer_progress" where
  "fresh_progress n = \<lparr>next_index = sat_add (fst (n_last_log n)) 1, match_index = 0\<rparr>"

definition stale_peers :: "'s raft_node \<Rightarrow> peer_id list" where
  "stale_peers n = filter (\<lambda>p. p \<notin> set (peers n) \<and> p \<notin> set (learners n)) (map fst (pm_iter (n_progress n)))"

definition insert_missing :: "'s raft_node \<Rightarrow> peer_id \<Rightarrow> peer_progress peer_map \<Rightarrow> peer_progress peer_map" where
  "insert_missing n p m =
    (if p = node_id n then m
     else if \<not> pm_contains_key p m then pm_insert p (fresh_progress n) m else m)"

definition reconcile_leader_progress_with_config :: "'s raft_node \<Rightarrow> 's raft_node" where
  "reconcile_leader_progress_with_config n =
    (let stale = stale_peers n;
         n1 = n\<lparr>n_progress := fold pm_remove stale (n_progress n),
                n_pending_snapshots := fold pm_remove stale (n_pending_snapshots n),
                n_voter_contact := fold pm_remove stale (n_voter_contact n)\<rparr>
     in n1\<lparr>n_progress := fold (insert_missing n1) (peers n1 @ learners n1) (n_progress n1)\<rparr>)"

definition config_members :: "config_change_entry \<Rightarrow> (unit, 's raft_node) raft_op" where
  "config_members entry n =
    (case cc_phase entry of
       Joint \<Rightarrow>
         let vs = merge_peers (cc_old_peers entry) (cc_new_peers entry) in
         (Inr (), (set_members vs (filter (\<lambda>p. p \<notin> set vs) (learners n)) n)
            \<lparr>n_joint_peers := Some (cc_old_peers entry, cc_new_peers entry)\<rparr>)
     | Final \<Rightarrow>
         if cc_new_peers entry = []
         then (Inl (InvalidConfig ''config-change Final phase with empty new_peers''), n)
         else let vs = cc_new_peers entry in
           (Inr (), (set_members vs (filter (\<lambda>p. p \<notin> set vs) (learners n)) n)\<lparr>n_joint_peers := None\<rparr>)
     | AddLearner \<Rightarrow>
         (Inr (), set_members (peers n)
            (fold (\<lambda>p ls. if p \<notin> set (peers n) \<and> p \<notin> set ls then ls @ [p] else ls)
               (cc_new_peers entry) (learners n)) n)
     | RemoveLearner \<Rightarrow>
         (Inr (), set_members (peers n) (filter (\<lambda>p. p \<notin> set (cc_new_peers entry)) (learners n)) n))"

definition apply_config_change :: "'s raft_env \<Rightarrow> config_change_entry \<Rightarrow> (unit, 's raft_node) raft_op" where
  "apply_config_change E entry n =
     bind_op (config_members entry (inc_config_changes_applied n)) (\<lambda>_ n.
       let n = (if is_leader n then reconcile_leader_progress_with_config n else n) in
       if is_leader n \<and> node_id n \<notin> set (peers n) then step_down E (node_term n) n
       else (Inr (), n))"

definition revert_joint_activation :: "peer_id list \<Rightarrow> 's raft_node \<Rightarrow> 's raft_node" where
  "revert_joint_activation old_peers n =
    (let n = (set_members old_peers (learners n) n)\<lparr>n_joint_peers := None\<rparr>
     in if is_leader n then reconcile_leader_progress_with_config n else n)"

definition revert_learner_activation :: "peer_id list \<Rightarrow> 's raft_node \<Rightarrow> 's raft_node" where
  "revert_learner_activation prev_learners n =
    (let n = set_members (peers n) prev_learners n
     in if is_leader n then reconcile_leader_progress_with_config n else n)"

definition apply_if_config_change :: "'s raft_env \<Rightarrow> bytes \<Rightarrow> (bool, 's raft_node) raft_op" where
  "apply_if_config_change E payload n =
    (if is_noop_entry payload then (Inr True, n)
     else case config_change_decode payload of
       Some entry \<Rightarrow> bind_op (apply_config_change E entry n) (\<lambda>_ n. (Inr True, n))
     | None \<Rightarrow> (Inr False, n))"

section \<open>The layout round-trips\<close>

lemma read_peers_concat:
  "read_peers (length ps) (concat (map (le_bytes 8) ps) @ rest) = ps"
  by (induction ps) simp_all

lemma length_concat_peers [simp]: "length (concat (map (le_bytes 8) (ps :: peer_id list))) = length ps * 8"
  by (induction ps) simp_all

lemma phase_of_byte [simp]: "phase_of_byte (phase_byte p) = Some p"
  by (cases p) (simp_all add: phase_of_byte_def)

lemma config_change_decode_encode:
  assumes "length (cc_old_peers e) < 2 ^ 32" and "length (cc_new_peers e) < 2 ^ 32"
  shows "config_change_decode (config_change_encode e @ rest) = Some e"
proof -
  let ?o = "cc_old_peers e" and ?n = "cc_new_peers e"
  let ?b = "config_change_encode e @ rest"
  have u: "unat (word_of_nat (length ?o) :: u32) = length ?o" "unat (word_of_nat (length ?n) :: u32) = length ?n"
    using assms by (simp_all add: unat_of_nat)
  have f: "le_word (fld 4 4 ?b) = (word_of_nat (length ?o) :: u32)"
      "le_word (fld 8 4 ?b) = (word_of_nat (length ?n) :: u32)"
    by (simp_all add: config_change_encode_def fld_def)
  have d: "drop 12 ?b = concat (map (le_bytes 8) ?o) @ concat (map (le_bytes 8) ?n) @ rest"
    by (simp add: config_change_encode_def)
  have "drop (12 + length ?o * 8) ?b = drop (length ?o * 8) (drop 12 ?b)"
    by (simp only: drop_drop add.commute)
  also have "\<dots> = concat (map (le_bytes 8) ?n) @ rest" unfolding d by simp
  finally have d2: "drop (12 + length ?o * 8) ?b = concat (map (le_bytes 8) ?n) @ rest" .
  have h: "?b ! 0 = CONFIG_CHANGE_MAGIC" "?b ! 1 = CONFIG_CHANGE_VERSION" "?b ! 2 = phase_byte (cc_phase e)"
      "length ?b = 12 + length ?o * 8 + length ?n * 8 + length rest"
    by (simp_all add: config_change_encode_def)
  show ?thesis
    unfolding config_change_decode_def h f by (simp add: read_peers_concat u d d2 Let_def del: drop_append)
qed

text \<open>
  (C23) A membership-change entry survives the log: decoding the bytes that the
  leader wrote yields the same phase, the same old and the same new voters, in
  order, and trailing bytes are ignored.  No such entry can be taken for the
  leader's no-op entry, and the no-op entry is not a membership change.
\<close>

theorem config_change_roundtrip:
  assumes "length (cc_old_peers e) < 2 ^ 32" and "length (cc_new_peers e) < 2 ^ 32"
  shows "config_change_decode (config_change_encode e @ rest) = Some e \<and>
    \<not> is_noop_entry (config_change_encode e) \<and> config_change_decode noop_entry = None"
proof -
  have "length (config_change_encode e) \<ge> 12" by (simp add: config_change_encode_def)
  then have "\<not> is_noop_entry (config_change_encode e)"
    by (auto simp: is_noop_entry_def noop_entry_def)
  moreover have "config_change_decode noop_entry = None"
    by (simp add: config_change_decode_def noop_entry_def)
  ultimately show ?thesis using config_change_decode_encode [OF assms] by simp
qed

theorem config_change_roundtrip_witness:
  "config_change_decode (config_change_encode
      \<lparr>cc_phase = Joint, cc_old_peers = [1, 2, 3], cc_new_peers = [1, 2, 4]\<rparr> @ [9]) =
   Some \<lparr>cc_phase = Joint, cc_old_peers = [1, 2, 3], cc_new_peers = [1, 2, 4]\<rparr>"
  using config_change_roundtrip [of "\<lparr>cc_phase = Joint, cc_old_peers = [1, 2, 3], cc_new_peers = [1, 2, 4]\<rparr>" "[9]"]
  by simp

section \<open>Members and progress\<close>

lemma merge_peers_props:
  assumes "distinct vs"
  shows "distinct (merge_peers vs ws)" and "set (merge_peers vs ws) = set vs \<union> set ws"
proof -
  have "distinct (merge_peers vs ws) \<and> set (merge_peers vs ws) = set vs \<union> set ws"
    using assms unfolding merge_peers_def by (induction ws arbitrary: vs) auto
  then show "distinct (merge_peers vs ws)" and "set (merge_peers vs ws) = set vs \<union> set ws" by auto
qed

lemma add_learners_props:
  assumes "distinct ls" and "set ls \<inter> V = {}"
  shows "distinct (fold (\<lambda>p ls. if p \<notin> V \<and> p \<notin> set ls then ls @ [p] else ls) ps ls) \<and>
    set (fold (\<lambda>p ls. if p \<notin> V \<and> p \<notin> set ls then ls @ [p] else ls) ps ls) = set ls \<union> (set ps - V)"
  using assms by (induction ps arbitrary: ls) auto

text \<open>Voters are non-empty and duplicate-free, learners duplicate-free and no voters.\<close>

definition members_ok :: "'s raft_node \<Rightarrow> bool" where
  "members_ok n \<longleftrightarrow> peers n \<noteq> [] \<and> distinct (peers n) \<and> distinct (learners n) \<and>
     set (peers n) \<inter> set (learners n) = {}"

definition entry_ok :: "config_change_entry \<Rightarrow> bool" where
  "entry_ok e \<longleftrightarrow> distinct (cc_old_peers e) \<and> distinct (cc_new_peers e) \<and>
     (cc_phase e = Joint \<longrightarrow> cc_old_peers e \<noteq> [])"

lemma inc_config_changes_fields [simp]:
  "n_config (inc_config_changes_applied n) = n_config n"
  "n_storage (inc_config_changes_applied n) = n_storage n"
  "n_hard (inc_config_changes_applied n) = n_hard n"
  "n_soft (inc_config_changes_applied n) = n_soft n"
  "n_progress (inc_config_changes_applied n) = n_progress n"
  "n_joint_peers (inc_config_changes_applied n) = n_joint_peers n"
  "n_log_metadata (inc_config_changes_applied n) = n_log_metadata n"
  "n_last_log (inc_config_changes_applied n) = n_last_log n"
  "n_outbox (inc_config_changes_applied n) = n_outbox n"
  "n_commit_index_pub (inc_config_changes_applied n) = n_commit_index_pub n"
  "is_leader (inc_config_changes_applied n) = is_leader n"
  by (simp_all add: inc_config_changes_applied_def is_leader_def)

lemma set_members_fields [simp]:
  "n_storage (set_members vs ls n) = n_storage n"
  "n_hard (set_members vs ls n) = n_hard n"
  "n_soft (set_members vs ls n) = n_soft n"
  "n_progress (set_members vs ls n) = n_progress n"
  "n_joint_peers (set_members vs ls n) = n_joint_peers n"
  "n_log_metadata (set_members vs ls n) = n_log_metadata n"
  "n_last_log (set_members vs ls n) = n_last_log n"
  "n_outbox (set_members vs ls n) = n_outbox n"
  "n_commit_index_pub (set_members vs ls n) = n_commit_index_pub n"
  "peers (set_members vs ls n) = vs"
  "learners (set_members vs ls n) = ls"
  "node_id (set_members vs ls n) = node_id n"
  "is_leader (set_members vs ls n) = is_leader n"
  by (simp_all add: set_members_def is_leader_def)

lemma reconcile_fields [simp]:
  "n_config (reconcile_leader_progress_with_config n) = n_config n"
  "n_storage (reconcile_leader_progress_with_config n) = n_storage n"
  "n_hard (reconcile_leader_progress_with_config n) = n_hard n"
  "n_soft (reconcile_leader_progress_with_config n) = n_soft n"
  "n_joint_peers (reconcile_leader_progress_with_config n) = n_joint_peers n"
  "n_log_metadata (reconcile_leader_progress_with_config n) = n_log_metadata n"
  "n_last_log (reconcile_leader_progress_with_config n) = n_last_log n"
  "n_outbox (reconcile_leader_progress_with_config n) = n_outbox n"
  "n_commit_index_pub (reconcile_leader_progress_with_config n) = n_commit_index_pub n"
  "is_leader (reconcile_leader_progress_with_config n) = is_leader n"
  by (simp_all add: reconcile_leader_progress_with_config_def is_leader_def Let_def)

lemma config_members_fields [simp]:
  "n_storage (snd (config_members e n)) = n_storage n"
  "n_hard (snd (config_members e n)) = n_hard n"
  "n_soft (snd (config_members e n)) = n_soft n"
  "n_progress (snd (config_members e n)) = n_progress n"
  "n_log_metadata (snd (config_members e n)) = n_log_metadata n"
  "n_last_log (snd (config_members e n)) = n_last_log n"
  "n_outbox (snd (config_members e n)) = n_outbox n"
  "n_commit_index_pub (snd (config_members e n)) = n_commit_index_pub n"
  "node_id (snd (config_members e n)) = node_id n"
  by (simp_all add: config_members_def Let_def split: config_change_phase.splits)

lemma config_members_ok:
  assumes "members_ok n" and "entry_ok e"
  shows "members_ok (snd (config_members e n))"
proof (cases "cc_phase e")
  case Joint
  then have "distinct (cc_old_peers e)" "cc_old_peers e \<noteq> []" using assms(2) by (auto simp: entry_ok_def)
  note m = merge_peers_props [OF this(1), of "cc_new_peers e"]
  have "merge_peers (cc_old_peers e) (cc_new_peers e) \<noteq> []"
    using m(2) \<open>cc_old_peers e \<noteq> []\<close> by (metis set_empty sup_eq_bot_iff)
  then show ?thesis
    using assms m Joint by (auto simp: members_ok_def config_members_def Let_def)
next
  case AddLearner
  then show ?thesis
    using assms(1) add_learners_props [of "learners n" "set (peers n)" "cc_new_peers e"]
    by (auto simp: members_ok_def config_members_def)
qed (use assms in \<open>auto simp: members_ok_def entry_ok_def config_members_def Let_def\<close>)

lemma insert_missing_fold:
  assumes "pm_ok m"
  shows "pm_ok (fold (insert_missing n) ps m)"
    and "pm_get k (fold (insert_missing n) ps m) =
      (if pm_get k m = None \<and> k \<in> set ps \<and> k \<noteq> node_id n then Some (fresh_progress n) else pm_get k m)"
proof -
  have "pm_ok (fold (insert_missing n) ps m) \<and> pm_get k (fold (insert_missing n) ps m) =
      (if pm_get k m = None \<and> k \<in> set ps \<and> k \<noteq> node_id n then Some (fresh_progress n) else pm_get k m)"
    using assms
  proof (induction ps arbitrary: m)
    case (Cons p ps)
    have "pm_ok (insert_missing n p m)" using Cons.prems by (simp add: insert_missing_def)
    from Cons.IH [OF this] show ?case
      by (auto simp: insert_missing_def pm_contains_key_get)
  qed simp
  then show "pm_ok (fold (insert_missing n) ps m)"
    and "pm_get k (fold (insert_missing n) ps m) =
      (if pm_get k m = None \<and> k \<in> set ps \<and> k \<noteq> node_id n then Some (fresh_progress n) else pm_get k m)"
    by auto
qed

lemma fresh_progress_cong:
  "fresh_progress (n\<lparr>n_progress := a, n_pending_snapshots := b, n_voter_contact := c\<rparr>) = fresh_progress n"
  by (simp add: fresh_progress_def)

lemma reconcile_progress:
  assumes "pm_ok (n_progress n)"
  shows "pm_ok (n_progress (reconcile_leader_progress_with_config n))"
    and "pm_get k (n_progress (reconcile_leader_progress_with_config n)) =
      (if k \<notin> set (peers n) \<and> k \<notin> set (learners n) then None
       else if pm_get k (n_progress n) = None \<and> k \<noteq> node_id n then Some (fresh_progress n)
       else pm_get k (n_progress n))"
proof -
  let ?n1 = "n\<lparr>n_progress := fold pm_remove (stale_peers n) (n_progress n),
     n_pending_snapshots := fold pm_remove (stale_peers n) (n_pending_snapshots n),
     n_voter_contact := fold pm_remove (stale_peers n) (n_voter_contact n)\<rparr>"
  note d = pm.drop_props [OF assms, where ks = "stale_peers n"]
  note i = insert_missing_fold [OF d(1), where n = ?n1 and ps = "peers n @ learners n"]
  show "pm_ok (n_progress (reconcile_leader_progress_with_config n))"
    using i(1) by (simp add: reconcile_leader_progress_with_config_def Let_def)
  have stale: "k \<in> set (stale_peers n) \<longleftrightarrow>
      pm_get k (n_progress n) \<noteq> None \<and> k \<notin> set (peers n) \<and> k \<notin> set (learners n)"
    using pm.keys_lookup [OF assms, of k] by (auto simp: stale_peers_def pm_keys_def)
  show "pm_get k (n_progress (reconcile_leader_progress_with_config n)) =
      (if k \<notin> set (peers n) \<and> k \<notin> set (learners n) then None
       else if pm_get k (n_progress n) = None \<and> k \<noteq> node_id n then Some (fresh_progress n)
       else pm_get k (n_progress n))"
    using i(2) [where k = k] d(2) [where k = k] stale
    by (auto simp: reconcile_leader_progress_with_config_def Let_def fresh_progress_cong)
qed

lemma apply_config_change_members:
  assumes "members_ok n" and "entry_ok e"
  shows "members_ok (snd (apply_config_change E e n))"
proof -
  have "members_ok (inc_config_changes_applied n)" using assms(1) by (simp add: members_ok_def)
  note ok = config_members_ok [OF this assms(2)]
  show ?thesis
    unfolding apply_config_change_def
    by (rule bind_op_snd) (use ok in \<open>auto simp: members_ok_def Let_def\<close>)
qed

lemma apply_config_change_progress:
  assumes "pm_ok (n_progress n)" and "pm_get (node_id n) (n_progress n) = None"
    and "apply_config_change E e n = (Inr (), n')" and "is_leader n'"
  shows "node_id n' \<in> set (peers n')"
    and "pm_get p (n_progress n') = (if p \<in> set (peers n' @ learners n') \<and> p \<noteq> node_id n'
      then Some (case pm_get p (n_progress n) of Some q \<Rightarrow> q | None \<Rightarrow> fresh_progress n) else None)"
proof -
  obtain m where m: "config_members e (inc_config_changes_applied n) = (Inr (), m)"
    and rest: "(let n = (if is_leader m then reconcile_leader_progress_with_config m else m) in
       if is_leader n \<and> node_id n \<notin> set (peers n) then step_down E (node_term n) n
       else (Inr (), n)) = (Inr (), n')"
    using assms(3) by (auto simp: apply_config_change_def bind_op_ok_iff)
  have frame: "n_soft m = n_soft n" "n_progress m = n_progress n" "node_id m = node_id n" "n_last_log m = n_last_log n"
    using config_members_fields [of e "inc_config_changes_applied n"] m by auto
  have n': "is_leader m" "n' = reconcile_leader_progress_with_config m" "node_id m \<in> set (peers m)"
    using rest assms(4) by (auto simp: Let_def is_leader_def dest: step_down_role split: if_splits)
  show "node_id n' \<in> set (peers n')" using n' by simp
  have "fresh_progress m = fresh_progress n" using frame by (simp add: fresh_progress_def)
  then show "pm_get p (n_progress n') = (if p \<in> set (peers n' @ learners n') \<and> p \<noteq> node_id n'
      then Some (case pm_get p (n_progress n) of Some q \<Rightarrow> q | None \<Rightarrow> fresh_progress n) else None)"
    using reconcile_progress(2) [of m p] assms(1,2) frame n'
    by (auto split: option.splits)
qed



end
