(* ===== verification/Raft_Replication.thy ===== *)
theory Raft_Replication
  imports Raft_Membership
begin

text \<open>
  Log replication, \<open>src/api/node/replication/handler.rs\<close> and \<open>shared.rs\<close>: the
  follower's handling of an append in its contiguous and its zero-copy form,
  the leader's handling of the answers, the append sent to one peer, the
  initialisation of the progress table, the term lookup and the commit rule.
  The properties are in the theories
  \<open>Commit_Props\<close> and \<open>Append_Props\<close>.
\<close>

section \<open>Reading terms\<close>

text \<open>The term of a local entry: the ring first, then the storage.\<close>

definition local_term_at :: "'s raft_env \<Rightarrow> log_index \<Rightarrow> (raft_term option, 's raft_node) raft_op" where
  "local_term_at E index n =
    (case arena_get_term (n_log_metadata n) index of
       Some t \<Rightarrow> (Inr (Some t), n)
     | None \<Rightarrow> with_storage (so_term_at (e_store E) index) n)"

definition term_at :: "'s raft_env \<Rightarrow> log_index \<Rightarrow> (raft_term, 's raft_node) raft_op" where
  "term_at E index n =
    (if index = 0 then (Inr 0, n)
     else if index = fst (n_last_log n) then (Inr (snd (n_last_log n)), n)
     else case arena_get_term (n_log_metadata n) index of
       Some t \<Rightarrow> (Inr t, n)
     | None \<Rightarrow>
         if index = fst (n_snapshot_boundary n) then (Inr (snd (n_snapshot_boundary n)), n)
         else bind_op (with_storage (so_term_at (e_store E) index) n) (\<lambda>r n.
           case r of
             None \<Rightarrow> (Inl (CorruptLog (''missing term at index '' @ show_u64 index)), n)
           | Some t \<Rightarrow> (Inr t, n\<lparr>n_log_metadata := arena_append index t (n_log_metadata n)\<rparr>)))"

section \<open>The follower\<close>

definition probe_echo_pad :: "append_entries \<Rightarrow> bytes" where
  "probe_echo_pad msg = le_bytes 4 (ae_pad msg) @ [0, 0, 0]"

text \<open>
  The scan of the incoming entries against the local log.  The result is the
  offset of the first entry to append; \<open>None\<close> when every entry is present.
\<close>

fun scan_incoming :: "'s raft_env \<Rightarrow> string \<Rightarrow> log_index \<Rightarrow> nat \<Rightarrow> (log_index \<times> raft_term) list \<Rightarrow>
    (nat option, 's raft_node) raft_op" where
  "scan_incoming E err start idx [] n = (Inr None, n)"
| "scan_incoming E err start idx ((index, trm) # rest) n =
    (if index \<noteq> sat_add start (u64_of idx) then (Inl (Protocol err), n)
     else bind_op (local_term_at E index n) (\<lambda>local n.
       case local of
         Some t \<Rightarrow>
           if t = trm then scan_incoming E err start (idx + 1) rest n
           else bind_op (storage_truncate E index n) (\<lambda>_ n. (Inr (Some idx), n))
       | None \<Rightarrow> (Inr (Some idx), n)))"

fun find_map :: "('a \<Rightarrow> 'b option) \<Rightarrow> 'a list \<Rightarrow> 'b option" where
  "find_map f [] = None"
| "find_map f (x # xs) = (case f x of Some y \<Rightarrow> Some y | None \<Rightarrow> find_map f xs)"

definition arena_append_all :: "(log_index \<times> raft_term) list \<Rightarrow> log_metadata_arena \<Rightarrow> log_metadata_arena" where
  "arena_append_all es a = fold (\<lambda>(i, t). arena_append i t) es a"

definition set_last_from :: "(log_index \<times> raft_term) list \<Rightarrow> 's raft_node \<Rightarrow> 's raft_node" where
  "set_last_from es n = (if es = [] then n else n\<lparr>n_last_log := last es\<rparr>)"

abbreviation entry_pos :: "log_entry \<Rightarrow> log_index \<times> raft_term" where
  "entry_pos e \<equiv> (entry_index e, entry_term e)"

text \<open>Adopting the latest membership change among the entries just appended.\<close>

definition activate_latest_config :: "'s raft_env \<Rightarrow> bytes list \<Rightarrow> (unit, 's raft_node) raft_op" where
  "activate_latest_config E payloads n =
    (case find_map config_change_decode (rev payloads) of
       Some entry \<Rightarrow> apply_config_change E entry n
     | None \<Rightarrow> (Inr (), n))"

definition apply_append_entries :: "'s raft_env \<Rightarrow> append_entries \<Rightarrow> bytes \<Rightarrow> (unit, 's raft_node) raft_op" where
  "apply_append_entries E msg payload n =
    (let entry_count = unat (ae_entry_count msg);
         incoming = append_entries_iter entry_count payload;
         start = sat_add (ae_prev_log_index msg) 1 in
     bind_op (scan_incoming E ''AppendEntries entries not contiguous with prev_log_index'' start 0
        (map entry_pos incoming) n) (\<lambda>found n.
       let append_from = (case found of None \<Rightarrow> entry_count | Some k \<Rightarrow> k) in
       if append_from < entry_count then
         let entries = drop append_from incoming in
         bind_op (with_storage (so_append_entries (e_store E) entries) n) (\<lambda>_ n.
           let n = n\<lparr>n_log_metadata := arena_append_all (map entry_pos entries) (n_log_metadata n)\<rparr>;
               n = set_last_from (map entry_pos entries) n in
           activate_latest_config E (map entry_payload entries) n)
       else (Inr (), n)))"

abbreviation header_pos :: "entry_header \<Rightarrow> log_index \<times> raft_term" where
  "header_pos h \<equiv> (eh_index h, eh_term h)"

definition headers_of :: "bytes \<Rightarrow> entry_header list" where
  "headers_of hs = map (\<lambda>i. dec_entry_header (fld (i * 24) 24 hs)) [0..<length hs div 24]"

definition apply_append_entries_seeded ::
    "'s raft_env \<Rightarrow> append_entries \<Rightarrow> bytes \<Rightarrow> bytes \<Rightarrow> (unit, 's raft_node) raft_op" where
  "apply_append_entries_seeded E msg headers_bytes payloads n =
    (let entry_count = unat (ae_entry_count msg);
         incoming = append_entries_raw_iter headers_bytes (Contiguous payloads) 0 0;
         start = sat_add (ae_prev_log_index msg) 1 in
     bind_op (scan_incoming E ''seeded AppendEntries entries not contiguous with prev_log_index'' start 0
        (map (header_pos \<circ> fst) incoming) n) (\<lambda>found n.
       let append_from = (case found of None \<Rightarrow> entry_count | Some k \<Rightarrow> k) in
       if append_from < entry_count then
         if length headers_bytes mod 24 \<noteq> 0 then (Inl (Protocol ''header alignment in seeded batch''), n)
         else
           let final_headers = drop append_from (headers_of headers_bytes);
               payload_refs = map snd (drop append_from incoming) in
           bind_op (with_storage (so_append_entries_seeded (e_store E) final_headers payload_refs) n) (\<lambda>_ n.
             let n = n\<lparr>n_log_metadata := arena_append_all (map header_pos final_headers) (n_log_metadata n)\<rparr>;
                 n = set_last_from (map header_pos final_headers) n in
             activate_latest_config E payload_refs n)
       else (Inr (), n)))"

text \<open>The consistency check on the entry before the batch.\<close>

definition check_prev :: "'s raft_env \<Rightarrow> log_index \<Rightarrow> raft_term \<Rightarrow> (bool, 's raft_node) raft_op" where
  "check_prev E prev_idx prev_term n =
    (case arena_get_term (n_log_metadata n) prev_idx of
       Some t \<Rightarrow> (Inr (t = prev_term), n)
     | None \<Rightarrow>
         if prev_idx = 0 then (Inr True, n)
         else bind_op (with_storage (so_term_at (e_store E) prev_idx) n) (\<lambda>r n.
           (Inr (case r of Some t \<Rightarrow> t = prev_term
                 | None \<Rightarrow> fst (n_last_log n) = prev_idx \<and> snd (n_last_log n) = prev_term), n)))"

definition append_resp :: "append_entries \<Rightarrow> 's raft_node \<Rightarrow> bool \<Rightarrow> log_index \<Rightarrow> raft_message" where
  "append_resp msg n ok index = AppendEntriesResp \<lparr>aer_term = node_term n, aer_match_index = index,
     aer_success = (if ok then 1 else 0), aer_pad = probe_echo_pad msg\<rparr>"

definition follow :: "'s raft_env \<Rightarrow> peer_id \<Rightarrow> 's raft_node \<Rightarrow> 's raft_node" where
  "follow E leader n =
     n\<lparr>n_soft := (n_soft n)\<lparr>soft_role := Follower, soft_is_leader := False, leader_id := Some leader\<rparr>,
       n_leader_contact := Some (e_now E)\<rparr>"

text \<open>
  The handler of an append; \<open>apply_batch\<close> is the part that stores the entries,
  which differs between the two wire forms.
\<close>

definition append_handler :: "'s raft_env \<Rightarrow> peer_id \<Rightarrow> append_entries \<Rightarrow> (unit, 's raft_node) raft_op \<Rightarrow>
    (unit, 's raft_node) raft_op" where
  "append_handler E from msg apply_batch n =
    (if ae_term msg < node_term n
     then (Inr (), snd (send_message E from (append_resp msg n False (fst (n_last_log n))) n))
     else bind_op (if ae_term msg > node_term n then step_down E (ae_term msg) n else (Inr (), n)) (\<lambda>_ n.
       let n = follow E (ae_leader_id msg) n in
       bind_op (check_prev E (ae_prev_log_index msg) (ae_prev_log_term msg) n) (\<lambda>prev_ok n.
         if \<not> prev_ok
         then let hint = min (fst (n_last_log n)) (sat_sub (ae_prev_log_index msg) 1) in
           (Inr (), snd (send_message E from (append_resp msg n False hint) n))
         else bind_op (apply_batch n) (\<lambda>_ n.
           let last_log_index = fst (n_last_log n);
               n = (if ae_leader_commit msg > commit_index n
                    then set_commit_index (min (ae_leader_commit msg) last_log_index) n else n) in
           (Inr (), snd (send_message E from (append_resp msg n True last_log_index) n))))))"

definition handle_append_entries ::
    "'s raft_env \<Rightarrow> peer_id \<Rightarrow> append_entries \<Rightarrow> bytes \<Rightarrow> (unit, 's raft_node) raft_op" where
  "handle_append_entries E from msg payload n = append_handler E from msg (apply_append_entries E msg payload) n"

definition handle_append_entries_seeded ::
    "'s raft_env \<Rightarrow> peer_id \<Rightarrow> append_entries \<Rightarrow> bytes \<Rightarrow> bytes \<Rightarrow> (unit, 's raft_node) raft_op" where
  "handle_append_entries_seeded E from msg headers payloads n =
     append_handler E from msg (apply_append_entries_seeded E msg headers payloads) n"

section \<open>The leader's view of its peers\<close>

definition initialize_leader_progress :: "'s raft_env \<Rightarrow> 's raft_node \<Rightarrow> 's raft_node" where
  "initialize_leader_progress E n =
    (let voters = filter (\<lambda>p. p \<noteq> node_id n) (peers n);
         others = filter (\<lambda>p. p \<noteq> node_id n) (learners n);
         fresh = \<lparr>next_index = sat_add (fst (n_last_log n)) 1, match_index = 0\<rparr>
     in n\<lparr>n_progress := fold (\<lambda>p. pm_insert p fresh) others (fold (\<lambda>p. pm_insert p fresh) voters pm_empty),
          n_voter_contact := fold (\<lambda>p. pm_insert p (e_now E)) voters pm_empty\<rparr>)"

definition ensure_leader_progress_initialized :: "'s raft_env \<Rightarrow> 's raft_node \<Rightarrow> 's raft_node" where
  "ensure_leader_progress_initialized E n =
    (if pm_is_empty (n_progress n) then initialize_leader_progress E n else n)"

text \<open>The walk-back of \<open>next_index\<close> after a rejection, capped at the end of the leader's log.\<close>

definition walk_back :: "log_index \<Rightarrow> log_index \<Rightarrow> log_index \<Rightarrow> log_index" where
  "walk_back cap hint next = min (max (max (sat_sub next 1) (sat_add hint 1)) 1) cap"

definition on_success :: "log_index \<Rightarrow> log_index \<Rightarrow> peer_progress \<Rightarrow> peer_progress" where
  "on_success cap m p =
    (let p = (if m > match_index p then p\<lparr>match_index := m\<rparr> else p);
         next = min (sat_add m 1) cap
     in if next > next_index p then p\<lparr>next_index := next\<rparr> else p)"

definition handle_append_entries_response :: "'s raft_env \<Rightarrow> peer_id \<Rightarrow> append_entries_resp \<Rightarrow>
    (unit, 's raft_node) raft_op" where
  "handle_append_entries_response E from resp n =
    (if aer_term resp > node_term n then bind_op (step_down E (aer_term resp) n) (\<lambda>_ n. (Inr (), n))
     else if \<not> is_leader n then (Inr (), n)
     else let cap = sat_add (fst (n_last_log n)) 1 in
       case pm_get from (n_progress n) of
         None \<Rightarrow> (Inr (), n)
       | Some p \<Rightarrow>
           if aer_success resp \<noteq> 0
           then (Inr (), n\<lparr>n_progress := pm_modify from (on_success cap (aer_match_index resp)) (n_progress n)\<rparr>)
           else if aer_match_index resp \<ge> match_index p
           then (Inr (), n\<lparr>n_progress := pm_modify from (\<lambda>p. p\<lparr>next_index :=
                  walk_back cap (aer_match_index resp) (next_index p)\<rparr>) (n_progress n)\<rparr>)
           else (Inr (), n))"

definition append_prev_for_peer :: "'s raft_env \<Rightarrow> peer_id \<Rightarrow>
    (log_index \<times> raft_term \<times> log_index, 's raft_node) raft_op" where
  "append_prev_for_peer E peer n =
    (case pm_get peer (n_progress n) of
       None \<Rightarrow> (Inl (PeerUnknown peer), n)
     | Some p \<Rightarrow>
         let prev = sat_sub (next_index p) 1 in
         bind_op (term_at E prev n) (\<lambda>t n. (Inr (prev, t, next_index p), n)))"

definition SCRATCH_PAYLOAD_LEN :: nat where
  "SCRATCH_PAYLOAD_LEN = 16 * 1024 * 1024"

text \<open>An append built from the leader's state.\<close>

definition append_request :: "'s raft_node \<Rightarrow> log_index \<Rightarrow> raft_term \<Rightarrow> nat \<Rightarrow> append_entries" where
  "append_request n prev_idx prev_term cnt = \<lparr>ae_term = node_term n, ae_leader_id = node_id n,
     ae_prev_log_index = prev_idx, ae_prev_log_term = prev_term, ae_leader_commit = commit_index n,
     ae_entry_count = word_of_nat cnt, ae_pad = n_read_probe_seq n\<rparr>"

definition send_option :: "'s raft_env \<Rightarrow> peer_id \<Rightarrow> raft_message \<Rightarrow> log_index \<Rightarrow>
    (log_index option, 's raft_node) raft_op" where
  "send_option E peer msg last_idx n =
    (case send_message E peer msg n of (sent, n) \<Rightarrow> (Inr (if sent then Some last_idx else None), n))"

text \<open>The read through \<open>read_entries\<close>, when the storage serves no header block.\<close>

definition send_append_ergonomic :: "'s raft_env \<Rightarrow> peer_id \<Rightarrow> log_index \<Rightarrow> raft_term \<Rightarrow> log_index \<Rightarrow>
    (log_index option, 's raft_node) raft_op" where
  "send_append_ergonomic E peer prev_idx prev_term next n =
     bind_op (with_storage (so_read_entries (e_store E) next (- 1) SCRATCH_PAYLOAD_LEN) n) (\<lambda>read n.
       let entries = take (max (append_batch_entries (cfg_limits (n_config n))) 1) read;
           last_idx = (if entries = [] then prev_idx else entry_index (last entries)) in
       send_option E peer (AppendEntriesVectored (append_request n prev_idx prev_term (length entries)) entries)
         last_idx n)"

definition send_append_attempt :: "'s raft_env \<Rightarrow> peer_id \<Rightarrow> (log_index option, 's raft_node) raft_op" where
  "send_append_attempt E peer n =
     bind_op (append_prev_for_peer E peer n) (\<lambda>(prev_idx, prev_term, next) n.
       case with_storage (so_read_entry_headers (e_store E) next (- 1)) n of
         (Inr (Some (h # hs)), n) \<Rightarrow>
           let headers = take (max (append_batch_entries (cfg_limits (n_config n))) 1) (h # hs);
               last_idx = eh_index (last headers);
               to_idx = next + u64_of (length headers) - 1 in
           bind_op (with_storage (so_for_each_payload (e_store E) next to_idx) n) (\<lambda>payloads n.
             send_option E peer (AppendEntriesSeededVectored
                 (append_request n prev_idx prev_term (length headers))
                 (concat (map enc_entry_header headers)) payloads) last_idx n)
       | (_, n) \<Rightarrow> send_append_ergonomic E peer prev_idx prev_term next n)"

definition advance_append_replication :: "'s raft_env \<Rightarrow> peer_id \<Rightarrow> log_index \<Rightarrow> append_attempt_state \<Rightarrow>
    append_entries_resp \<Rightarrow> (append_advance, 's raft_node) raft_op" where
  "advance_append_replication E peer target_index st resp n =
    (if aer_term resp > node_term n
     then bind_op (step_down E (aer_term resp) n) (\<lambda>_ n. (Inl (TermChanged (node_term n)), n))
     else let cap = sat_add (fst (n_last_log n)) 1;
              retry = (\<lambda>n. let next_attempt = attempts st + 1 in
                bind_op (send_append_attempt E peer n) (\<lambda>sent n.
                  (Inr (case sent of Some i \<Rightarrow> Retry \<lparr>attempts = next_attempt, sent_last_index = i\<rparr>
                        | None \<Rightarrow> Dropped), n))) in
       case pm_get peer (n_progress n) of
         None \<Rightarrow> (Inl (PeerUnknown peer), n)
       | Some p \<Rightarrow>
           if aer_success resp \<noteq> 0 then
             if aer_match_index resp < sent_last_index st then (Inr Ignored, n)
             else let n = n\<lparr>n_progress := pm_modify peer (\<lambda>p. p\<lparr>match_index := aer_match_index resp,
                        next_index := min (sat_add (aer_match_index resp) 1) cap\<rparr>) (n_progress n)\<rparr> in
               if aer_match_index resp \<ge> target_index then (Inr Completed, n) else retry n
           else if aer_match_index resp < match_index p then (Inr Ignored, n)
           else retry (n\<lparr>n_progress := pm_modify peer (\<lambda>p. p\<lparr>next_index :=
                  walk_back cap (aer_match_index resp) (next_index p)\<rparr>) (n_progress n)\<rparr>))"

section \<open>The commit rule\<close>

definition acked_index :: "peer_progress peer_map \<Rightarrow> peer_id \<Rightarrow> log_index \<Rightarrow> peer_id \<Rightarrow> log_index" where
  "acked_index progress self last_index p =
    (if p = self then last_index
     else case pm_get p progress of Some q \<Rightarrow> match_index q | None \<Rightarrow> 0)"

definition subset_quorum_index :: "peer_progress peer_map \<Rightarrow> peer_id \<Rightarrow> peer_id list \<Rightarrow> log_index \<Rightarrow> log_index option" where
  "subset_quorum_index progress self side last_index =
    (if side = [] then None
     else let acks = rev (sort (map (acked_index progress self last_index) side));
              i = quorum (length side) - 1
       in if i < length acks then Some (acks ! i) else None)"

definition quorum_reaches :: "'s raft_node \<Rightarrow> peer_id list \<Rightarrow> log_index \<Rightarrow> bool" where
  "quorum_reaches n side index =
    (case subset_quorum_index (n_progress n) (node_id n) side (fst (n_last_log n)) of
       Some q \<Rightarrow> q \<ge> index | None \<Rightarrow> False)"

definition index_meets_commit_quorum :: "'s raft_node \<Rightarrow> log_index \<Rightarrow> bool" where
  "index_meets_commit_quorum n index =
    (case n_joint_peers n of
       Some (old_peers, new_peers) \<Rightarrow> quorum_reaches n old_peers index \<and> quorum_reaches n new_peers index
     | None \<Rightarrow> quorum_reaches n (peers n) index)"

definition propose_commit_reached :: "'s raft_node \<Rightarrow> nat \<Rightarrow> nat \<Rightarrow> log_index \<Rightarrow> bool" where
  "propose_commit_reached n needed accepted last_index =
    (if n_joint_peers n \<noteq> None then index_meets_commit_quorum n last_index else accepted \<ge> needed)"

text \<open>The index a quorum of the effective configuration has acknowledged.\<close>

definition effective_quorum_index :: "'s raft_node \<Rightarrow> log_index option" where
  "effective_quorum_index n =
    (let q = (\<lambda>side. subset_quorum_index (n_progress n) (node_id n) side (fst (n_last_log n))) in
     case n_joint_peers n of
       Some (old_peers, new_peers) \<Rightarrow>
         (case q old_peers of None \<Rightarrow> None | Some old_q \<Rightarrow>
            (case q new_peers of None \<Rightarrow> None | Some new_q \<Rightarrow> Some (min old_q new_q)))
     | None \<Rightarrow> q (peers n))"

definition quorum_term :: "'s raft_env \<Rightarrow> log_index \<Rightarrow> (raft_term, 's raft_node) raft_op" where
  "quorum_term E index n =
    (if index = fst (n_last_log n) then (Inr (snd (n_last_log n)), n)
     else case arena_get_term (n_log_metadata n) index of
       Some t \<Rightarrow> (Inr t, n)
     | None \<Rightarrow> bind_op (with_storage (so_term_at (e_store E) index) n) (\<lambda>r n.
         let t = (case r of Some t \<Rightarrow> t | None \<Rightarrow> 0) in
         (Inr t, if t > 0 then n\<lparr>n_log_metadata := arena_append index t (n_log_metadata n)\<rparr> else n)))"

definition try_advance_commit_index :: "'s raft_env \<Rightarrow> (unit, 's raft_node) raft_op" where
  "try_advance_commit_index E n =
    (if length (peers n) > 1 \<and> pm_is_empty (n_progress n) then (Inr (), n)
     else if fst (n_last_log n) \<le> commit_index n then (Inr (), n)
     else case effective_quorum_index n of
       None \<Rightarrow> (Inr (), n)
     | Some quorum_index \<Rightarrow>
         if quorum_index \<le> commit_index n then (Inr (), n)
         else bind_op (quorum_term E quorum_index n) (\<lambda>t n.
           (Inr (), if t = node_term n then set_commit_index quorum_index n else n)))"

end
