(* ===== verification/Commit_Props.thy ===== *)
theory Commit_Props
  imports Raft_Replication
begin

text \<open>
  The commit rule and the leader's progress table.  The index that the sort
  selects is characterised as the highest one that a majority acknowledged;
  the commit index is shown to advance only onto an entry of the leader's term
  that a majority of every active voter set acknowledged; and the responses of
  the peers are shown to keep every \<open>next_index\<close> inside the leader's log.
\<close>

section \<open>The quorum index\<close>

lemma sorted_nth_ge:
  fixes xs :: "'a::linorder list"
  assumes "sorted xs" and "j < length xs"
  shows "i \<le> xs ! j \<longleftrightarrow> length (filter (\<lambda>x. x < i) xs) \<le> j"
  using assms
proof (induction xs arbitrary: j)
  case (Cons x xs)
  show ?case
  proof (cases "x < i")
    case True
    then show ?thesis using Cons by (cases j) auto
  next
    case False
    then have "filter (\<lambda>x. x < i) (x # xs) = []"
      using Cons.prems by (auto simp: filter_empty_conv)
    moreover have "i \<le> (x # xs) ! j"
      using Cons.prems False by (cases j) (auto simp: not_less intro: order_trans [of i x])
    ultimately show ?thesis by simp
  qed
qed simp

lemma descending_nth_ge:
  fixes xs :: "'a::linorder list"
  assumes "k < length xs"
  shows "i \<le> rev (sort xs) ! k \<longleftrightarrow> k < length (filter (\<lambda>x. i \<le> x) xs)"
proof -
  let ?j = "length xs - Suc k"
  have j: "?j < length (sort xs)" "rev (sort xs) ! k = sort xs ! ?j"
    using assms by (auto simp: rev_nth)
  have "length (filter (\<lambda>x. x < i) (sort xs)) = length (filter (\<lambda>x. x < i) xs)"
    by (metis mset_filter mset_sort size_mset)
  moreover have "length (filter (\<lambda>x. x < i) xs) + length (filter (\<lambda>x. i \<le> x) xs) = length xs"
    using sum_length_filter_compl [of "\<lambda>x. x < i" xs] by (simp add: not_less)
  ultimately show ?thesis
    using sorted_nth_ge [OF sorted_sort j(1), of i] j(2) assms by auto
qed

lemma quorum_le: "0 < k \<Longrightarrow> quorum k \<le> k"
  by (simp add: quorum_def)

lemma subset_quorum_index_Some:
  assumes "side \<noteq> []"
  shows "\<exists>q. subset_quorum_index progress self side last_index = Some q \<and>
    (\<forall>i. i \<le> q \<longleftrightarrow>
      quorum (length side) \<le> length (filter (\<lambda>p. i \<le> acked_index progress self last_index p) side))"
proof -
  let ?xs = "map (acked_index progress self last_index) side"
  let ?k = "quorum (length side) - 1"
  have k: "?k < length ?xs" "0 < quorum (length side)"
    using assms quorum_le [of "length side"] by (auto simp: quorum_def)
  have f: "length (filter (\<lambda>x. i \<le> x) ?xs) =
      length (filter (\<lambda>p. i \<le> acked_index progress self last_index p) side)" for i
    by (simp add: filter_map comp_def)
  have "i \<le> rev (sort ?xs) ! ?k \<longleftrightarrow>
      quorum (length side) \<le> length (filter (\<lambda>p. i \<le> acked_index progress self last_index p) side)" for i
    unfolding descending_nth_ge [OF k(1)] f using k(2) by auto
  moreover have "subset_quorum_index progress self side last_index = Some (rev (sort ?xs) ! ?k)"
    using assms k by (simp add: subset_quorum_index_def Let_def)
  ultimately show ?thesis by blast
qed

text \<open>How many members of a voter set have acknowledged an index.\<close>

definition acked_by :: "'s raft_node \<Rightarrow> log_index \<Rightarrow> peer_id list \<Rightarrow> peer_id list" where
  "acked_by n i side =
     filter (\<lambda>p. i \<le> acked_index (n_progress n) (node_id n) (fst (n_last_log n)) p) side"

text \<open>The commit quorum of the effective configuration: both sides of a joint one.\<close>

definition commit_quorum :: "'s raft_node \<Rightarrow> log_index \<Rightarrow> bool" where
  "commit_quorum n i =
    (case n_joint_peers n of
       Some (old_peers, new_peers) \<Rightarrow>
         old_peers \<noteq> [] \<and> new_peers \<noteq> [] \<and>
         quorum (length old_peers) \<le> length (acked_by n i old_peers) \<and>
         quorum (length new_peers) \<le> length (acked_by n i new_peers)
     | None \<Rightarrow> peers n \<noteq> [] \<and> quorum (length (peers n)) \<le> length (acked_by n i (peers n)))"

lemma quorum_reaches_iff:
  "quorum_reaches n side i \<longleftrightarrow> side \<noteq> [] \<and> quorum (length side) \<le> length (acked_by n i side)"
proof (cases "side = []")
  case False
  obtain q where "subset_quorum_index (n_progress n) (node_id n) side (fst (n_last_log n)) = Some q"
    and "\<And>i. i \<le> q \<longleftrightarrow> quorum (length side) \<le> length (acked_by n i side)"
    unfolding acked_by_def using subset_quorum_index_Some [OF False] by blast
  then show ?thesis using False by (simp add: quorum_reaches_def)
qed (simp add: quorum_reaches_def subset_quorum_index_def)

lemma index_meets_commit_quorum_iff: "index_meets_commit_quorum n i \<longleftrightarrow> commit_quorum n i"
  by (auto simp: index_meets_commit_quorum_def commit_quorum_def quorum_reaches_iff split: option.splits)

lemma effective_quorum_index_iff:
  assumes "effective_quorum_index n = Some q"
  shows "i \<le> q \<longleftrightarrow> index_meets_commit_quorum n i"
  using assms
  by (auto simp: effective_quorum_index_def index_meets_commit_quorum_def quorum_reaches_def
      split: option.splits prod.splits)

text \<open>
  (C10) The predicate that decides whether an entry is committed is exact: an
  index meets the commit quorum if and only if a strict majority of the voters
  acknowledged it, where the leader's own log counts for the leader and a
  voter without progress counts as zero; during a membership change a majority
  of the old and a majority of the new voters are both required.
\<close>

theorem commit_quorum_exact:
  "index_meets_commit_quorum n i \<longleftrightarrow>
    (case n_joint_peers n of
       Some (old_peers, new_peers) \<Rightarrow>
         old_peers \<noteq> [] \<and> new_peers \<noteq> [] \<and>
         length old_peers < 2 * length (acked_by n i old_peers) \<and>
         length new_peers < 2 * length (acked_by n i new_peers)
     | None \<Rightarrow> peers n \<noteq> [] \<and> length (peers n) < 2 * length (acked_by n i (peers n)))"
proof -
  have "quorum k \<le> m \<longleftrightarrow> k < 2 * m" for k m
    by (auto simp: quorum_def)
  then show ?thesis
    unfolding index_meets_commit_quorum_iff commit_quorum_def by (simp split: option.splits)
qed

section \<open>Advancing the commit index\<close>

lemma quorum_term_fields [simp]:
  "n_config (snd (quorum_term E i n)) = n_config n"
  "n_hard (snd (quorum_term E i n)) = n_hard n"
  "n_soft (snd (quorum_term E i n)) = n_soft n"
  "n_progress (snd (quorum_term E i n)) = n_progress n"
  "n_joint_peers (snd (quorum_term E i n)) = n_joint_peers n"
  "n_last_log (snd (quorum_term E i n)) = n_last_log n"
  "n_outbox (snd (quorum_term E i n)) = n_outbox n"
  by (simp_all add: quorum_term_def bind_op_def with_storage_def Let_def
      split: option.splits prod.splits sum.splits)

text \<open>
  The cached positions of a node agree with its durable log: the ring answers
  only terms of the log, and the cached last position, unless it is the
  snapshot boundary, is an entry of the log.
\<close>

definition caches_ok :: "('s \<Rightarrow> log_index \<rightharpoonup> log_entry) \<Rightarrow> 's raft_node \<Rightarrow> bool" where
  "caches_ok log n \<longleftrightarrow> arena_ok (n_log_metadata n) \<and>
     (\<forall>i t. arena_get_term (n_log_metadata n) i = Some t \<longrightarrow> map_option entry_term (log (n_storage n) i) = Some t) \<and>
     (fst (n_last_log n) \<noteq> 0 \<longrightarrow>
        map_option entry_term (log (n_storage n) (fst (n_last_log n))) = Some (snd (n_last_log n)))"

lemma quorum_term_log:
  assumes S: "raft_storage (e_store E) hs log invar" and "invar (n_storage n)" and "caches_ok log n"
    and "0 < i" and "quorum_term E i n = (Inr t, n')" and "t \<noteq> 0"
  shows "map_option entry_term (log (n_storage n) i) = Some t"
proof (cases "i = fst (n_last_log n)")
  case True
  then show ?thesis using assms by (auto simp: quorum_term_def caches_ok_def)
next
  case False
  show ?thesis
  proof (cases "arena_get_term (n_log_metadata n) i")
    case None
    obtain r s where r: "so_term_at (e_store E) i (n_storage n) = (r, s)" by fastforce
    have "\<forall>v. r = Inr v \<longrightarrow> v = map_option entry_term (log (n_storage n) i)"
      using raft_storage.term_at [OF S assms(2) r] by blast
    then show ?thesis
      using assms(5,6) False None r
      by (auto simp: quorum_term_def bind_op_def with_storage_def Let_def split: sum.splits option.splits)
  next
    case (Some u)
    then show ?thesis using assms(3,5) False by (auto simp: quorum_term_def caches_ok_def)
  qed
qed

lemma try_advance_cases:
  assumes "try_advance_commit_index E n = (r, n')"
  shows "commit_index n' = commit_index n \<or>
    (\<exists>m. commit_index n < commit_index n' \<and> index_meets_commit_quorum n (commit_index n') \<and>
      quorum_term E (commit_index n') n = (Inr (node_term n), m))"
proof (cases "effective_quorum_index n")
  case (Some q)
  show ?thesis
  proof (cases "quorum_term E q n")
    case (Pair rt m)
    then have m: "n_soft m = n_soft n" "n_hard m = n_hard n"
      using quorum_term_fields [of E q n] by auto
    have "index_meets_commit_quorum n q"
      using effective_quorum_index_iff [OF Some] by blast
    then show ?thesis
      using assms Some Pair m
      by (cases rt) (auto simp: try_advance_commit_index_def not_le split: if_splits)
  qed
qed (use assms in \<open>auto simp: try_advance_commit_index_def split: if_splits\<close>)

text \<open>
  (C3) A leader commits only what Raft allows.  Over any storage that keeps
  its contract, and with caches that agree with the durable log, the advance
  of the commit index leaves it unchanged or moves it forward onto an entry of
  the log that carries the leader's current term and that a majority of the
  voters acknowledged, on both sides of a membership change when one is active.
\<close>

theorem commit_only_current_term_majority:
  assumes "raft_storage (e_store E) hs log invar" and "invar (n_storage n)" and "caches_ok log n"
    and "node_term n \<noteq> 0" and "try_advance_commit_index E n = (r, n')"
  shows "commit_index n' = commit_index n \<or>
    (commit_index n < commit_index n' \<and> commit_quorum n (commit_index n') \<and>
     (\<exists>e. log (n_storage n) (commit_index n') = Some e \<and> entry_term e = node_term n))"
proof -
  consider "commit_index n' = commit_index n"
    | m where "commit_index n < commit_index n'" "index_meets_commit_quorum n (commit_index n')"
        "quorum_term E (commit_index n') n = (Inr (node_term n), m)"
    using try_advance_cases [OF assms(5)] by blast
  then show ?thesis
  proof cases
    case 2
    then have "0 < commit_index n'" by (auto simp: word_gt_0)
    from quorum_term_log [OF assms(1-3) this 2(3) assms(4)] 2 show ?thesis
      by (auto simp: index_meets_commit_quorum_iff)
  qed simp
qed

text \<open>A leader whose second entry is acknowledged by one follower of two.\<close>

definition sample_log :: "log_entry list" where
  "sample_log = [\<lparr>entry_term = 1, entry_index = 1, entry_payload = []\<rparr>,
     \<lparr>entry_term = 1, entry_index = 2, entry_payload = [5]\<rparr>]"

definition sample_committing :: "mem_storage raft_node" where
  "sample_committing = sample_leader\<lparr>n_storage := mem_empty\<lparr>ms_entries := sample_log\<rparr>,
     n_last_log := (2, 1),
     n_progress := [(2, \<lparr>next_index = 3, match_index = 2\<rparr>), (3, \<lparr>next_index = 1, match_index = 0\<rparr>)]\<rparr>"

lemma arena_new_get [simp]: "arena_get_term (arena_new k) i = None"
  by (simp add: arena_get_term_def arena_new_def Let_def)

theorem commit_only_current_term_majority_witness:
  "raft_storage (e_store sample_env) mem_hs mem_log mem_ok \<and> mem_ok (n_storage sample_committing) \<and>
   caches_ok mem_log sample_committing \<and> node_term sample_committing \<noteq> 0 \<and>
   (let n' = snd (try_advance_commit_index sample_env sample_committing) in
      commit_index n' = 2 \<and> commit_quorum sample_committing 2)"
proof -
  note samples = sample_committing_def sample_leader_def sample_node_def sample_config_def fresh_node_def
  have S: "raft_storage (e_store sample_env) mem_hs mem_log mem_ok"
    using mem.raft_storage_axioms by (simp add: sample_env_def)
  have ok: "mem_ok (n_storage sample_committing)"
    by (simp add: mem_ok_def samples sample_log_def)
  have arena: "arena_ok (arena_new 8192)" by (rule arena_new_ok) simp
  have caches: "caches_ok mem_log sample_committing"
    using arena by (simp add: caches_ok_def samples mem_log_def sample_log_def)
  have trm: "node_term sample_committing \<noteq> 0" by (simp add: samples)
  have run: "commit_index (snd (try_advance_commit_index sample_env sample_committing)) = 2"
    "commit_index sample_committing = 0"
    by (simp_all add: try_advance_commit_index_def effective_quorum_index_def subset_quorum_index_def
        quorum_term_def acked_index_def quorum_def samples pm_is_empty_def Let_def)
  have "commit_quorum sample_committing 2"
    using commit_only_current_term_majority [OF S ok caches trm, of
        "fst (try_advance_commit_index sample_env sample_committing)"
        "snd (try_advance_commit_index sample_env sample_committing)"] run by simp
  then show ?thesis using S ok caches trm run by (simp add: Let_def)
qed

section \<open>Progress stays inside the leader's log\<close>

definition progress_ok :: "'s raft_node \<Rightarrow> bool" where
  "progress_ok n \<longleftrightarrow> pm_ok (n_progress n) \<and>
     (\<forall>p q. pm_get p (n_progress n) = Some q \<longrightarrow>
        1 \<le> next_index q \<and> next_index q \<le> sat_add (fst (n_last_log n)) 1)"

lemma sat_add_one_pos: "1 \<le> sat_add a (1 :: u64)"
  by (simp add: word_nat unat_sat_add)

lemma walk_back_bounds: "1 \<le> cap \<Longrightarrow> 1 \<le> walk_back cap hint next \<and> walk_back cap hint next \<le> cap"
  by (simp add: walk_back_def)

lemma on_success_bounds:
  assumes "1 \<le> next_index p" and "next_index p \<le> cap"
  shows "1 \<le> next_index (on_success cap m p) \<and> next_index (on_success cap m p) \<le> cap \<and>
    next_index p \<le> next_index (on_success cap m p) \<and> match_index p \<le> match_index (on_success cap m p)"
  using assms by (auto simp: on_success_def Let_def min_def intro: order_trans)

lemma progress_ok_modify:
  assumes "progress_ok n"
    and "\<And>q. 1 \<le> next_index q \<Longrightarrow> next_index q \<le> sat_add (fst (n_last_log n)) 1 \<Longrightarrow>
      1 \<le> next_index (f q) \<and> next_index (f q) \<le> sat_add (fst (n_last_log n)) 1"
  shows "progress_ok (n\<lparr>n_progress := pm_modify p f (n_progress n)\<rparr>)"
  using assms by (auto simp: progress_ok_def)

lemma progress_ok_empty: "n_progress n = [] \<Longrightarrow> progress_ok n"
  by (simp add: progress_ok_def pm_ok_def)

lemma step_down_progress: "step_down E t n = (Inr u, n') \<Longrightarrow> n_progress n' = []"
  by (auto simp: step_down_def bind_op_def with_storage_def Let_def split: prod.splits sum.splits)

lemma initialize_leader_progress_ok: "progress_ok (initialize_leader_progress E n)"
proof -
  let ?fresh = "\<lparr>next_index = sat_add (fst (n_last_log n)) 1, match_index = 0\<rparr>"
  let ?vs = "filter (\<lambda>p. p \<noteq> node_id n) (peers n)" and ?ls = "filter (\<lambda>p. p \<noteq> node_id n) (learners n)"
  note v = pm.fill_props [OF pm.invar_empty, where ks = ?vs and f = "\<lambda>_. ?fresh"]
  note l = pm.fill_props [OF v(1), where ks = ?ls and f = "\<lambda>_. ?fresh"]
  show ?thesis
    using l(1) l(2) v(2)
    by (auto simp: progress_ok_def initialize_leader_progress_def Let_def sat_add_one_pos
        pm.lookup_empty split: if_splits)
qed

text \<open>
  (C21) No answer of a peer can push the leader's replication outside its log:
  if every \<open>next_index\<close> lies between 1 and one past the leader's last entry, it
  still does after any append response has been handled without error, whatever
  the response claims; the same holds for a newly elected leader.
\<close>

theorem responses_keep_progress_in_log:
  assumes "progress_ok n"
  shows "(handle_append_entries_response E from resp n = (Inr (), n') \<longrightarrow> progress_ok n') \<and>
    progress_ok (initialize_leader_progress E n)"
proof (intro conjI impI)
  assume run: "handle_append_entries_response E from resp n = (Inr (), n')"
  show "progress_ok n'"
  proof (cases "aer_term resp > node_term n")
    case True
    then obtain u where "step_down E (aer_term resp) n = (Inr u, n')"
      using run by (auto simp: handle_append_entries_response_def bind_op_ok_iff)
    then show ?thesis by (intro progress_ok_empty step_down_progress)
  next
    case False
    let ?cap = "sat_add (fst (n_last_log n)) 1"
    have "progress_ok (n\<lparr>n_progress := pm_modify from (on_success ?cap m) (n_progress n)\<rparr>)" for m
      using assms by (rule progress_ok_modify) (use on_success_bounds in blast)
    moreover have "progress_ok (n\<lparr>n_progress := pm_modify from (\<lambda>p. p\<lparr>next_index :=
        walk_back ?cap m (next_index p)\<rparr>) (n_progress n)\<rparr>)" for m
      using assms by (rule progress_ok_modify) (use walk_back_bounds [OF sat_add_one_pos] in simp)
    ultimately show ?thesis
      using run False assms
      by (auto simp: handle_append_entries_response_def Let_def split: if_splits option.splits)
  qed
qed (rule initialize_leader_progress_ok)

theorem responses_keep_progress_in_log_witness:
  "progress_ok sample_committing \<and>
   progress_ok (snd (handle_append_entries_response sample_env 3
     \<lparr>aer_term = 1, aer_match_index = 999, aer_success = 1, aer_pad = []\<rparr> sample_committing))"
proof -
  note samples = sample_committing_def sample_leader_def sample_node_def sample_config_def fresh_node_def
  let ?r = "\<lparr>aer_term = 1, aer_match_index = 999, aer_success = 1, aer_pad = []\<rparr>"
  define n' where "n' = snd (handle_append_entries_response sample_env 3 ?r sample_committing)"
  have ok: "progress_ok sample_committing"
    by (auto simp: progress_ok_def pm_ok_def samples sat_add_def split: if_splits)
  have "handle_append_entries_response sample_env 3 ?r sample_committing = (Inr (), n')"
    unfolding n'_def by (simp add: handle_append_entries_response_def samples is_leader_def Let_def)
  then show ?thesis using responses_keep_progress_in_log [OF ok] ok unfolding n'_def by blast
qed

end
