(* ===== verification/Wire_Props.thy ===== *)
theory Wire_Props
  imports Wire_Codec
begin

text \<open>
  Properties of the wire protocol: every structure survives its byte string,
  every message survives its frame, the slices of the vectored encoder
  concatenate to the contiguous frame, and what the decoder accepts the entry
  iterators read completely.
\<close>

section \<open>Structures\<close>

lemma enc_lengths [simp]:
  "length (enc_frame_header h) = 32"
  "length (enc_request_vote rv) = 32"
  "length (enc_append_entries ae) = 48"
  "length (enc_entry_header eh) = 24"
  "length (enc_timeout_now tn) = 16"
  by (simp_all add: enc_frame_header_def enc_request_vote_def enc_append_entries_def
      enc_entry_header_def enc_timeout_now_def)

lemma enc_lengths_pad [simp]:
  "length (rvr_pad rvr) = 7 \<Longrightarrow> length (enc_request_vote_resp rvr) = 16"
  "length (aer_pad aer) = 7 \<Longrightarrow> length (enc_append_entries_resp aer) = 24"
  "length (is_pad is) = 3 \<Longrightarrow> length (enc_install_snapshot is) = 48"
  "length (isr_pad isr) = 7 \<Longrightarrow> length (enc_install_snapshot_resp isr) = 24"
  by (simp_all add: enc_request_vote_resp_def enc_append_entries_resp_def
      enc_install_snapshot_def enc_install_snapshot_resp_def)

lemma dec_enc [simp]:
  "dec_frame_header (enc_frame_header h) = h"
  "dec_request_vote (enc_request_vote rv) = rv"
  "dec_append_entries (enc_append_entries ae) = ae"
  "dec_entry_header (enc_entry_header eh) = eh"
  "dec_timeout_now (enc_timeout_now tn) = tn"
  by (simp_all add: dec_frame_header_def enc_frame_header_def dec_request_vote_def enc_request_vote_def
      dec_append_entries_def enc_append_entries_def dec_entry_header_def enc_entry_header_def
      dec_timeout_now_def enc_timeout_now_def fld_def fld_u8_def nth_append)

lemma dec_enc_pad [simp]:
  "length (rvr_pad rvr) = 7 \<Longrightarrow> dec_request_vote_resp (enc_request_vote_resp rvr) = rvr"
  "length (aer_pad aer) = 7 \<Longrightarrow> dec_append_entries_resp (enc_append_entries_resp aer) = aer"
  "length (is_pad is) = 3 \<Longrightarrow> dec_install_snapshot (enc_install_snapshot is) = is"
  "length (isr_pad isr) = 7 \<Longrightarrow> dec_install_snapshot_resp (enc_install_snapshot_resp isr) = isr"
  by (simp_all add: dec_request_vote_resp_def enc_request_vote_resp_def dec_append_entries_resp_def
      enc_append_entries_resp_def dec_install_snapshot_def enc_install_snapshot_def
      dec_install_snapshot_resp_def enc_install_snapshot_resp_def fld_def fld_u8_def nth_append)

lemma parse_prefix_append [simp]:
  "length b = n \<Longrightarrow> parse_prefix n dec name (b @ rest) = Inr (dec b, rest)"
  by (simp add: parse_prefix_def)

lemma exact_body_enc [simp]:
  "length b = n \<Longrightarrow> exact_body n dec name trailing b = Inr (dec b)"
  using parse_prefix_append [of b n dec name "[]"] by (simp add: exact_body_def)

lemma decode_frame:
  assumes "length body < 2 ^ 32"
  shows "decode_message (enc_frame_header (frame_header from gid kind (word_of_nat (length body))) @ body) =
    bind_res (decode_body kind body) (\<lambda>m. Inr \<lparr>in_from = from, in_group_id = gid, in_message = m\<rparr>)"
  using assms by (simp add: decode_message_def frame_header_def unat_of_nat)

section \<open>Entries\<close>

lemma length_foldl_entries:
  "foldl (\<lambda>len e. len + (24 + length (entry_payload e))) n es =
   n + sum_list (map (\<lambda>e. 24 + length (entry_payload e)) es)"
  by (induction es arbitrary: n) simp_all

lemma length_foldl_payloads:
  "foldl (\<lambda>len p. len + length p) n ps = n + length (concat ps)"
  by (induction ps arbitrary: n) simp_all

lemma encode_entries_ok:
  assumes "\<forall>e\<in>set es. length (entry_payload e) < 2 ^ 32"
  obtains b where "encode_entries es = Inr b"
    and "length b = sum_list (map (\<lambda>e. 24 + length (entry_payload e)) es)"
    and "validate_append_entries_body (length es) b = Inr ()"
    and "append_entries_iter (length es) b = es"
proof -
  have "\<exists>b. encode_entries es = Inr b \<and>
      length b = sum_list (map (\<lambda>e. 24 + length (entry_payload e)) es) \<and>
      validate_append_entries_body (length es) b = Inr () \<and> append_entries_iter (length es) b = es"
    using assms
  proof (induction es)
    case (Cons e es)
    then obtain b where b: "encode_entries es = Inr b"
        "length b = sum_list (map (\<lambda>e. 24 + length (entry_payload e)) es)"
        "validate_append_entries_body (length es) b = Inr ()" "append_entries_iter (length es) b = es"
      by auto
    let ?h = "\<lparr>eh_term = entry_term e, eh_index = entry_index e,
      eh_payload_len = word_of_nat (length (entry_payload e)), eh_pad = 0\<rparr>"
    have "unat (word_of_nat (length (entry_payload e)) :: u32) = length (entry_payload e)"
      using Cons.prems by (simp add: unat_of_nat)
    then show ?case
      using b Cons.prems by (simp add: wire_len_u32_def Let_def)
  qed simp
  then show thesis using that by blast
qed

lemma encode_entries_bound:
  assumes "sum_list (map (\<lambda>e. 24 + length (entry_payload e)) es) < n"
  shows "\<forall>e\<in>set es. length (entry_payload e) < n" and "length es < n"
proof -
  have "length es \<le> sum_list (map (\<lambda>e. 24 + length (entry_payload e)) es)"
    by (induction es) auto
  then show "length es < n" using assms by simp
qed (use assms in \<open>induction es, auto\<close>)

lemma encode_entries_error:
  "encode_entries es = Inl x \<Longrightarrow> \<exists>e\<in>set es. \<not> length (entry_payload e) < 2 ^ 32"
proof (rule ccontr)
  assume "encode_entries es = Inl x" and "\<not> (\<exists>e\<in>set es. \<not> length (entry_payload e) < 2 ^ 32)"
  then show False using encode_entries_ok [of es] by (metis sum.distinct(1))
qed

lemma bind_res_InrE:
  assumes "bind_res r f = Inr b" obtains a where "r = Inr a" and "f a = Inr b"
  using assms by (cases r) auto

lemma encode_entries_small:
  "encode_entries es = Inr b \<Longrightarrow> \<forall>e\<in>set es. length (entry_payload e) < 2 ^ 32"
  by (induction es arbitrary: b) (auto simp: wire_len_u32_def elim!: bind_res_InrE split: if_splits)

section \<open>Messages\<close>

text \<open>
  The messages a node builds: reserved bytes have their fixed length, counts
  and lengths announced in the structures are those of the data that follows.
\<close>

fun wire_ok :: "raft_message \<Rightarrow> bool" where
  "wire_ok (RequestVoteResp m) \<longleftrightarrow> length (rvr_pad m) = 7"
| "wire_ok (PreVoteResp m) \<longleftrightarrow> length (rvr_pad m) = 7"
| "wire_ok (AppendEntries m p) \<longleftrightarrow> validate_append_entries_body (unat (ae_entry_count m)) p = Inr ()"
| "wire_ok (AppendEntriesVectored m es) \<longleftrightarrow> unat (ae_entry_count m) = length es"
| "wire_ok (AppendEntriesSeeded m hs ps) \<longleftrightarrow>
     length hs = unat (ae_entry_count m) * 24 \<and> seeded_expected_len hs (unat (ae_entry_count m)) = length ps"
| "wire_ok (AppendEntriesSeededVectored m hs ps) \<longleftrightarrow>
     length hs = unat (ae_entry_count m) * 24 \<and> seeded_expected_len hs (unat (ae_entry_count m)) = length (concat ps)"
| "wire_ok (AppendEntriesResp m) \<longleftrightarrow> length (aer_pad m) = 7"
| "wire_ok (InstallSnapshot m p) \<longleftrightarrow> length (is_pad m) = 3 \<and> length p = unat (is_chunk_len m)"
| "wire_ok (InstallSnapshotResp m) \<longleftrightarrow> length (isr_pad m) = 7"
| "wire_ok _ \<longleftrightarrow> True"

text \<open>What the receiver sees of a message: the outbound variants arrive contiguous.\<close>

fun received_form :: "raft_message \<Rightarrow> raft_message" where
  "received_form (AppendEntriesVectored m es) =
     AppendEntries m (case encode_entries es of Inr b \<Rightarrow> b | Inl _ \<Rightarrow> [])"
| "received_form (AppendEntriesSeededVectored m hs ps) = AppendEntriesSeeded m hs (concat ps)"
| "received_form m = m"

lemma encode_body_len:
  assumes "encode_body msg = Inr b"
  shows "length b = body_total_len msg"
proof (cases msg)
  case (AppendEntriesVectored m es)
  then have "\<forall>e\<in>set es. length (entry_payload e) < 2 ^ 32"
    using assms by (auto elim!: bind_res_InrE dest: encode_entries_small)
  then show ?thesis
    using assms AppendEntriesVectored
    by (elim encode_entries_ok) (simp add: length_foldl_entries, auto)
qed (use assms in \<open>auto simp: length_foldl_payloads\<close>)

lemma decode_body_encode:
  assumes "wire_ok msg" and "encode_body msg = Inr b"
  shows "decode_body (kind_of msg) b = Inr (received_form msg)"
proof (cases msg)
  case (AppendEntriesVectored m es)
  show ?thesis
  proof (cases "encode_entries es")
    case (Inr eb)
    then have "\<forall>e\<in>set es. length (entry_payload e) < 2 ^ 32"
      by (rule encode_entries_small)
    then have "validate_append_entries_body (length es) eb = Inr ()"
      using Inr by (elim encode_entries_ok) simp
    then show ?thesis
      using assms AppendEntriesVectored Inr by (auto simp: decode_body_def)
  qed (use assms AppendEntriesVectored in simp)
next
  case (AppendEntriesSeededVectored m hs ps)
  then show ?thesis
    using assms by (auto simp: decode_body_def validate_seeded_payloads_def Let_def simp del: length_concat)
qed (use assms in \<open>auto simp: decode_body_def validate_seeded_payloads_def Let_def\<close>)

lemma decode_encoded_frame:
  assumes "wire_ok msg" and "encode_message_to_bytes from msg = Inr frame"
  shows "decode_message frame =
    Inr \<lparr>in_from = from, in_group_id = 0, in_message = received_form msg\<rparr>"
proof -
  obtain n b where n: "wire_len_u32 (body_total_len msg) ''frame body length'' = Inr n"
    and b: "encode_body msg = Inr b"
    and frame: "frame = enc_frame_header (frame_header from 0 (kind_of msg) n) @ b"
    using assms(2) unfolding encode_message_to_bytes_def by (auto elim!: bind_res_InrE)
  have len: "length b = body_total_len msg" using b by (rule encode_body_len)
  then have "length b < 2 ^ 32" "n = word_of_nat (length b)"
    using n by (auto simp: wire_len_u32_def split: if_splits)
  then show ?thesis
    using frame decode_frame [of b] decode_body_encode [OF assms(1) b] by simp
qed

text \<open>
  (C17) Every message a node builds survives the wire: the frame that the
  contiguous encoder produces is decoded to the same sender, the default group
  and the same message, where the two outbound forms of an append arrive in
  their contiguous form.
\<close>

theorem message_roundtrip:
  assumes "wire_ok msg" and "encode_message_to_bytes from msg = Inr frame"
  shows "decode_message frame =
    Inr \<lparr>in_from = from, in_group_id = 0, in_message = received_form msg\<rparr>"
  using assms by (rule decode_encoded_frame)

theorem message_roundtrip_witness:
  "decode_message (enc_frame_header (frame_header 7 0 12 16) @
     enc_timeout_now \<lparr>tn_term = 3, tn_leader_id = 7\<rparr>) =
   Inr \<lparr>in_from = 7, in_group_id = 0, in_message = TimeoutNow \<lparr>tn_term = 3, tn_leader_id = 7\<rparr>\<rparr>"
  using message_roundtrip [of "TimeoutNow \<lparr>tn_term = 3, tn_leader_id = 7\<rparr>" 7]
  by (simp add: encode_message_to_bytes_def wire_len_u32_def)

text \<open>
  (C18) The entries of an append are delivered exactly: a batch that the
  encoder accepts is decoded by the receiver, and iterating over the decoded
  body yields the leader's entries in order, with their terms, indexes and
  payloads.
\<close>

theorem append_entries_delivered:
  assumes "unat (ae_entry_count m) = length es"
    and "encode_message_to_bytes from (AppendEntriesVectored m es) = Inr frame"
  shows "\<exists>body. decode_message frame =
      Inr \<lparr>in_from = from, in_group_id = 0, in_message = AppendEntries m body\<rparr> \<and>
    append_entries_iter (unat (ae_entry_count m)) body = es"
proof -
  obtain eb where eb: "encode_entries es = Inr eb"
    using assms(2) unfolding encode_message_to_bytes_def by (auto elim!: bind_res_InrE)
  have "append_entries_iter (length es) eb = es"
    using eb encode_entries_small [OF eb] by (elim encode_entries_ok) simp
  moreover have "decode_message frame =
      Inr \<lparr>in_from = from, in_group_id = 0, in_message = received_form (AppendEntriesVectored m es)\<rparr>"
    using assms by (intro decode_encoded_frame) simp_all
  ultimately show ?thesis using assms(1) eb by simp
qed

theorem append_entries_delivered_witness:
  "\<exists>frame body. encode_message_to_bytes 1 (AppendEntriesVectored
       \<lparr>ae_term = 2, ae_leader_id = 1, ae_prev_log_index = 4, ae_prev_log_term = 1,
         ae_leader_commit = 4, ae_entry_count = 1, ae_pad = 0\<rparr>
       [\<lparr>entry_term = 2, entry_index = 5, entry_payload = [7, 8]\<rparr>]) = Inr frame \<and>
     append_entries_iter 1 body = [\<lparr>entry_term = 2, entry_index = 5, entry_payload = [7, 8]\<rparr>] \<and>
     decode_message frame = Inr \<lparr>in_from = 1, in_group_id = 0, in_message = AppendEntries
       \<lparr>ae_term = 2, ae_leader_id = 1, ae_prev_log_index = 4, ae_prev_log_term = 1,
         ae_leader_commit = 4, ae_entry_count = 1, ae_pad = 0\<rparr> body\<rparr>"
  using append_entries_delivered [of "\<lparr>ae_term = 2, ae_leader_id = 1, ae_prev_log_index = 4,
      ae_prev_log_term = 1, ae_leader_commit = 4, ae_entry_count = 1, ae_pad = 0\<rparr>"
      "[\<lparr>entry_term = 2, entry_index = 5, entry_payload = [7, 8]\<rparr>]" 1]
  by (fastforce simp: encode_message_to_bytes_def wire_len_u32_def)

text \<open>The slices of the vectored encoder, concatenated, are the contiguous frame.\<close>

lemma concat_push_nonempty [simp]: "concat (push_nonempty p) = p"
  by (simp add: push_nonempty_def)

lemma concat_concat_push_nonempty [simp]: "concat (concat (map push_nonempty ps)) = concat ps"
  by (induction ps) simp_all

lemma interleave_concat: "map_sum id concat (interleave_entries es) = encode_entries es"
proof (induction es)
  case (Cons e es)
  then show ?case
    by (cases "interleave_entries es"; cases "wire_len_u32 (length (entry_payload e)) ''entry payload length''")
      (auto simp flip: Cons)
qed simp

lemma vectored_slices_body:
  "(\<And>m es. msg \<noteq> AppendEntriesVectored m es) \<Longrightarrow> encode_body msg = Inr (concat (vectored_slices msg))"
  by (cases msg) auto

fun headers_needed :: "raft_message \<Rightarrow> nat" where
  "headers_needed (AppendEntriesVectored m es) = 32 + 48 + length es * 24"
| "headers_needed _ = 32"

lemma vectored_batch_concat:
  assumes "32 + 48 + length es * 24 \<le> buf_len" and "ae_entry_count m = word_of_nat (length es)"
  shows "map_sum id concat (encode_append_entries_vectored_with_pad from 0 (ae_term m) (ae_leader_id m)
      (ae_prev_log_index m) (ae_prev_log_term m) (ae_leader_commit m) (ae_pad m) es buf_len) =
    encode_message_to_bytes from (AppendEntriesVectored m es)"
proof (cases "48 + sum_list (map (\<lambda>e. 24 + length (entry_payload e)) es) < 2 ^ 32")
  case True
  then have es: "\<forall>e\<in>set es. length (entry_payload e) < 2 ^ 32" "length es < 2 ^ 32"
    using encode_entries_bound [of es "2 ^ 32"] by auto
  obtain b where b: "encode_entries es = Inr b" using es(1) by (rule encode_entries_ok)
  then obtain sl where sl: "interleave_entries es = Inr sl" "concat sl = b"
    using interleave_concat [of es] by (cases "interleave_entries es") auto
  show ?thesis
    using assms True es b sl
    by (cases m) (simp add: encode_append_entries_vectored_with_pad_def encode_message_to_bytes_def
        wire_len_u32_def length_foldl_entries)
next
  case False
  then show ?thesis
    by (simp add: encode_append_entries_vectored_with_pad_def encode_message_to_bytes_def
        wire_len_u32_def length_foldl_entries)
qed

text \<open>
  (C19) The zero-copy encoder agrees with the contiguous one: with a header
  buffer that is large enough, and the announced count of an entry batch equal
  to its length, it fails exactly when the contiguous encoder fails, with the
  same error, and otherwise the slices it hands to the transport concatenate
  to the contiguous frame.
\<close>

theorem vectored_agrees_with_contiguous:
  assumes "headers_needed msg \<le> buf_len"
    and "\<And>m es. msg = AppendEntriesVectored m es \<Longrightarrow> ae_entry_count m = word_of_nat (length es)"
  shows "map_sum id concat (encode_message_vectored from msg buf_len) = encode_message_to_bytes from msg"
proof (cases "\<exists>m es. msg = AppendEntriesVectored m es")
  case True
  then show ?thesis
    using assms vectored_batch_concat
    by (auto simp: encode_message_vectored_def encode_message_vectored_impl_def)
next
  case False
  then have body: "encode_body msg = Inr (concat (vectored_slices msg))"
    by (intro vectored_slices_body) blast
  have "encode_message_vectored from msg buf_len =
      bind_res (wire_len_u32 (body_total_len msg) ''frame body length'') (\<lambda>n.
        Inr (enc_frame_header (frame_header from 0 (kind_of msg) n) # vectored_slices msg))"
    using False assms(1)
    by (cases msg) (auto simp: encode_message_vectored_def encode_message_vectored_impl_def)
  then show ?thesis
    using body by (cases "wire_len_u32 (body_total_len msg) ''frame body length''")
      (simp_all add: encode_message_to_bytes_def)
qed

theorem vectored_agrees_with_contiguous_witness:
  "map_sum id concat (encode_message_vectored 1 (Custom [1, 2, 3]) 1024) =
   encode_message_to_bytes 1 (Custom [1, 2, 3])"
  by (rule vectored_agrees_with_contiguous) simp_all

section \<open>What the decoder accepts\<close>

lemma append_entries_iter_complete:
  "validate_append_entries_body n body = Inr () \<Longrightarrow>
     length (append_entries_iter n body) = n \<and>
     sum_list (map (\<lambda>e. 24 + length (entry_payload e)) (append_entries_iter n body)) = length body"
proof (induction n arbitrary: body)
  case (Suc n)
  let ?h = "dec_entry_header (take 24 body)" and ?r = "drop 24 body"
  let ?len = "unat (eh_payload_len ?h)"
  have len: "24 \<le> length body" "?len \<le> length ?r"
    and val: "validate_append_entries_body n (drop ?len ?r) = Inr ()"
    using Suc.prems by (auto simp: parse_prefix_def Let_def split: if_splits)
  have "length (append_entries_iter n (drop ?len ?r)) = n \<and>
      sum_list (map (\<lambda>e. 24 + length (entry_payload e)) (append_entries_iter n (drop ?len ?r))) =
        length (drop ?len ?r)"
    using val by (rule Suc.IH)
  then show ?case using len by (simp add: Let_def)
qed (simp split: if_splits)

lemma seeded_expected_len_Suc:
  "seeded_expected_len hs (Suc n) =
     seeded_expected_len hs n + unat (eh_payload_len (dec_entry_header (fld (n * 24) 24 hs)))"
  by (simp add: seeded_expected_len_def)

lemma seeded_expected_len_mono: "m \<le> n \<Longrightarrow> seeded_expected_len hs m \<le> seeded_expected_len hs n"
  by (induction n rule: dec_induct) (simp_all add: seeded_expected_len_Suc)

lemma raw_iter_complete:
  assumes "length hs = n * 24" and "seeded_expected_len hs n = length ps" and "pos \<le> n"
  shows "length (append_entries_raw_iter hs (Contiguous ps) pos (seeded_expected_len hs pos)) = n - pos"
  using assms(3)
proof (induction "n - pos" arbitrary: pos)
  case 0
  then show ?case using assms(1) by (simp add: append_entries_raw_iter.simps)
next
  case (Suc d)
  let ?l = "unat (eh_payload_len (dec_entry_header (fld (pos * 24) 24 hs)))"
  have "pos * 24 + 24 \<le> length hs" using Suc assms(1) by simp
  moreover have "seeded_expected_len hs pos + ?l \<le> length ps"
    using Suc assms(2) seeded_expected_len_mono [of "Suc pos" n hs] by (simp add: seeded_expected_len_Suc)
  moreover have "length (append_entries_raw_iter hs (Contiguous ps) (Suc pos) (seeded_expected_len hs (Suc pos))) =
      n - Suc pos"
    using Suc by simp
  ultimately show ?case
    using Suc by (subst append_entries_raw_iter.simps) (simp add: Let_def seeded_expected_len_Suc)
qed

text \<open>
  (C20) An append that the decoder accepts carries exactly the number of
  entries it announces: the entry iterator never stops early on it and
  consumes its whole body, and the iterator over the zero-copy form yields one
  payload for every header.
\<close>

theorem decoded_append_is_complete:
  assumes "decode_message frame = Inr inbound"
  shows "(\<forall>ae body. in_message inbound = AppendEntries ae body \<longrightarrow>
      length (append_entries_iter (unat (ae_entry_count ae)) body) = unat (ae_entry_count ae) \<and>
      sum_list (map (\<lambda>e. 24 + length (entry_payload e)) (append_entries_iter (unat (ae_entry_count ae)) body)) =
        length body) \<and>
    (\<forall>ae hs ps. in_message inbound = AppendEntriesSeeded ae hs ps \<longrightarrow>
      length (append_entries_raw_iter hs (Contiguous ps) 0 0) = unat (ae_entry_count ae))"
proof -
  obtain kind body where body: "decode_body kind body = Inr (in_message inbound)"
    using assms unfolding decode_message_def
    by (auto split: if_splits prod.splits elim!: bind_res_InrE)
  have vec: "validate_append_entries_body (unat (ae_entry_count ae)) b = Inr ()"
    if "in_message inbound = AppendEntries ae b" for ae b
    using body that unfolding decode_body_def
    by (auto simp: map_sum_def Let_def split: if_splits sum.splits prod.splits elim!: bind_res_InrE)
  have seed: "length hs = unat (ae_entry_count ae) * 24 \<and>
      seeded_expected_len hs (unat (ae_entry_count ae)) = length ps"
    if "in_message inbound = AppendEntriesSeeded ae hs ps" for ae hs ps
    using body that unfolding decode_body_def validate_seeded_payloads_def
    by (auto simp: map_sum_def Let_def split: if_splits sum.splits prod.splits elim!: bind_res_InrE)
  have zero: "seeded_expected_len hs 0 = 0" for hs by (simp add: seeded_expected_len_def)
  show ?thesis
    using append_entries_iter_complete [OF vec] raw_iter_complete [where pos = 0] seed zero by auto
qed

theorem decoded_append_is_complete_witness:
  "let ae = \<lparr>ae_term = 2, ae_leader_id = 7, ae_prev_log_index = 4, ae_prev_log_term = 1,
         ae_leader_commit = 4, ae_entry_count = 1, ae_pad = 0\<rparr>;
       body = enc_entry_header \<lparr>eh_term = 2, eh_index = 5, eh_payload_len = 2, eh_pad = 0\<rparr> @ [7, 8]
   in decode_message (enc_frame_header (frame_header 7 0 3 74) @ enc_append_entries ae @ body) =
        Inr \<lparr>in_from = 7, in_group_id = 0, in_message = AppendEntries ae body\<rparr> \<and>
      length (append_entries_iter 1 body) = 1"
  using decoded_append_is_complete [of "enc_frame_header (frame_header 7 0 3 74) @
      enc_append_entries \<lparr>ae_term = 2, ae_leader_id = 7, ae_prev_log_index = 4, ae_prev_log_term = 1,
         ae_leader_commit = 4, ae_entry_count = 1, ae_pad = 0\<rparr> @
      enc_entry_header \<lparr>eh_term = 2, eh_index = 5, eh_payload_len = 2, eh_pad = 0\<rparr> @ [7, 8]"]
  by (simp add: decode_message_def frame_header_def decode_body_def Let_def)

end
