(* ===== verification/Append_Props.thy ===== *)
theory Append_Props
  imports Commit_Props Wire_Props
begin

text \<open>
  The follower's half of replication: over any storage that keeps its
  contract, the handler of an append changes the durable log exactly as the
  reference function \<open>reference_append\<close> prescribes, never touches the entries up
  to the previous index, loses no entry without a conflict, and its refusals
  point the leader strictly below the index that did not match.
\<close>

section \<open>The reference log\<close>

text \<open>
  Skip the entries that are present with the same term; from the first other
  one on, the suffix of the log is replaced by the rest of the batch.
\<close>

fun reference_append :: "(log_index \<rightharpoonup> log_entry) \<Rightarrow> log_entry list \<Rightarrow> (log_index \<rightharpoonup> log_entry)" where
  "reference_append L [] = L"
| "reference_append L (e # es) =
    (if map_option entry_term (L (entry_index e)) = Some (entry_term e) then reference_append L es
     else (L |` {..<entry_index e}) ++ entry_map (e # es))"

lemma reference_append_other:
  "map_option entry_term (L (entry_index e)) \<noteq> Some (entry_term e) \<Longrightarrow>
     reference_append L (e # es) = (L |` {..<entry_index e}) ++ entry_map (e # es)"
  by (simp only: reference_append.simps if_False)

text \<open>A batch that starts right after an index and has consecutive indexes.\<close>

fun consecutive_from :: "nat \<Rightarrow> log_entry list \<Rightarrow> bool" where
  "consecutive_from i [] = True"
| "consecutive_from i (e # es) \<longleftrightarrow> unat (entry_index e) = i \<and> consecutive_from (Suc i) es"

lemma consecutive_from_ge:
  "consecutive_from i es \<Longrightarrow> e \<in> set es \<Longrightarrow> i \<le> unat (entry_index e)"
  by (induction i es rule: consecutive_from.induct) fastforce+

lemma consecutive_from_sorted:
  "consecutive_from i es \<Longrightarrow> sorted_wrt (<) (map entry_index es)"
proof (induction i es rule: consecutive_from.induct)
  case (2 i e es)
  then have "entry_index e < entry_index e'" if "e' \<in> set es" for e'
    using consecutive_from_ge [of "Suc i" es e'] that by (simp add: word_less_nat_alt)
  then show ?case using 2 by simp
qed simp

lemma consecutive_from_drop: "consecutive_from i es \<Longrightarrow> consecutive_from (i + k) (drop k es)"
proof (induction i es arbitrary: k rule: consecutive_from.induct)
  case (2 i e es)
  then show ?case by (cases k) auto
qed simp

lemma reference_append_prefix:
  "consecutive_from i es \<Longrightarrow> unat j < i \<Longrightarrow> reference_append L es j = L j"
proof (induction L es arbitrary: i rule: reference_append.induct)
  case (2 L e es)
  show ?case
  proof (cases "map_option entry_term (L (entry_index e)) = Some (entry_term e)")
    case True
    have "consecutive_from (Suc i) es" and "unat j < Suc i" using 2 by auto
    from 2(1) [OF True this] show ?thesis using True by simp
  next
    case False
    have "j < entry_index e" using 2 by (simp add: word_less_nat_alt)
    moreover have "entry_map (e # es) j = None"
    proof -
      have "j \<notin> entry_index ` set (e # es)"
        using consecutive_from_ge [OF 2(2)] 2(3) by fastforce
      then show ?thesis unfolding map_of_eq_None_iff by (simp add: image_image)
    qed
    ultimately show ?thesis
      unfolding reference_append_other [of L e, OF False] map_add_def by (simp del: map_of.simps list.map)
  qed
qed simp

lemma entry_map_mem:
  "sorted_wrt (<) (map entry_index es) \<Longrightarrow> e \<in> set es \<Longrightarrow> entry_map es (entry_index e) = Some e"
  by (auto intro!: map_of_is_SomeI simp: comp_def strict_sorted_iff image_iff)

lemma reference_append_present:
  "consecutive_from i es \<Longrightarrow> e \<in> set es \<Longrightarrow>
     map_option entry_term (reference_append L es (entry_index e)) = Some (entry_term e)"
proof (induction L es arbitrary: i rule: reference_append.induct)
  case (2 L x es)
  show ?case
  proof (cases "map_option entry_term (L (entry_index x)) = Some (entry_term x)")
    case True
    have "reference_append L es (entry_index x) = L (entry_index x)"
      using 2(2) by (intro reference_append_prefix [of "Suc i"]) auto
    then show ?thesis using 2 True by auto
  next
    case False
    have "entry_map (x # es) (entry_index e) = Some e"
      using consecutive_from_sorted [OF 2(2)] 2(3) by (rule entry_map_mem)
    then show ?thesis
      unfolding reference_append_other [of L x, OF False] map_add_def by (simp del: map_of.simps list.map)
  qed
qed simp

lemma restrict_below:
  fixes L :: "log_index \<rightharpoonup> 'a"
  assumes "dom L \<subseteq> {..<i}"
  shows "L |` {..<i} = L"
proof
  fix j show "(L |` {..<i}) j = L j"
    using assms by (cases "L j") (auto simp: restrict_map_def)
qed

text \<open>Without a conflict nothing is lost.\<close>

lemma reference_append_no_conflict:
  assumes "\<forall>e\<in>set es. L (entry_index e) \<noteq> None \<longrightarrow> map_option entry_term (L (entry_index e)) = Some (entry_term e)"
    and "dom L \<subseteq> {..hi}" and "\<forall>e\<in>set es. L (entry_index e) = None \<longrightarrow> hi < entry_index e"
    and "consecutive_from i es"
  shows "L \<subseteq>\<^sub>m reference_append L es"
  using assms
proof (induction L es arbitrary: i rule: reference_append.induct)
  case (2 L e es)
  show ?case
  proof (cases "L (entry_index e)")
    case None
    then have hi: "hi < entry_index e" using 2 by simp
    have restrict: "L |` {..<entry_index e} = L"
      using 2(3) hi by (intro restrict_below) (auto intro: le_less_trans)
    have "entry_index x \<notin> dom L" if "x \<in> set (e # es)" for x
    proof -
      have "entry_index e \<le> entry_index x"
        using consecutive_from_ge [OF 2(5) that] 2(5) by (simp add: word_le_nat_alt)
      then show ?thesis using 2(3) hi by (meson atMost_iff leD less_le_trans subsetD)
    qed
    then have "dom L \<inter> dom (entry_map (e # es)) = {}" unfolding entry_map_dom by blast
    then have "L \<subseteq>\<^sub>m L ++ entry_map (e # es)"
      by (auto simp: map_le_def map_add_def split: option.splits)
    then show ?thesis using None by (simp add: restrict del: map_of.simps list.map)
  next
    case (Some x)
    then show ?thesis using 2 by auto
  qed
qed simp

lemma consecutive_from_indices:
  "consecutive_from i (e # es) \<Longrightarrow> entry_index ` set (e # es) = {entry_index e..entry_index (last (e # es))}"
proof (induction es arbitrary: i e)
  case (Cons x es)
  have x: "unat (entry_index x) = Suc (unat (entry_index e))" using Cons.prems by auto
  have "{entry_index e..l} = insert (entry_index e) {entry_index x..l}" if "entry_index x \<le> l" for l
    using that x by (auto simp: word_le_nat_alt word_unat_eq_iff)
  moreover have "entry_index x \<le> entry_index (last (x # es))"
    using consecutive_from_ge [of "Suc i" "x # es" "last (x # es)"] Cons.prems
    by (auto simp: word_le_nat_alt)
  ultimately show ?case
    using Cons.IH [of "Suc i" x] Cons.prems by (auto simp del: consecutive_from.simps(1))
qed simp

text \<open>A replaced suffix leaves a gap-free log that ends with the batch.\<close>

lemma reference_append_dom:
  assumes "consecutive_from i es" and "dom L = {lo<..hi}" and "unat lo < i" and "i \<le> Suc (unat hi)"
    and "\<exists>e\<in>set es. map_option entry_term (L (entry_index e)) \<noteq> Some (entry_term e)"
  shows "dom (reference_append L es) = {lo<..entry_index (last es)} \<and>
    reference_append L es (entry_index (last es)) = Some (last es) \<and> lo < entry_index (last es)"
  using assms
proof (induction L es arbitrary: i rule: reference_append.induct)
  case (2 L e es)
  have i: "unat (entry_index e) = i" "consecutive_from (Suc i) es" using 2(2) by auto
  show ?case
  proof (cases "map_option entry_term (L (entry_index e)) = Some (entry_term e)")
    case True
    then have "entry_index e \<in> dom L" by auto
    then have "Suc i \<le> Suc (unat hi)" using 2(3) i by (auto simp: word_le_nat_alt)
    moreover have "\<exists>e\<in>set es. map_option entry_term (L (entry_index e)) \<noteq> Some (entry_term e)"
      using 2(6) True by auto
    ultimately show ?thesis using 2(1) [OF True i(2) 2(3)] 2(4) True by auto
  next
    case False
    have sorted: "sorted_wrt (<) (map entry_index (e # es))" using 2(2) by (rule consecutive_from_sorted)
    have lo: "lo < entry_index e" using 2(4) i by (simp add: word_less_nat_alt)
    have le: "entry_index e \<le> entry_index (last (e # es))"
      using consecutive_from_ge [OF 2(2), of "last (e # es)"] i by (simp add: word_le_nat_alt)
    have "dom (L |` {..<entry_index e}) = {lo<..<entry_index e}"
      using 2(3,5) i by (auto simp: word_le_nat_alt word_less_nat_alt)
    then have "dom (reference_append L (e # es)) = {lo<..<entry_index e} \<union> {entry_index e..entry_index (last (e # es))}"
      unfolding reference_append_other [of L e, OF False] dom_map_add entry_map_dom consecutive_from_indices [OF 2(2)]
      by blast
    also have "\<dots> = {lo<..entry_index (last (e # es))}" using lo le by auto
    finally show ?thesis
      unfolding reference_append_other [of L e, OF False] map_add_def entry_map_mem [OF sorted last_in_set [OF list.distinct(2)]]
      using lo le by simp
  qed
qed simp

section \<open>Scanning the batch\<close>

text \<open>
  The agreement of the term ring with the durable log above the compaction point \<open>lo\<close>.
  Below it the ring may still hold terms of entries that a compaction discarded.
\<close>

definition ring_sound :: "('s \<Rightarrow> log_index \<rightharpoonup> log_entry) \<Rightarrow> log_index \<Rightarrow> 's raft_node \<Rightarrow> bool" where
  "ring_sound log lo n \<longleftrightarrow> arena_ok (n_log_metadata n) \<and>
     (\<forall>i t. lo < i \<longrightarrow> arena_get_term (n_log_metadata n) i = Some t \<longrightarrow>
        map_option entry_term (log (n_storage n) i) = Some t)"

text \<open>Two nodes that differ at most in their log: the storage, the ring and the last position.\<close>

definition log_only :: "'s raft_node \<Rightarrow> 's raft_node \<Rightarrow> bool" where
  "log_only n n' \<longleftrightarrow> n' = n\<lparr>n_storage := n_storage n', n_log_metadata := n_log_metadata n',
     n_last_log := n_last_log n'\<rparr>"

lemma log_only_refl [simp]: "log_only n n"
  by (simp add: log_only_def)

lemma log_only_trans: "log_only n n' \<Longrightarrow> log_only n' n'' \<Longrightarrow> log_only n n''"
  by (cases n; cases n'; cases n'') (simp add: log_only_def)

lemma log_only_update [simp]:
  "log_only n (n\<lparr>n_storage := s\<rparr>)" "log_only n (n\<lparr>n_log_metadata := a\<rparr>)" "log_only n (n\<lparr>n_last_log := p\<rparr>)"
  by (simp_all add: log_only_def)

lemma log_only_fields:
  "log_only n n' \<Longrightarrow> n_soft n' = n_soft n \<and> n_hard n' = n_hard n \<and> n_config n' = n_config n \<and>
     n_outbox n' = n_outbox n \<and> n_joint_peers n' = n_joint_peers n \<and> n_progress n' = n_progress n"
  by (cases n; cases n') (simp add: log_only_def)

context raft_storage
begin

text \<open>
  A step over the storage that keeps the invariant, the hard state and the
  agreement of the ring, and whose log is \<open>L\<close>.
\<close>

lemma local_term_spec:
  assumes "e_store E = S" and "invar (n_storage n)" and "ring_sound log lo n" and "lo < i"
    and "local_term_at E i n = (r, n')"
  shows "log_only n n' \<and> invar (n_storage n') \<and> hs (n_storage n') = hs (n_storage n) \<and>
    log (n_storage n') = log (n_storage n) \<and> ring_sound log lo n' \<and> n_last_log n' = n_last_log n \<and>
    (\<forall>v. r = Inr v \<longrightarrow> v = map_option entry_term (log (n_storage n) i))"
proof (cases "arena_get_term (n_log_metadata n) i")
  case None
  obtain s where s: "so_term_at S i (n_storage n) = (r, s)" and n': "n' = n\<lparr>n_storage := s\<rparr>"
    using assms(1,5) None by (auto simp: local_term_at_def with_storage_def split: prod.splits)
  show ?thesis using term_at [OF assms(2) s] assms(3) by (auto simp: n' ring_sound_def)
next
  case (Some t)
  then have "map_option entry_term (log (n_storage n) i) = Some t"
    using assms(3,4) by (auto simp: ring_sound_def)
  then show ?thesis using assms Some by (auto simp: local_term_at_def)
qed

lemma storage_truncate_spec:
  assumes "e_store E = S" and "invar (n_storage n)" and "ring_sound log lo n" and "storage_truncate E i n = (Inr (), n')"
  shows "log_only n n' \<and> invar (n_storage n') \<and> hs (n_storage n') = hs (n_storage n) \<and>
    log (n_storage n') = log (n_storage n) |` {..<i} \<and> ring_sound log lo n'"
proof -
  obtain s where s: "so_truncate_suffix S i (n_storage n) = (Inr (), s)"
    and rest: "bind_op (with_storage (so_last_log_position S)
        (n\<lparr>n_storage := s, n_log_metadata := arena_truncate_suffix i (n_log_metadata n)\<rparr>))
        (\<lambda>last_pos n. (Inr (), n\<lparr>n_last_log := last_pos\<rparr>)) = (Inr (), n')"
    using assms(1,4)
    by (auto simp: storage_truncate_def bind_op_ok_iff with_storage_def Let_def split: prod.splits)
  obtain p t where t: "so_last_log_position S s = (Inr p, t)"
    and n': "n' = n\<lparr>n_storage := t, n_log_metadata := arena_truncate_suffix i (n_log_metadata n), n_last_log := p\<rparr>"
    using rest by (auto simp: bind_op_ok_iff with_storage_def split: prod.splits)
  have s_ok: "invar s" "hs s = hs (n_storage n)" "log s = log (n_storage n) |` {..<i}"
    using trunc_suffix [OF assms(2) s] by auto
  have t_ok: "invar t" "hs t = hs s" "log t = log s" using last_pos [OF s_ok(1) t] by auto
  have "ring_sound log lo n'"
    using assms(3) arena.invar_cut arena.find_cut [of "n_log_metadata n" i]
    by (fastforce simp: ring_sound_def n' t_ok s_ok restrict_map_def)
  then show ?thesis by (simp add: n' t_ok s_ok log_only_def)
qed

text \<open>The scan finds the first entry that is absent or has another term, and cuts a conflicting suffix.\<close>

lemma scan_spec:
  assumes "e_store E = S" and "invar (n_storage n)" and "ring_sound log lo n"
    and "\<forall>e\<in>set es. lo < entry_index e"
    and "scan_incoming E err start idx (map entry_pos es) n = (Inr r, n')"
  shows "log_only n n' \<and> invar (n_storage n') \<and> hs (n_storage n') = hs (n_storage n) \<and> ring_sound log lo n' \<and>
    (case r of
       None \<Rightarrow> log (n_storage n') = log (n_storage n) \<and> n_last_log n' = n_last_log n \<and>
         reference_append (log (n_storage n)) es = log (n_storage n)
     | Some k \<Rightarrow> idx \<le> k \<and> k - idx < length es \<and>
         (let rest = drop (k - idx) es; L = log (n_storage n) |` {..<entry_index (hd rest)} in
          map_option entry_term (log (n_storage n) (entry_index (hd rest))) \<noteq> Some (entry_term (hd rest)) \<and>
          (log (n_storage n') = L \<or>
           log (n_storage n') = log (n_storage n) \<and> log (n_storage n) (entry_index (hd rest)) = None) \<and>
          reference_append (log (n_storage n)) es = L ++ entry_map rest))"
  using assms(2-)
proof (induction es arbitrary: idx n)
  case (Cons e es)
  obtain v m where l: "local_term_at E (entry_index e) n = (Inr v, m)"
    and rest: "(case v of
         Some t \<Rightarrow> if t = entry_term e then scan_incoming E err start (idx + 1) (map entry_pos es) m
           else bind_op (storage_truncate E (entry_index e) m) (\<lambda>_ n. (Inr (Some idx), n))
       | None \<Rightarrow> (Inr (Some idx), m)) = (Inr r, n')"
    using Cons.prems(4) by (auto simp: bind_op_ok_iff split: if_splits)
  have lo: "lo < entry_index e" "\<forall>e\<in>set es. lo < entry_index e" using Cons.prems(3) by auto
  note m = local_term_spec [OF assms(1) Cons.prems(1,2) lo(1) l]
  consider (absent) "v = None" | (same) "v = Some (entry_term e)" | (conflict) t where "v = Some t" "t \<noteq> entry_term e"
    by (cases v) auto
  then show ?case
  proof cases
    case absent
    then show ?thesis using rest m by (auto simp: Let_def)
  next
    case same
    have scan: "scan_incoming E err start (idx + 1) (map entry_pos es) m = (Inr r, n')"
      using rest same by simp
    have "log_only n n'" if "log_only m n'" using m that log_only_trans by blast
    then show ?thesis
      using Cons.IH [of m "idx + 1"] scan m same lo(2)
      by (cases r) (auto simp: Let_def Suc_diff_le drop_Cons' split: if_splits)
  next
    case conflict
    obtain trunc: "storage_truncate E (entry_index e) m = (Inr (), n')" and r: "r = Some idx"
      using rest conflict by (auto simp: bind_op_ok_iff)
    have "log_only n n'" if "log_only m n'" using m that log_only_trans by blast
    then show ?thesis
      using storage_truncate_spec [OF assms(1) _ _ trunc] m conflict by (auto simp: r Let_def)
  qed
qed simp

end

section \<open>Storing the batch\<close>

text \<open>
  The log of a node is a gap-free window above the compaction point \<open>lo\<close>, the
  cached last position is its end, and the ring agrees with it above \<open>lo\<close>.
\<close>

definition log_state_ok :: "('s \<Rightarrow> log_index \<rightharpoonup> log_entry) \<Rightarrow> log_index \<Rightarrow> 's raft_node \<Rightarrow> bool" where
  "log_state_ok log lo n \<longleftrightarrow> ring_sound log lo n \<and> lo \<le> fst (n_last_log n) \<and>
     dom (log (n_storage n)) = {lo<..fst (n_last_log n)} \<and>
     (lo < fst (n_last_log n) \<longrightarrow>
        map_option entry_term (log (n_storage n) (fst (n_last_log n))) = Some (snd (n_last_log n)))"

lemma log_state_ok_cong:
  "log (n_storage a) = log (n_storage b) \<Longrightarrow> n_last_log a = n_last_log b \<Longrightarrow> n_log_metadata a = n_log_metadata b \<Longrightarrow>
     log_state_ok log lo a = log_state_ok log lo b"
  by (simp add: log_state_ok_def ring_sound_def)

lemma append_entries_iter_length: "length (append_entries_iter k payload) \<le> k"
  by (induction k payload rule: append_entries_iter.induct) (simp_all add: Let_def)

lemma activate_latest_config_frame:
  assumes "\<not> is_leader n"
  shows "n_storage (snd (activate_latest_config E ps n)) = n_storage n \<and>
    n_hard (snd (activate_latest_config E ps n)) = n_hard n \<and>
    n_soft (snd (activate_latest_config E ps n)) = n_soft n \<and>
    n_log_metadata (snd (activate_latest_config E ps n)) = n_log_metadata n \<and>
    n_last_log (snd (activate_latest_config E ps n)) = n_last_log n \<and>
    n_outbox (snd (activate_latest_config E ps n)) = n_outbox n"
proof (cases "find_map config_change_decode (rev ps)")
  case (Some e)
  obtain r m where m: "config_members e (inc_config_changes_applied n) = (r, m)" by fastforce
  have frame: "n_storage m = n_storage n" "n_hard m = n_hard n" "n_soft m = n_soft n"
      "n_log_metadata m = n_log_metadata n" "n_last_log m = n_last_log n" "n_outbox m = n_outbox n"
    using config_members_fields [of e "inc_config_changes_applied n"] unfolding m
    by (simp_all add: inc_config_changes_applied_def)
  then have "\<not> is_leader m" using assms by (simp add: is_leader_def)
  then have "snd (activate_latest_config E ps n) = m"
    using Some m by (cases r) (simp_all add: activate_latest_config_def apply_config_change_def bind_op_def)
  then show ?thesis using frame by simp
qed (simp add: activate_latest_config_def)

lemma map_of_rev_distinct:
  assumes "distinct (map fst xs)"
  shows "map_of (rev xs) = map_of xs"
proof
  fix k
  have "map_of (rev xs) k = Some y \<longleftrightarrow> map_of xs k = Some y" for y
    using assms by (simp add: map_of_eq_Some_iff rev_map [symmetric])
  then show "map_of (rev xs) k = map_of xs k" by (metis option.exhaust)
qed

context raft_storage
begin

lemma ring_after_append:
  assumes "ring_sound log lo n" and "distinct (map entry_index es)" and "log s = log (n_storage n) ++ entry_map es"
    and "n_storage m = s" and "n_log_metadata m = arena_append_all (map entry_pos es) (n_log_metadata n)"
  shows "ring_sound log lo m"
proof -
  let ?a = "n_log_metadata n" and ?ps = "map entry_pos es"
  have ok: "arena_ok ?a" using assms(1) by (simp add: ring_sound_def)
  have "map_of (rev ?ps) = map_of ?ps"
    using assms(2) by (intro map_of_rev_distinct) (simp add: comp_def)
  moreover have "map_of ?ps = map_option entry_term \<circ> entry_map es"
    by (induction es) (auto simp: fun_eq_iff)
  ultimately have sub: "arena_get_term (arena_append_all ?ps ?a) \<subseteq>\<^sub>m
      arena_get_term ?a ++ (map_option entry_term \<circ> entry_map es)"
    using arena.sound_puts(2) [OF ok map_le_refl, of ?ps] by (simp add: arena_append_all_def)
  have "map_option entry_term (log s i) = Some t"
    if "lo < i" and "arena_get_term (arena_append_all ?ps ?a) i = Some t" for i t
  proof -
    have "(arena_get_term ?a ++ (map_option entry_term \<circ> entry_map es)) i = Some t"
      using bspec [OF sub [unfolded map_le_def], of i] that(2) by (simp add: domIff)
    moreover have "arena_get_term ?a i = Some t \<longrightarrow> map_option entry_term (log (n_storage n) i) = Some t"
      using assms(1) that(1) by (simp add: ring_sound_def del: map_option_eq_Some)
    ultimately show ?thesis
      unfolding assms(3) map_add_def by (cases "entry_map es i") (simp_all del: map_option_eq_Some)
  qed
  moreover have "arena_ok (arena_append_all ?ps ?a)"
    using arena.sound_puts(1) [OF ok map_le_refl, of ?ps] by (simp add: arena_append_all_def)
  ultimately show ?thesis unfolding ring_sound_def assms(4,5) by blast
qed

text \<open>The part of the batch that is new goes to the storage, the ring and the last position.\<close>

lemma append_tail_spec:
  assumes E: "e_store E = S" and inv: "invar (n_storage m)" and ring: "ring_sound log lo m" and "\<not> is_leader m"
    and rest: "rest \<noteq> []" "consecutive_from i rest" and dom: "dom (log (n_storage m)) \<subseteq> {..<entry_index (hd rest)}"
    and run: "bind_op (with_storage (so_append_entries (e_store E) rest) m) (\<lambda>_ n.
        activate_latest_config E (map entry_payload rest) (set_last_from (map entry_pos rest)
          (n\<lparr>n_log_metadata := arena_append_all (map entry_pos rest) (n_log_metadata n)\<rparr>))) = (Inr (), n')"
  shows "invar (n_storage n') \<and> hs (n_storage n') = hs (n_storage m) \<and> ring_sound log lo n' \<and>
    log (n_storage n') = log (n_storage m) ++ entry_map rest \<and> n_last_log n' = entry_pos (last rest) \<and>
    n_soft n' = n_soft m \<and> n_hard n' = n_hard m \<and> n_outbox n' = n_outbox m"
proof -
  have sorted: "sorted_wrt (<) (map entry_index rest)" using rest(2) by (rule consecutive_from_sorted)
  have "entry_index (hd rest) \<le> entry_index e" if "e \<in> set rest" for e
    using consecutive_from_ge [OF rest(2) that] rest by (cases rest) (auto simp: word_le_nat_alt)
  then have appendable: "appendable (log (n_storage m)) rest"
    using sorted dom by (auto simp: appendable_def intro: less_le_trans)
  obtain s where s: "so_append_entries S rest (n_storage m) = (Inr (), s)"
    and act: "activate_latest_config E (map entry_payload rest) (m\<lparr>n_storage := s,
       n_log_metadata := arena_append_all (map entry_pos rest) (n_log_metadata m),
       n_last_log := entry_pos (last rest)\<rparr>) = (Inr (), n')"
    using run E rest(1)
    by (auto simp: bind_op_ok_iff with_storage_def set_last_from_def last_map split: prod.splits)
  define m' where "m' = m\<lparr>n_storage := s, n_log_metadata := arena_append_all (map entry_pos rest) (n_log_metadata m),
       n_last_log := entry_pos (last rest)\<rparr>"
  have "\<not> is_leader m'" using assms(4) by (simp add: m'_def is_leader_def)
  note frame = activate_latest_config_frame [OF this, of E "map entry_payload rest", unfolded act [folded m'_def] snd_conv]
  have s_ok: "invar s" "hs s = hs (n_storage m)" "log s = log (n_storage m) ++ entry_map rest"
    using append_es [OF inv appendable s] by auto
  have "ring_sound log lo n'"
    using ring_after_append [OF ring _ s_ok(3)] sorted frame by (simp add: m'_def strict_sorted_iff)
  then show ?thesis using frame s_ok by (simp add: m'_def)
qed

text \<open>The scan leaves exactly the entries below the first one to append.\<close>

lemma scan_window:
  assumes "e_store E = S" and "invar (n_storage n)" and ok: "log_state_ok log lo n"
    and "consecutive_from (Suc (unat prev)) es" and "lo \<le> prev"
    and "scan_incoming E err start 0 (map entry_pos es) n = (Inr (Some k), m)"
  shows "k < length es \<and> log (n_storage m) = log (n_storage n) |` {..<entry_index (hd (drop k es))} \<and>
    (\<exists>e\<in>set es. map_option entry_term (log (n_storage n) (entry_index e)) \<noteq> Some (entry_term e))"
proof -
  let ?rest = "drop k es" and ?L = "log (n_storage n)" and ?hi = "fst (n_last_log n)"
  have ring: "ring_sound log lo n" using ok by (simp add: log_state_ok_def)
  have lo: "\<forall>e\<in>set es. lo < entry_index e"
    using consecutive_from_ge [OF assms(4)] assms(5) by (fastforce simp: word_le_nat_alt word_less_nat_alt)
  have m: "k < length es"
      "map_option entry_term (?L (entry_index (hd ?rest))) \<noteq> Some (entry_term (hd ?rest))"
      "log (n_storage m) = ?L |` {..<entry_index (hd ?rest)} \<or>
       log (n_storage m) = ?L \<and> ?L (entry_index (hd ?rest)) = None"
    using scan_spec [OF assms(1,2) ring lo assms(6)] by (auto simp: Let_def)
  have "hd ?rest \<in> set es" using m(1) by (metis hd_drop_conv_nth nth_mem)
  have dom: "dom ?L = {lo<..?hi}" using ok by (simp add: log_state_ok_def)
  have "?L |` {..<entry_index (hd ?rest)} = ?L" if "?L (entry_index (hd ?rest)) = None"
  proof -
    have "entry_index (hd ?rest) \<notin> {lo<..?hi}" using that dom by (metis domIff)
    then have "dom ?L \<subseteq> {..<entry_index (hd ?rest)}" using lo \<open>hd ?rest \<in> set es\<close> dom by auto
    then show ?thesis by (rule restrict_below)
  qed
  then show ?thesis using m \<open>hd ?rest \<in> set es\<close> by auto
qed

lemma apply_append_spec:
  assumes E: "e_store E = S" and inv: "invar (n_storage n)" and ok: "log_state_ok log lo n" and lead: "\<not> is_leader n"
    and es: "es = append_entries_iter (unat (ae_entry_count msg)) payload"
    and cons: "consecutive_from (Suc (unat (ae_prev_log_index msg))) es"
    and prev: "lo \<le> ae_prev_log_index msg" "ae_prev_log_index msg \<le> fst (n_last_log n)"
    and run: "apply_append_entries E msg payload n = (Inr (), n')"
  shows "invar (n_storage n') \<and> hs (n_storage n') = hs (n_storage n) \<and> log_state_ok log lo n' \<and>
    log (n_storage n') = reference_append (log (n_storage n)) es \<and>
    n_soft n' = n_soft n \<and> n_hard n' = n_hard n \<and> n_outbox n' = n_outbox n"
proof -
  let ?c = "unat (ae_entry_count msg)" and ?L = "log (n_storage n)"
  have ring: "ring_sound log lo n" and dom: "dom ?L = {lo<..fst (n_last_log n)}" using ok by (auto simp: log_state_ok_def)
  have above: "\<forall>e\<in>set es. lo < entry_index e"
    using consecutive_from_ge [OF cons] prev(1) by (fastforce simp: word_le_nat_alt word_less_nat_alt)
  obtain r m where scan: "scan_incoming E ''AppendEntries entries not contiguous with prev_log_index''
       (sat_add (ae_prev_log_index msg) 1) 0 (map entry_pos es) n = (Inr r, m)"
    using run by (auto simp: apply_append_entries_def Let_def bind_op_ok_iff es)
  note m = scan_spec [OF E inv ring above scan]
  have frame: "n_soft m = n_soft n" "n_hard m = n_hard n" "n_outbox m = n_outbox n"
    using m log_only_fields by blast+
  show ?thesis
  proof (cases r)
    case None
    then have "n' = m" using run scan by (auto simp: apply_append_entries_def Let_def es bind_op_def)
    then show ?thesis using m None ok frame by (auto simp: log_state_ok_def)
  next
    case (Some k)
    let ?rest = "drop k es"
    have w: "k < length es" "log (n_storage m) = ?L |` {..<entry_index (hd ?rest)}"
        "\<exists>e\<in>set es. map_option entry_term (?L (entry_index e)) \<noteq> Some (entry_term e)"
      using scan_window [OF E inv ok cons prev(1) scan [unfolded Some]] by auto
    have ref: "reference_append ?L es = log (n_storage m) ++ entry_map ?rest"
      using m Some w(2) by (auto simp: Let_def)
    have "k < ?c" using w(1) append_entries_iter_length [of ?c payload] by (simp add: es)
    then have tail: "bind_op (with_storage (so_append_entries (e_store E) ?rest) m) (\<lambda>_ n.
        activate_latest_config E (map entry_payload ?rest) (set_last_from (map entry_pos ?rest)
          (n\<lparr>n_log_metadata := arena_append_all (map entry_pos ?rest) (n_log_metadata n)\<rparr>))) = (Inr (), n')"
      using run scan Some by (simp add: apply_append_entries_def Let_def es bind_op_def)
    have "\<not> is_leader m" using lead frame by (simp add: is_leader_def)
    then have t: "invar (n_storage n') \<and> hs (n_storage n') = hs (n_storage m) \<and> ring_sound log lo n' \<and>
        log (n_storage n') = log (n_storage m) ++ entry_map ?rest \<and> n_last_log n' = entry_pos (last ?rest) \<and>
        n_soft n' = n_soft m \<and> n_hard n' = n_hard m \<and> n_outbox n' = n_outbox m"
      using m w(1,2) by (intro append_tail_spec [OF E _ _ _ _ consecutive_from_drop [OF cons] _ tail]) auto
    have "dom (reference_append ?L es) = {lo<..entry_index (last es)} \<and>
        reference_append ?L es (entry_index (last es)) = Some (last es) \<and> lo < entry_index (last es)"
      using reference_append_dom [OF cons dom _ _ w(3)] prev by (simp add: word_le_nat_alt)
    moreover have "hs (n_storage m) = hs (n_storage n)" using m by blast
    ultimately show ?thesis using t w(1) ref frame by (simp add: log_state_ok_def less_imp_le)
  qed
qed

end

section \<open>The handler\<close>

text \<open>The consistency check, on the durable log.\<close>

definition prev_matches :: "('s \<Rightarrow> log_index \<rightharpoonup> log_entry) \<Rightarrow> append_entries \<Rightarrow> 's raft_node \<Rightarrow> bool" where
  "prev_matches log msg n \<longleftrightarrow>
    (case arena_get_term (n_log_metadata n) (ae_prev_log_index msg) of
       Some t \<Rightarrow> t = ae_prev_log_term msg
     | None \<Rightarrow> ae_prev_log_index msg = 0 \<or>
        (case log (n_storage n) (ae_prev_log_index msg) of
           Some e \<Rightarrow> entry_term e = ae_prev_log_term msg
         | None \<Rightarrow> n_last_log n = (ae_prev_log_index msg, ae_prev_log_term msg)))"

lemma prev_matches_cong:
  "log (n_storage a) = log (n_storage b) \<Longrightarrow> n_last_log a = n_last_log b \<Longrightarrow>
     n_log_metadata a = n_log_metadata b \<Longrightarrow> prev_matches log msg a = prev_matches log msg b"
  by (simp only: prev_matches_def)

context raft_storage
begin

lemma check_prev_spec:
  assumes "e_store E = S" and "invar (n_storage n)"
    and "check_prev E (ae_prev_log_index msg) (ae_prev_log_term msg) n = (Inr b, n')"
  shows "b = prev_matches log msg n \<and> n_soft n' = n_soft n \<and> n_hard n' = n_hard n \<and> n_outbox n' = n_outbox n \<and>
    invar (n_storage n') \<and> hs (n_storage n') = hs (n_storage n) \<and> log (n_storage n') = log (n_storage n) \<and>
    n_last_log n' = n_last_log n \<and> n_log_metadata n' = n_log_metadata n"
proof (cases "arena_get_term (n_log_metadata n) (ae_prev_log_index msg)")
  case None
  show ?thesis
  proof (cases "ae_prev_log_index msg = 0")
    case False
    obtain r s where s: "so_term_at S (ae_prev_log_index msg) (n_storage n) = (r, s)" by fastforce
    obtain v where r: "r = Inr v" and n': "n' = n\<lparr>n_storage := s\<rparr>"
      and b: "b = (case v of Some t \<Rightarrow> t = ae_prev_log_term msg
          | None \<Rightarrow> fst (n_last_log n) = ae_prev_log_index msg \<and> snd (n_last_log n) = ae_prev_log_term msg)"
      using assms(1,3) None False s
      by (cases r) (auto simp: check_prev_def with_storage_def bind_op_def cong: option.case_cong)
    have v: "v = map_option entry_term (log (n_storage n) (ae_prev_log_index msg))"
      and keep: "invar s" "hs s = hs (n_storage n)" "log s = log (n_storage n)"
      using term_at [OF assms(2) s] r by auto
    have "b = prev_matches log msg n"
      using False None unfolding b v prev_matches_def by (simp add: prod_eq_iff split: option.split)
    then show ?thesis by (simp add: n' keep)
  qed (use assms None in \<open>auto simp: check_prev_def prev_matches_def\<close>)
next
  case (Some t)
  then show ?thesis using assms by (auto simp: check_prev_def prev_matches_def)
qed

lemma prev_matches_le:
  assumes "log_state_ok log lo n" and "prev_matches log msg n" and "lo \<le> ae_prev_log_index msg"
  shows "ae_prev_log_index msg \<le> fst (n_last_log n)"
proof -
  let ?p = "ae_prev_log_index msg"
  have ok: "ring_sound log lo n" "lo \<le> fst (n_last_log n)" "dom (log (n_storage n)) = {lo<..fst (n_last_log n)}"
    using assms(1) by (auto simp: log_state_ok_def)
  consider "?p = lo" | "?p = fst (n_last_log n)" | "?p \<in> dom (log (n_storage n))" | "?p = 0"
  proof (cases "lo < ?p")
    case True
    then show ?thesis
      using assms(2) ok(1) that by (fastforce simp: prev_matches_def ring_sound_def split: option.splits)
  qed (use assms(3) that in auto)
  then show ?thesis using ok by cases auto
qed

text \<open>Adopting the sender's term and following it leaves the log alone.\<close>

lemma follow_spec:
  assumes "e_store E = S" and "invar (n_storage n)" and "log_state_ok log lo n"
    and "(if t > node_term n then step_down E t n else (Inr (), n)) = (Inr (), m)"
  shows "invar (n_storage (follow E l m)) \<and> log_state_ok log lo (follow E l m) \<and> \<not> is_leader (follow E l m) \<and>
    log (n_storage (follow E l m)) = log (n_storage n) \<and> n_last_log (follow E l m) = n_last_log n \<and>
    prev_matches log msg (follow E l m) = prev_matches log msg n"
proof -
  let ?h = "\<lparr>current_term = t, voted_for = None\<rparr>"
  have m: "invar (n_storage m) \<and> log (n_storage m) = log (n_storage n) \<and>
      n_last_log m = n_last_log n \<and> n_log_metadata m = n_log_metadata n"
  proof (cases "t > node_term n")
    case True
    then have m: "step_down E t n = (Inr (), m)" using assms(4) by simp
    obtain r s where s: "so_save_hard_state S ?h (n_storage n) = (r, s)" by fastforce
    show ?thesis
      using save_hs [OF assms(2) s] step_down_fields [of E t n] unfolding m by (simp add: assms(1) s)
  qed (use assms(2,4) in auto)
  then have "log_state_ok log lo (follow E l m)"
    using assms(3) log_state_ok_cong [of log "follow E l m" n lo] by (simp add: follow_def)
  moreover have "prev_matches log msg (follow E l m) = prev_matches log msg n"
    using m by (intro prev_matches_cong) (simp_all add: follow_def)
  ultimately show ?thesis using m by (simp add: follow_def is_leader_def)
qed

lemma handle_append_spec:
  assumes E: "e_store E = S" and inv: "invar (n_storage n)" and ok: "log_state_ok log lo n"
    and prev: "lo \<le> ae_prev_log_index msg"
    and es: "es = append_entries_iter (unat (ae_entry_count msg)) payload"
    and cons: "consecutive_from (Suc (unat (ae_prev_log_index msg))) es"
    and run: "handle_append_entries E from msg payload n = (Inr (), n')"
  shows "invar (n_storage n') \<and> log_state_ok log lo n' \<and>
    log (n_storage n') = (if ae_term msg < node_term n \<or> \<not> prev_matches log msg n then log (n_storage n)
       else reference_append (log (n_storage n)) es)"
proof (cases "ae_term msg < node_term n")
  case True
  then have "n' = snd (send_message E from (append_resp msg n False (fst (n_last_log n))) n)"
    using run by (simp add: handle_append_entries_def append_handler_def)
  then show ?thesis using inv ok log_state_ok_cong [of log n' n] True by simp
next
  case False
  let ?t = "ae_term msg" and ?f = "follow E (ae_leader_id msg)"
  obtain m b m' where m: "(if ?t > node_term n then step_down E ?t n else (Inr (), n)) = (Inr (), m)"
    and chk: "check_prev E (ae_prev_log_index msg) (ae_prev_log_term msg) (?f m) = (Inr b, m')"
    using run False by (auto simp: handle_append_entries_def append_handler_def bind_op_ok_iff Let_def)
  note f = follow_spec [OF E inv ok m, of "ae_leader_id msg" msg]
  note c = check_prev_spec [OF E conjunct1 [OF f] chk]
  have ok': "log_state_ok log lo m'" using f c log_state_ok_cong [of log m' "?f m"] by simp
  have lead: "\<not> is_leader m'" using f c by (simp add: is_leader_def)
  show ?thesis
  proof (cases b)
    case False
    then have "n' = snd (send_message E from (append_resp msg m' False
        (min (fst (n_last_log m')) (sat_sub (ae_prev_log_index msg) 1))) m')"
      using run m chk \<open>\<not> ?t < node_term n\<close> by (simp add: handle_append_entries_def append_handler_def bind_op_def Let_def)
    then show ?thesis using False c f ok' log_state_ok_cong [of log n' m'] by simp
  next
    case True
    then obtain m'' where app: "apply_append_entries E msg payload m' = (Inr (), m'')"
      and frame: "n_storage n' = n_storage m''" "n_last_log n' = n_last_log m''" "n_log_metadata n' = n_log_metadata m''"
      using run m chk False
      by (auto simp: handle_append_entries_def append_handler_def bind_op_ok_iff Let_def split: if_splits)
    have "prev_matches log msg m'" using c f True prev_matches_cong [of log m' "?f m" msg] by simp
    from prev_matches_le [OF ok' this prev]
    have "invar (n_storage m'') \<and> log_state_ok log lo m'' \<and> log (n_storage m'') = reference_append (log (n_storage m')) es"
      using apply_append_spec [OF E _ ok' lead es cons prev _ app] c by blast
    then show ?thesis using frame c f True False log_state_ok_cong [of log n' m''] by simp
  qed
qed

end

text \<open>A follower with two entries, and a batch of a later term that replaces the second.\<close>

definition sample_follower :: "mem_storage raft_node" where
  "sample_follower = (sample_node 2)\<lparr>n_storage := mem_empty\<lparr>ms_entries := sample_log\<rparr>, n_last_log := (2, 1)\<rparr>"

definition sample_append :: append_entries where
  "sample_append = \<lparr>ae_term = 2, ae_leader_id = 1, ae_prev_log_index = 1, ae_prev_log_term = 1,
     ae_leader_commit = 0, ae_entry_count = 1, ae_pad = 0\<rparr>"

definition sample_batch :: bytes where
  "sample_batch = enc_entry_header \<lparr>eh_term = 2, eh_index = 2, eh_payload_len = 0, eh_pad = 0\<rparr>"

lemma sample_batch_iter:
  "append_entries_iter (Suc 0) sample_batch = [\<lparr>entry_term = 2, entry_index = 2, entry_payload = []\<rparr>]"
  by (simp add: sample_batch_def Let_def)

lemma sample_follower_ok:
  "raft_storage (e_store sample_env) mem_hs mem_log mem_ok \<and> mem_ok (n_storage sample_follower) \<and>
   log_state_ok mem_log 0 sample_follower \<and> prev_matches mem_log sample_append sample_follower \<and>
   node_term sample_follower \<le> ae_term sample_append"
proof -
  note samples = sample_follower_def sample_node_def sample_config_def fresh_node_def sample_log_def
  have "arena_ok (arena_new 8192)" by (rule arena_new_ok) simp
  then have "log_state_ok mem_log 0 sample_follower"
    by (auto simp: log_state_ok_def ring_sound_def samples mem_log_def map_le_def dom_def word_nat split: if_splits)
  moreover have "prev_matches mem_log sample_append sample_follower"
    by (simp add: prev_matches_def samples mem_log_def sample_append_def)
  ultimately show ?thesis
    using mem.raft_storage_axioms by (simp add: sample_env_def samples mem_ok_def default_hard_state_def)
qed

lemma sample_append_runs:
  "fst (handle_append_entries sample_env 1 sample_append sample_batch sample_follower) = Inr ()"
proof -
  note samples = sample_follower_def sample_node_def sample_config_def fresh_node_def sample_log_def
    sample_append_def sample_env_def default_hard_state_def mem_empty_def
  note store = mem_ops_def mem_save_hard_state_def mem_append_entries_def mem_truncate_suffix_def
    mem_last_log_position_def default_term_at_def mem_entry_at_def with_storage_def
  show ?thesis
    by (simp add: handle_append_entries_def append_handler_def samples store bind_op_def step_down_def Let_def
        demote_to_follower_keep_term_def inc_step_downs_def pm_clear_def follow_def check_prev_def
        apply_append_entries_def sample_batch_iter local_term_at_def storage_truncate_def
        activate_latest_config_def config_change_decode_def set_last_from_def sat_add_def
        del: append_entries_iter.simps)
qed





end
