(* ===== verification/Dispatch_Wire.thy ===== *)
theory Dispatch_Wire
  imports Raft_Types Wire_Props
begin

text \<open>
  The frames of the custom-message layer, \<open>src/dispatch/view.rs\<close> and
  \<open>src/dispatch/response.rs\<close>: the request and the response header, the checks the
  parsers make, the accessors of a parsed view and the encoder of a response.
\<close>

section \<open>Headers\<close>

definition RAFT_DISPATCH_MAGIC :: u32 where
  "RAFT_DISPATCH_MAGIC = 0x44535054"

definition RAFT_DISPATCH_VERSION :: u8 where
  "RAFT_DISPATCH_VERSION = 1"

definition RAFT_DISPATCH_RESPONSE_MAGIC :: u32 where
  "RAFT_DISPATCH_RESPONSE_MAGIC = 0x44525350"

definition RAFT_DISPATCH_RESPONSE_VERSION :: u8 where
  "RAFT_DISPATCH_RESPONSE_VERSION = 1"

record dispatch_frame_header =
  dh_magic :: u32
  dh_version :: u8
  dh_command :: u8
  dh_scope :: u8
  dh_ack_policy :: u8
  dh_fail_policy :: u8
  dh_trace :: u8
  dh_pad :: bytes
  dh_tx_id :: u64
  dh_timeout_ms :: u32
  dh_body_len :: u32

record dispatch_response_header =
  drh_magic :: u32
  drh_version :: u8
  drh_command :: u8
  drh_kind :: u8
  drh_pad :: u8
  drh_tx_id :: u64
  drh_body_len :: u32

abbreviation DISPATCH_HEADER_SIZE :: nat where
  "DISPATCH_HEADER_SIZE \<equiv> 28"

abbreviation DISPATCH_RESPONSE_HEADER_SIZE :: nat where
  "DISPATCH_RESPONSE_HEADER_SIZE \<equiv> 20"

definition enc_dispatch_header :: "dispatch_frame_header \<Rightarrow> bytes" where
  "enc_dispatch_header h = le_bytes 4 (dh_magic h) @ [dh_version h, dh_command h, dh_scope h, dh_ack_policy h,
     dh_fail_policy h, dh_trace h] @ dh_pad h @ le_bytes 8 (dh_tx_id h) @ le_bytes 4 (dh_timeout_ms h) @
     le_bytes 4 (dh_body_len h)"

definition dec_dispatch_header :: "bytes \<Rightarrow> dispatch_frame_header" where
  "dec_dispatch_header b = \<lparr>dh_magic = le_word (fld 0 4 b), dh_version = fld_u8 4 b, dh_command = fld_u8 5 b,
     dh_scope = fld_u8 6 b, dh_ack_policy = fld_u8 7 b, dh_fail_policy = fld_u8 8 b, dh_trace = fld_u8 9 b,
     dh_pad = fld 10 2 b, dh_tx_id = le_word (fld 12 8 b), dh_timeout_ms = le_word (fld 20 4 b),
     dh_body_len = le_word (fld 24 4 b)\<rparr>"

definition enc_response_header :: "dispatch_response_header \<Rightarrow> bytes" where
  "enc_response_header h = le_bytes 4 (drh_magic h) @ [drh_version h, drh_command h, drh_kind h, drh_pad h] @
     le_bytes 8 (drh_tx_id h) @ le_bytes 4 (drh_body_len h)"

definition dec_response_header :: "bytes \<Rightarrow> dispatch_response_header" where
  "dec_response_header b = \<lparr>drh_magic = le_word (fld 0 4 b), drh_version = fld_u8 4 b, drh_command = fld_u8 5 b,
     drh_kind = fld_u8 6 b, drh_pad = fld_u8 7 b, drh_tx_id = le_word (fld 8 8 b),
     drh_body_len = le_word (fld 16 4 b)\<rparr>"

section \<open>Views\<close>

text \<open>A parsed frame keeps the whole byte string; its accessors read the header again.\<close>

definition parse_dispatch_view :: "bytes \<Rightarrow> bytes result" where
  "parse_dispatch_view frame =
    (if length frame < DISPATCH_HEADER_SIZE then Inl (Dispatch ''short dispatch frame header'')
     else let h = dec_dispatch_header frame; rest = drop DISPATCH_HEADER_SIZE frame in
       if dh_magic h \<noteq> RAFT_DISPATCH_MAGIC then Inl (Dispatch ''invalid dispatch magic'')
       else if dh_version h \<noteq> RAFT_DISPATCH_VERSION
       then Inl (Dispatch (''unsupported dispatch version '' @ dec_str (unat (dh_version h))))
       else if length rest < unat (dh_body_len h) then Inl (Dispatch ''dispatch body length mismatch'')
       else if dh_scope h > 4 then Inl (Dispatch ''unknown dispatch scope'')
       else if dh_ack_policy h > 4 then Inl (Dispatch ''unknown dispatch ack policy'')
       else if dh_fail_policy h > 4 then Inl (Dispatch ''unknown dispatch fail policy'')
       else Inr frame)"

definition view_body :: "bytes \<Rightarrow> bytes" where
  "view_body frame = drop DISPATCH_HEADER_SIZE frame"

datatype dispatch_response_kind = Accepted | Rejected | ProgressKind | FailedKind

definition kind_byte :: "dispatch_response_kind \<Rightarrow> u8" where
  "kind_byte k = (case k of Accepted \<Rightarrow> 0 | Rejected \<Rightarrow> 1 | ProgressKind \<Rightarrow> 2 | FailedKind \<Rightarrow> 3)"

definition kind_of_byte :: "u8 \<Rightarrow> dispatch_response_kind" where
  "kind_of_byte b = (if b = 0 then Accepted else if b = 1 then Rejected else if b = 2 then ProgressKind else FailedKind)"

record dispatch_response =
  dr_tx_id :: u64
  dr_command :: u8
  dr_kind :: dispatch_response_kind
  dr_payload :: bytes

definition parse_response_view :: "bytes \<Rightarrow> bytes result" where
  "parse_response_view frame =
    (if length frame < DISPATCH_RESPONSE_HEADER_SIZE then Inl (Dispatch ''short dispatch response header'')
     else let h = dec_response_header frame; rest = drop DISPATCH_RESPONSE_HEADER_SIZE frame in
       if drh_magic h \<noteq> RAFT_DISPATCH_RESPONSE_MAGIC then Inl (Dispatch ''invalid dispatch response magic'')
       else if drh_version h \<noteq> RAFT_DISPATCH_RESPONSE_VERSION
       then Inl (Dispatch (''unsupported dispatch response version '' @ dec_str (unat (drh_version h))))
       else if length rest < unat (drh_body_len h) then Inl (Dispatch ''dispatch response body length mismatch'')
       else if drh_kind h > 3 then Inl (Dispatch ''unknown dispatch response kind'')
       else Inr frame)"

text \<open>The response a view stands for.\<close>

definition view_response :: "bytes \<Rightarrow> dispatch_response" where
  "view_response frame =
    (let h = dec_response_header frame in
     \<lparr>dr_tx_id = drh_tx_id h, dr_command = drh_command h, dr_kind = kind_of_byte (drh_kind h),
      dr_payload = drop DISPATCH_RESPONSE_HEADER_SIZE frame\<rparr>)"

definition encode_dispatch_response :: "dispatch_response \<Rightarrow> bytes result" where
  "encode_dispatch_response r =
    (if length (dr_payload r) \<ge> 2 ^ 32 then Inl (Dispatch ''dispatch response payload length exceeds u32 wire field'')
     else Inr (enc_response_header \<lparr>drh_magic = RAFT_DISPATCH_RESPONSE_MAGIC,
         drh_version = RAFT_DISPATCH_RESPONSE_VERSION, drh_command = dr_command r, drh_kind = kind_byte (dr_kind r),
         drh_pad = 0, drh_tx_id = dr_tx_id r, drh_body_len = word_of_nat (length (dr_payload r))\<rparr> @ dr_payload r))"

section \<open>Round trips\<close>

lemma enc_response_header_length [simp]: "length (enc_response_header h) = 20"
  by (simp add: enc_response_header_def)

lemma dec_enc_response_header [simp]: "dec_response_header (enc_response_header h @ rest) = h"
  by (simp add: dec_response_header_def enc_response_header_def fld_def fld_u8_def nth_append)

lemma kind_of_byte_kind_byte [simp]: "kind_of_byte (kind_byte k) = k" "kind_byte k \<le> 3"
  by (cases k; simp add: kind_byte_def kind_of_byte_def)+

text \<open>
  A response of the custom-message layer survives the wire: what is encoded
  is accepted by the parser, and the parsed view has the transaction, the command,
  the kind and the payload of the response.  The encoder fails exactly for
  payloads whose length does not fit the length field.
\<close>

lemma dispatch_response_roundtrip:
  "if length (dr_payload r) < 2 ^ 32
   then \<exists>frame. encode_dispatch_response r = Inr frame \<and> parse_response_view frame = Inr frame \<and>
     view_response frame = r
   else \<exists>e. encode_dispatch_response r = Inl (Dispatch e)"
proof (cases "length (dr_payload r) < 2 ^ 32")
  case True
  then have "unat (word_of_nat (length (dr_payload r)) :: u32) = length (dr_payload r)"
    by (simp add: unat_of_nat)
  then show ?thesis
    using True
    by (simp add: encode_dispatch_response_def parse_response_view_def view_response_def Let_def
        RAFT_DISPATCH_RESPONSE_MAGIC_def RAFT_DISPATCH_RESPONSE_VERSION_def not_less)
qed (simp add: encode_dispatch_response_def not_less)

end
