(* ===== verification/Dispatch_Tx.thy ===== *)
theory Dispatch_Tx
  imports Dispatch_Wire
begin

text \<open>
  The transactions of the custom-message layer: scopes, policies and options
  (\<open>src/dispatch/spec.rs\<close>), the envelope (\<open>src/dispatch/builder.rs\<close>), the state of a
  transaction and its evaluation (\<open>src/dispatch/tx/state.rs\<close>) and the operations of
  its two ends (\<open>src/dispatch/tx/handle.rs\<close>, \<open>src/dispatch/tx.rs\<close>).  The codecs of
  the parameters and of the responses are functions of the application, so the
  body of an envelope and the decoding of an accept are arguments.  A parked
  waiter is a number; \<open>ds_woken\<close> lists the waiters that were woken.
\<close>

section \<open>Scopes, policies and options\<close>

datatype dispatch_scope = ScopeAll | Others | Followers | ScopeLeader | LocalOnly

datatype dispatch_node_role = LeaderRole | FollowerRole

record dispatch_route =
  route_role :: dispatch_node_role
  is_origin :: bool

fun scope_allows :: "dispatch_scope \<Rightarrow> dispatch_route \<Rightarrow> bool" where
  "scope_allows ScopeAll route = True"
| "scope_allows Others route = (\<not> is_origin route)"
| "scope_allows Followers route = (route_role route = FollowerRole)"
| "scope_allows ScopeLeader route = (route_role route = LeaderRole)"
| "scope_allows LocalOnly route = is_origin route"

datatype dispatch_ack_policy = AckAll | AckQuorum | AtLeast | Percent | BestEffort

datatype dispatch_fail_policy = AllowFailures | NoFailures | MaxFailures | MaxFailurePercent | FailFast

record dispatch_ack_options =
  ack_policy :: dispatch_ack_policy
  ack_count :: u16
  ack_percent :: u8

record dispatch_fail_options =
  fail_policy :: dispatch_fail_policy
  fail_count :: u16
  fail_percent :: u8

record dispatch_options =
  opt_scope :: dispatch_scope
  opt_ack :: dispatch_ack_options
  opt_fail :: dispatch_fail_options
  opt_timeout :: nat
  opt_trace :: bool

definition default_dispatch_options :: dispatch_options where
  "default_dispatch_options = \<lparr>opt_scope = ScopeAll,
     opt_ack = \<lparr>ack_policy = AckQuorum, ack_count = 1, ack_percent = 100\<rparr>,
     opt_fail = \<lparr>fail_policy = AllowFailures, fail_count = 0, fail_percent = 0\<rparr>,
     opt_timeout = 2000, opt_trace = False\<rparr>"

definition with_ack_count :: "u16 \<Rightarrow> dispatch_options \<Rightarrow> dispatch_options" where
  "with_ack_count c opts = opts\<lparr>opt_ack := (opt_ack opts)\<lparr>ack_count := max c 1\<rparr>\<rparr>"

definition with_ack_percent :: "u8 \<Rightarrow> dispatch_options \<Rightarrow> dispatch_options" where
  "with_ack_percent p opts = opts\<lparr>opt_ack := (opt_ack opts)\<lparr>ack_percent := min (max p 1) 100\<rparr>\<rparr>"

definition with_fail_percent :: "u8 \<Rightarrow> dispatch_options \<Rightarrow> dispatch_options" where
  "with_fail_percent p opts = opts\<lparr>opt_fail := (opt_fail opts)\<lparr>fail_percent := min p 100\<rparr>\<rparr>"

definition scope_byte :: "dispatch_scope \<Rightarrow> u8" where
  "scope_byte s = (case s of ScopeAll \<Rightarrow> 0 | Others \<Rightarrow> 1 | Followers \<Rightarrow> 2 | ScopeLeader \<Rightarrow> 3 | LocalOnly \<Rightarrow> 4)"

definition scope_of_byte :: "u8 \<Rightarrow> dispatch_scope" where
  "scope_of_byte b = (if b = 0 then ScopeAll else if b = 1 then Others else if b = 2 then Followers
     else if b = 3 then ScopeLeader else if b = 4 then LocalOnly else ScopeAll)"

definition ack_byte :: "dispatch_ack_policy \<Rightarrow> u8" where
  "ack_byte p = (case p of AckAll \<Rightarrow> 0 | AckQuorum \<Rightarrow> 1 | AtLeast \<Rightarrow> 2 | Percent \<Rightarrow> 3 | BestEffort \<Rightarrow> 4)"

definition ack_of_byte :: "u8 \<Rightarrow> dispatch_ack_policy" where
  "ack_of_byte b = (if b = 0 then AckAll else if b = 1 then AckQuorum else if b = 2 then AtLeast
     else if b = 3 then Percent else if b = 4 then BestEffort else AckQuorum)"

definition fail_byte :: "dispatch_fail_policy \<Rightarrow> u8" where
  "fail_byte p = (case p of AllowFailures \<Rightarrow> 0 | NoFailures \<Rightarrow> 1 | MaxFailures \<Rightarrow> 2 | MaxFailurePercent \<Rightarrow> 3 | FailFast \<Rightarrow> 4)"

definition fail_of_byte :: "u8 \<Rightarrow> dispatch_fail_policy" where
  "fail_of_byte b = (if b = 0 then AllowFailures else if b = 1 then NoFailures else if b = 2 then MaxFailures
     else if b = 3 then MaxFailurePercent else if b = 4 then FailFast else AllowFailures)"

section \<open>Transaction identifiers and envelopes\<close>

definition TX_ID_SEED_MIX :: u64 where
  "TX_ID_SEED_MIX = 0x9E3779B97F4A7C15"

definition TX_ID_SEQ_MASK :: u64 where
  "TX_ID_SEQ_MASK = 2 ^ 56 - 1"

record dispatch_spec =
  sp_command :: u8
  sp_defaults :: dispatch_options
  sp_tx_ids :: u64

text \<open>A new specification; the argument is the value of the process-wide epoch counter.\<close>

definition dispatch_spec_new :: "u64 \<Rightarrow> u8 \<Rightarrow> dispatch_spec" where
  "dispatch_spec_new epoch command = \<lparr>sp_command = command, sp_defaults = default_dispatch_options,
     sp_tx_ids = epoch * TX_ID_SEED_MIX\<rparr>"

definition next_tx_id :: "dispatch_spec \<Rightarrow> u64 \<times> dispatch_spec" where
  "next_tx_id sp = (or (push_bit 56 (ucast (sp_command sp))) (and (sp_tx_ids sp) TX_ID_SEQ_MASK),
     sp\<lparr>sp_tx_ids := sp_tx_ids sp + 1\<rparr>)"

record dispatch_envelope =
  en_tx_id :: u64
  en_command :: u8
  en_bytes :: bytes
  en_options :: dispatch_options

definition build_envelope :: "dispatch_options \<Rightarrow> bytes result \<Rightarrow> (dispatch_envelope, dispatch_spec) raft_op" where
  "build_envelope options encoded sp =
    (case encoded of Inl e \<Rightarrow> (Inl e, sp) | Inr body \<Rightarrow>
     if length body \<ge> 2 ^ 32 then (Inl (Dispatch ''dispatch body length exceeds u32 wire field''), sp)
     else case next_tx_id sp of (tx_id, sp) \<Rightarrow>
       (Inr \<lparr>en_tx_id = tx_id, en_command = sp_command sp,
          en_bytes = enc_dispatch_header \<lparr>dh_magic = RAFT_DISPATCH_MAGIC, dh_version = RAFT_DISPATCH_VERSION,
            dh_command = sp_command sp, dh_scope = scope_byte (opt_scope options),
            dh_ack_policy = ack_byte (ack_policy (opt_ack options)),
            dh_fail_policy = fail_byte (fail_policy (opt_fail options)),
            dh_trace = (if opt_trace options then 1 else 0), dh_pad = [0, 0], dh_tx_id = tx_id,
            dh_timeout_ms = word_of_nat (min (opt_timeout options) (2 ^ 32 - 1)),
            dh_body_len = word_of_nat (length body)\<rparr> @ body,
          en_options = options\<rparr>, sp))"

section \<open>The state of a transaction\<close>

datatype 'r dispatch_peer_state =
  Pending | Progress bytes | PeerAccepted 'r | PeerRejected bytes | PeerFailed bytes | Disconnected

datatype dispatch_failure = TxTimeout | LostLeadership | Impossible string | TxFailed string

fun failure_error :: "dispatch_failure \<Rightarrow> raft_error" where
  "failure_error TxTimeout = Dispatch ''dispatch timed out''"
| "failure_error LostLeadership = NotLeader None"
| "failure_error (Impossible msg) = Dispatch msg"
| "failure_error (TxFailed msg) = Dispatch msg"

datatype 'r dispatch_completion =
  Succeeded "(peer_id \<times> 'r dispatch_peer_state) list" | Failed dispatch_failure

record 'r dispatch_state =
  ds_tx_id :: u64
  ds_command :: u8
  ds_options :: dispatch_options
  ds_peers :: "(peer_id \<times> 'r dispatch_peer_state) list"
  ds_completion :: "'r dispatch_completion option"
  ds_wakers :: "nat list"
  ds_start :: nat
  ds_woken :: "nat list"

definition wake_all :: "'r dispatch_state \<Rightarrow> 'r dispatch_state" where
  "wake_all s = s\<lparr>ds_woken := ds_woken s @ ds_wakers s, ds_wakers := []\<rparr>"

definition resolve :: "'r dispatch_completion \<Rightarrow> 'r dispatch_state \<Rightarrow> 'r dispatch_state" where
  "resolve c s = wake_all (s\<lparr>ds_completion := Some c\<rparr>)"

definition tx_deadline :: "'r dispatch_state \<Rightarrow> nat option" where
  "tx_deadline s = (if opt_timeout (ds_options s) = 0 then None else Some (ds_start s + opt_timeout (ds_options s)))"

definition check_timeout :: "nat \<Rightarrow> 'r dispatch_state \<Rightarrow> 'r dispatch_state" where
  "check_timeout now s =
    (if ds_completion s \<noteq> None then s
     else case tx_deadline s of None \<Rightarrow> s | Some d \<Rightarrow> if now \<ge> d then resolve (Failed TxTimeout) s else s)"

fun is_accepted :: "'r dispatch_peer_state \<Rightarrow> bool" where
  "is_accepted (PeerAccepted _) = True"
| "is_accepted _ = False"

fun is_failed :: "'r dispatch_peer_state \<Rightarrow> bool" where
  "is_failed (PeerRejected _) = True"
| "is_failed (PeerFailed _) = True"
| "is_failed _ = False"

fun is_pending :: "'r dispatch_peer_state \<Rightarrow> bool" where
  "is_pending Pending = True"
| "is_pending (Progress _) = True"
| "is_pending _ = False"

fun is_active :: "'r dispatch_peer_state \<Rightarrow> bool" where
  "is_active Disconnected = False"
| "is_active _ = True"

definition count_peers :: "('r dispatch_peer_state \<Rightarrow> bool) \<Rightarrow> (peer_id \<times> 'r dispatch_peer_state) list \<Rightarrow> nat" where
  "count_peers P ps = length (filter (P \<circ> snd) ps)"

definition required_accepts :: "dispatch_options \<Rightarrow> (peer_id \<times> 'r dispatch_peer_state) list \<Rightarrow> nat" where
  "required_accepts options ps =
    (let active = count_peers is_active ps in
     if active = 0 then 0
     else case ack_policy (opt_ack options) of
       AckAll \<Rightarrow> active
     | AckQuorum \<Rightarrow> active div 2 + 1
     | AtLeast \<Rightarrow> min active (max (unat (ack_count (opt_ack options))) 1)
     | Percent \<Rightarrow> max 1 ((active * min (max (unat (ack_percent (opt_ack options))) 1) 100 + 99) div 100)
     | BestEffort \<Rightarrow> 1)"

definition USIZE_MAX :: nat where
  "USIZE_MAX = 2 ^ 64 - 1"

definition allowed_failures :: "dispatch_options \<Rightarrow> (peer_id \<times> 'r dispatch_peer_state) list \<Rightarrow> nat" where
  "allowed_failures options ps =
    (case fail_policy (opt_fail options) of
       AllowFailures \<Rightarrow> USIZE_MAX
     | NoFailures \<Rightarrow> 0
     | FailFast \<Rightarrow> 0
     | MaxFailures \<Rightarrow> unat (fail_count (opt_fail options))
     | MaxFailurePercent \<Rightarrow> count_peers is_active ps * min (unat (fail_percent (opt_fail options))) 100 div 100)"

definition evaluate :: "'r dispatch_state \<Rightarrow> 'r dispatch_state" where
  "evaluate s =
    (if ds_completion s \<noteq> None then s
     else let ps = ds_peers s; required = required_accepts (ds_options s) ps;
              accepted = count_peers is_accepted ps; failed = count_peers is_failed ps;
              pending = count_peers is_pending ps; allowed = allowed_failures (ds_options s) ps in
       if required = 0 \<or> accepted \<ge> required then resolve (Succeeded ps) s
       else if failed > allowed
       then resolve (Failed (TxFailed (''dispatch failure policy exceeded: failed='' @ dec_str failed @
              '', allowed='' @ dec_str allowed))) s
       else if accepted + pending < required
       then resolve (Failed (Impossible (''dispatch can no longer reach required accepts: accepted='' @ dec_str accepted @
              '', pending='' @ dec_str pending @ '', required='' @ dec_str required))) s
       else s)"

definition begin_transaction :: "nat \<Rightarrow> u64 \<Rightarrow> u8 \<Rightarrow> dispatch_options \<Rightarrow> peer_id list \<Rightarrow> 'r dispatch_state" where
  "begin_transaction now tx_id command options targets =
     evaluate \<lparr>ds_tx_id = tx_id, ds_command = command, ds_options = options,
       ds_peers = map (\<lambda>p. (p, Pending)) targets, ds_completion = None, ds_wakers = [],
       ds_start = now, ds_woken = []\<rparr>"

section \<open>The operations\<close>

fun set_slot :: "peer_id \<Rightarrow> ('r dispatch_peer_state \<Rightarrow> 'r dispatch_peer_state) \<Rightarrow>
    (peer_id \<times> 'r dispatch_peer_state) list \<Rightarrow> (peer_id \<times> 'r dispatch_peer_state) list option" where
  "set_slot p f [] = None"
| "set_slot p f ((q, st) # ps) =
    (if q = p then Some ((q, f st) # ps) else map_option (Cons (q, st)) (set_slot p f ps))"

definition update_peer_state :: "peer_id \<Rightarrow> ('r dispatch_peer_state \<Rightarrow> 'r dispatch_peer_state) \<Rightarrow>
    (unit, 'r dispatch_state) raft_op" where
  "update_peer_state p f s =
    (if ds_completion s \<noteq> None then (Inr (), s)
     else case set_slot p f (ds_peers s) of
       None \<Rightarrow> (Inl (PeerUnknown p), s)
     | Some ps \<Rightarrow> (Inr (), evaluate (s\<lparr>ds_peers := ps\<rparr>)))"

definition tx_accept :: "peer_id \<Rightarrow> 'r \<Rightarrow> (unit, 'r dispatch_state) raft_op" where
  "tx_accept p v = update_peer_state p (\<lambda>_. PeerAccepted v)"

definition tx_accept_raw :: "(bytes \<Rightarrow> 'r result) \<Rightarrow> peer_id \<Rightarrow> bytes \<Rightarrow> (unit, 'r dispatch_state) raft_op" where
  "tx_accept_raw decode_response p payload s =
    (case decode_response payload of Inl e \<Rightarrow> (Inl e, s) | Inr v \<Rightarrow> tx_accept p v s)"

definition tx_reject :: "peer_id \<Rightarrow> bytes \<Rightarrow> (unit, 'r dispatch_state) raft_op" where
  "tx_reject p reason = update_peer_state p (\<lambda>_. PeerRejected reason)"

definition tx_progress :: "peer_id \<Rightarrow> bytes \<Rightarrow> (unit, 'r dispatch_state) raft_op" where
  "tx_progress p payload = update_peer_state p (\<lambda>current. if is_pending current then Progress payload else current)"

definition tx_fail :: "peer_id \<Rightarrow> bytes \<Rightarrow> (unit, 'r dispatch_state) raft_op" where
  "tx_fail p error = update_peer_state p (\<lambda>_. PeerFailed error)"

definition tx_disconnect :: "peer_id \<Rightarrow> (unit, 'r dispatch_state) raft_op" where
  "tx_disconnect p = update_peer_state p (\<lambda>_. Disconnected)"

definition tx_abort :: "dispatch_failure \<Rightarrow> 'r dispatch_state \<Rightarrow> 'r dispatch_state" where
  "tx_abort f s = (if ds_completion s \<noteq> None then s else resolve (Failed f) s)"

text \<open>The reaction to a response frame of a peer.\<close>

definition on_response :: "(bytes \<Rightarrow> 'r result) \<Rightarrow> peer_id \<Rightarrow> dispatch_response \<Rightarrow> (unit, 'r dispatch_state) raft_op" where
  "on_response decode_response p r =
    (case dr_kind r of
       Accepted \<Rightarrow> tx_accept_raw decode_response p (dr_payload r)
     | Rejected \<Rightarrow> tx_reject p (dr_payload r)
     | ProgressKind \<Rightarrow> tx_progress p (dr_payload r)
     | FailedKind \<Rightarrow> tx_fail p (dr_payload r))"

definition handle_is_ready :: "nat \<Rightarrow> 'r dispatch_state \<Rightarrow> bool \<times> 'r dispatch_state" where
  "handle_is_ready now s = (let s = check_timeout now s in (ds_completion s \<noteq> None, s))"

definition completion_result :: "'r dispatch_completion \<Rightarrow> (peer_id \<times> 'r dispatch_peer_state) list result" where
  "completion_result c = (case c of Succeeded ps \<Rightarrow> Inr ps | Failed f \<Rightarrow> Inl (failure_error f))"

definition handle_try_result :: "nat \<Rightarrow> 'r dispatch_state \<Rightarrow>
    (peer_id \<times> 'r dispatch_peer_state) list result option \<times> 'r dispatch_state" where
  "handle_try_result now s = (let s = check_timeout now s in (map_option completion_result (ds_completion s), s))"

text \<open>One poll of \<open>wait\<close>: \<open>None\<close> is pending, with the waiter parked.\<close>

definition handle_poll_wait :: "nat \<Rightarrow> nat \<Rightarrow> 'r dispatch_state \<Rightarrow>
    (peer_id \<times> 'r dispatch_peer_state) list result option \<times> 'r dispatch_state" where
  "handle_poll_wait now waiter s =
    (case ds_completion s of
       Some c \<Rightarrow> (Some (completion_result c), s)
     | None \<Rightarrow>
         (case tx_deadline s of
            Some d \<Rightarrow>
              if now \<ge> d then (Some (Inl (failure_error TxTimeout)), resolve (Failed TxTimeout) s)
              else (None, s\<lparr>ds_wakers := ds_wakers s @ [waiter]\<rparr>)
          | None \<Rightarrow> (None, s\<lparr>ds_wakers := ds_wakers s @ [waiter]\<rparr>)))"

end
