(* ===== verification/Dispatch_Registry.thy ===== *)
theory Dispatch_Registry
  imports Dispatch_Tx
begin

text \<open>
  The table of custom-message handlers, \<open>src/api/custom_registry.rs\<close>: 256 command
  slots filled before the node starts, frozen by \<open>seal\<close>, and looked up for every
  custom frame.  A handler is code of the application: a function from the frame
  to its result and to the responses it sends.  A poisoned lock is not modelled.
\<close>

type_synonym custom_handler = "bytes \<Rightarrow> unit result \<times> (dispatch_response_kind \<times> bytes) list"

type_synonym handler_table = "(dispatch_scope \<times> custom_handler) option list"

record custom_registry =
  cr_handlers :: handler_table
  cr_sealed :: "handler_table option"

definition custom_registry_new :: custom_registry where
  "custom_registry_new = \<lparr>cr_handlers = replicate 256 None, cr_sealed = None\<rparr>"

definition registry_seal :: "custom_registry \<Rightarrow> custom_registry" where
  "registry_seal r = (case cr_sealed r of None \<Rightarrow> r\<lparr>cr_sealed := Some (cr_handlers r)\<rparr> | Some _ \<Rightarrow> r)"

definition registry_on_with :: "u8 \<Rightarrow> dispatch_scope \<Rightarrow> custom_handler \<Rightarrow> (unit, custom_registry) raft_op" where
  "registry_on_with command scope handler r =
    (if cr_sealed r \<noteq> None then (Inl (Dispatch ''cannot register handlers after seal()''), r)
     else if cr_handlers r ! unat command \<noteq> None
     then (Inl (Dispatch (''dispatch command '' @ dec_str (unat command) @ '' already registered'')), r)
     else (Inr (), r\<lparr>cr_handlers := (cr_handlers r)[unat command := Some (scope, handler)]\<rparr>))"

text \<open>The table that lookups read: the frozen one once the registry is sealed.\<close>

definition registry_table :: "custom_registry \<Rightarrow> handler_table" where
  "registry_table r = (case cr_sealed r of Some t \<Rightarrow> t | None \<Rightarrow> cr_handlers r)"

definition registry_contains :: "u8 \<Rightarrow> custom_registry \<Rightarrow> bool" where
  "registry_contains command r \<longleftrightarrow> registry_table r ! unat command \<noteq> None"

definition registry_scope_for :: "u8 \<Rightarrow> custom_registry \<Rightarrow> dispatch_scope option" where
  "registry_scope_for command r = map_option fst (registry_table r ! unat command)"

definition show_route :: "dispatch_route \<Rightarrow> string" where
  "show_route route = ''DispatchRoute { role: '' @ (case route_role route of LeaderRole \<Rightarrow> ''Leader'' | FollowerRole \<Rightarrow> ''Follower'') @
     '', is_origin: '' @ (if is_origin route then ''true'' else ''false'') @ '' }''"

definition invoke_bytes_for :: "custom_registry \<Rightarrow> bytes \<Rightarrow> dispatch_route option \<Rightarrow>
    unit result \<times> (dispatch_response_kind \<times> bytes) list" where
  "invoke_bytes_for r frame route =
    (case parse_dispatch_view frame of
       Inl e \<Rightarrow> (Inl e, [])
     | Inr view \<Rightarrow>
         let command = dh_command (dec_dispatch_header view) in
         (case registry_table r ! unat command of
            None \<Rightarrow> (Inl (Dispatch (''no dispatch handler registered for command '' @ dec_str (unat command))), [])
          | Some (scope, handler) \<Rightarrow>
              (case route of
                 Some rt \<Rightarrow>
                   if \<not> scope_allows scope rt
                   then (Inl (Dispatch (''dispatch command '' @ dec_str (unat command) @ '' not allowed for route '' @ show_route rt)), [])
                   else handler view
               | None \<Rightarrow> handler view)))"

section \<open>What registration guarantees\<close>

definition registry_ok :: "custom_registry \<Rightarrow> bool" where
  "registry_ok r \<longleftrightarrow> length (cr_handlers r) = 256 \<and> (\<forall>t. cr_sealed r = Some t \<longrightarrow> t = cr_handlers r)"

lemma unat_u8_less: "unat (c :: u8) < 256"
  using unat_lt2p [of c] by simp

lemma registry_table_ok: "registry_ok r \<Longrightarrow> registry_table r = cr_handlers r"
  by (auto simp: registry_ok_def registry_table_def split: option.splits)

text \<open>
  (C32) The handler table is append-only and frozen by sealing: a registration
  either fills an empty slot and leaves every other slot alone, or reports an
  error and changes nothing, which it does exactly when the slot is taken or the
  registry is sealed; sealing changes no lookup.  The frozen table and the
  registration table never differ.
\<close>

theorem registration_exact:
  assumes "registry_ok r"
  shows "registry_ok (registry_seal r) \<and> registry_table (registry_seal r) = registry_table r \<and>
    (case registry_on_with c sc h r of
       (Inr _, r') \<Rightarrow> registry_ok r' \<and> \<not> registry_contains c r \<and> registry_table r' ! unat c = Some (sc, h) \<and>
         (\<forall>d. d \<noteq> c \<longrightarrow> registry_table r' ! unat d = registry_table r ! unat d)
     | (Inl _, r') \<Rightarrow> r' = r \<and> (registry_contains c r \<or> cr_sealed r \<noteq> None))"
  using assms unat_u8_less [of c]
  by (auto simp: registry_on_with_def registry_contains_def registry_scope_for_def registry_table_ok
      registry_seal_def registry_ok_def registry_table_def nth_list_update word_unat_eq_iff
      split: option.splits)

theorem registration_exact_witness:
  "registry_ok custom_registry_new \<and>
   registry_table (snd (registry_on_with 9 Followers (\<lambda>_. (Inr (), [])) custom_registry_new)) ! 9 =
     Some (Followers, \<lambda>_. (Inr (), []))"
proof -
  have ok: "registry_ok custom_registry_new" by (simp add: registry_ok_def custom_registry_new_def)
  have "registry_on_with 9 Followers (\<lambda>_. (Inr (), [])) custom_registry_new =
      (Inr (), snd (registry_on_with 9 Followers (\<lambda>_. (Inr (), [])) custom_registry_new))"
    by (simp add: registry_on_with_def custom_registry_new_def)
  then show ?thesis
    using registration_exact [OF ok, of 9 Followers "\<lambda>_. (Inr (), [])"] ok by (auto split: prod.splits)
qed

end
