(* ===== verification/Dispatch_Props.thy ===== *)
theory Dispatch_Props
  imports Dispatch_Tx
begin

text \<open>
  Properties of the custom-message transactions: the envelope survives the wire,
  identifiers do not repeat, a transaction is resolved at most once and only as
  its policies say, no waiter stays parked on a resolved transaction, and an
  unresolved one can always still succeed.
\<close>

section \<open>The envelope\<close>

lemma enc_dispatch_header_length [simp]: "length (dh_pad h) = 2 \<Longrightarrow> length (enc_dispatch_header h) = 28"
  by (simp add: enc_dispatch_header_def)

lemma dec_enc_dispatch_header [simp]:
  "length (dh_pad h) = 2 \<Longrightarrow> dec_dispatch_header (enc_dispatch_header h @ rest) = h"
  by (simp add: dec_dispatch_header_def enc_dispatch_header_def fld_def fld_u8_def nth_append)

lemma scope_bytes [simp]: "scope_of_byte (scope_byte s) = s \<and> scope_byte s \<le> 4"
  by (cases s) (simp_all add: scope_byte_def scope_of_byte_def)

lemma ack_bytes [simp]: "ack_of_byte (ack_byte a) = a \<and> ack_byte a \<le> 4"
  by (cases a) (simp_all add: ack_byte_def ack_of_byte_def)

lemma fail_bytes [simp]: "fail_of_byte (fail_byte f) = f \<and> fail_byte f \<le> 4"
  by (cases f) (simp_all add: fail_byte_def fail_of_byte_def)

text \<open>
  A request of the custom-message layer survives the wire: every envelope
  that is built is accepted by the parser, and the header of the view has the
  transaction, the command, the scope and the policies of the envelope, and its
  body is the encoded parameters.
\<close>

lemma dispatch_request_roundtrip:
  assumes "build_envelope options (Inr body) sp = (Inr env, sp')"
  shows "parse_dispatch_view (en_bytes env) = Inr (en_bytes env) \<and> view_body (en_bytes env) = body \<and>
    (let h = dec_dispatch_header (en_bytes env) in
       dh_tx_id h = en_tx_id env \<and> dh_command h = sp_command sp \<and> scope_of_byte (dh_scope h) = opt_scope options \<and>
       ack_of_byte (dh_ack_policy h) = ack_policy (opt_ack options) \<and>
       fail_of_byte (dh_fail_policy h) = fail_policy (opt_fail options) \<and> (dh_trace h \<noteq> 0) = opt_trace options)"
proof -
  have "length body < 2 ^ 32"
    using assms by (simp add: build_envelope_def split: if_splits)
  then have "unat (word_of_nat (length body) :: u32) = length body" by (simp add: unat_of_nat)
  then show ?thesis
    using assms
    by (auto simp: build_envelope_def next_tx_id_def parse_dispatch_view_def view_body_def Let_def not_less
        RAFT_DISPATCH_MAGIC_def RAFT_DISPATCH_VERSION_def split: if_splits)
qed

section \<open>Transaction identifiers\<close>

text \<open>The identifier of the \<open>k\<close>-th dispatch of a specification.\<close>

fun tx_id_at :: "nat \<Rightarrow> dispatch_spec \<Rightarrow> u64" where
  "tx_id_at 0 sp = fst (next_tx_id sp)"
| "tx_id_at (Suc k) sp = tx_id_at k (snd (next_tx_id sp))"

lemma tx_id_at_eq:
  "tx_id_at k sp = or (push_bit 56 (ucast (sp_command sp))) (take_bit 56 (sp_tx_ids sp + of_nat k))"
  by (induction k arbitrary: sp)
    (simp_all add: next_tx_id_def TX_ID_SEQ_MASK_def take_bit_eq_mask mask_eq_exp_minus_1 algebra_simps)

lemma tx_id_low: "take_bit 56 (tx_id_at k sp) = take_bit 56 (sp_tx_ids sp + of_nat k)"
  unfolding tx_id_at_eq by (simp add: take_bit_or take_bit_push_bit)

lemma tx_id_high: "drop_bit 56 (tx_id_at k sp) = ucast (sp_command sp)"
proof -
  have "drop_bit 56 (push_bit 56 (ucast (sp_command sp) :: u64)) = ucast (sp_command sp)"
    by (simp add: bit_eq_iff bit_simps) (auto dest: bit_imp_le_length)
  moreover have "drop_bit 56 (take_bit 56 w) = 0" for w :: u64
    by (simp add: drop_bit_take_bit)
  ultimately show ?thesis unfolding tx_id_at_eq by (simp add: drop_bit_or)
qed

lemma take_bit_56_inj:
  assumes "take_bit 56 (s + of_nat i) = take_bit 56 (s + of_nat j :: u64)" and "i < 2 ^ 56" and "j < 2 ^ 56"
  shows "i = j"
proof -
  have "(unat s + i) mod 2 ^ 56 = (unat s + j) mod 2 ^ 56"
    using arg_cong [OF assms(1), of unat]
    by (simp add: unsigned_take_bit_eq take_bit_eq_mod unat_word_ariths unat_of_nat mod_mod_cancel
        mod_add_right_eq)
  then have "(2 :: nat) ^ 56 dvd (unat s + i) - (unat s + j)" and "(2 :: nat) ^ 56 dvd (unat s + j) - (unat s + i)"
    by (metis mod_eq_dvd_iff_nat nat_le_linear diff_is_0_eq dvd_0_right)+
  then have "i - j = 0" and "j - i = 0"
    using assms(2,3) by (auto dest!: dvd_imp_le)
  then show ?thesis by simp
qed

text \<open>
  (C28) Transaction identifiers do not repeat: the first \<open>2 ^ 56\<close> identifiers of a
  specification are pairwise distinct, whatever the counter starts from, and the
  top byte of every one is the command, so identifiers of different commands
  differ as well.
\<close>

theorem tx_ids_distinct:
  "inj_on (\<lambda>k. tx_id_at k sp) {..<2 ^ 56} \<and> drop_bit 56 (tx_id_at i sp) = ucast (sp_command sp)"
proof
  show "inj_on (\<lambda>k. tx_id_at k sp) {..<2 ^ 56}"
  proof (rule inj_onI)
    fix a b assume "a \<in> {..<2 ^ 56 :: nat}" "b \<in> {..<2 ^ 56 :: nat}" "tx_id_at a sp = tx_id_at b sp"
    then show "a = b"
      using take_bit_56_inj [of "sp_tx_ids sp" a b] tx_id_low [of a sp] tx_id_low [of b sp] by simp
  qed
qed (rule tx_id_high)

section \<open>The life of a transaction\<close>

datatype 'r tx_event =
    Respond peer_id dispatch_response
  | AcceptValue peer_id 'r
  | Disconnect peer_id
  | Abort dispatch_failure
  | Poll nat nat
  | Ready nat

fun tx_step :: "(bytes \<Rightarrow> 'r result) \<Rightarrow> 'r tx_event \<Rightarrow> 'r dispatch_state \<Rightarrow> 'r dispatch_state" where
  "tx_step decode_response (Respond p r) s = snd (on_response decode_response p r s)"
| "tx_step decode_response (AcceptValue p v) s = snd (tx_accept p v s)"
| "tx_step decode_response (Disconnect p) s = snd (tx_disconnect p s)"
| "tx_step decode_response (Abort f) s = tx_abort f s"
| "tx_step decode_response (Poll now waiter) s = snd (handle_poll_wait now waiter s)"
| "tx_step decode_response (Ready now) s = snd (handle_is_ready now s)"

fun tx_run :: "(bytes \<Rightarrow> 'r result) \<Rightarrow> 'r tx_event list \<Rightarrow> 'r dispatch_state \<Rightarrow> 'r dispatch_state" where
  "tx_run decode_response [] s = s"
| "tx_run decode_response (e # es) s = tx_run decode_response es (tx_step decode_response e s)"

text \<open>What holds of a transaction between two operations.\<close>

definition tx_open :: "dispatch_options \<Rightarrow> (peer_id \<times> 'r dispatch_peer_state) list \<Rightarrow> bool" where
  "tx_open options ps \<longleftrightarrow>
     count_peers is_accepted ps < required_accepts options ps \<and>
     required_accepts options ps \<le> count_peers is_accepted ps + count_peers is_pending ps \<and>
     count_peers is_failed ps \<le> allowed_failures options ps"

definition tx_inv :: "'r dispatch_state \<Rightarrow> bool" where
  "tx_inv s \<longleftrightarrow>
    (case ds_completion s of
       None \<Rightarrow> tx_open (ds_options s) (ds_peers s)
     | Some c \<Rightarrow> ds_wakers s = [] \<and>
         (\<forall>ps. c = Succeeded ps \<longrightarrow> required_accepts (ds_options s) ps \<le> count_peers is_accepted ps))"

lemma resolve_fields [simp]:
  "ds_completion (resolve c s) = Some c" "ds_wakers (resolve c s) = []"
  "ds_options (resolve c s) = ds_options s" "ds_peers (resolve c s) = ds_peers s"
  by (simp_all add: resolve_def wake_all_def)

lemma evaluate_inv: "ds_completion s = None \<Longrightarrow> tx_inv (evaluate s)"
  by (auto simp: evaluate_def tx_inv_def tx_open_def Let_def)

lemma update_peer_state_inv: "tx_inv s \<Longrightarrow> tx_inv (snd (update_peer_state p f s))"
  by (auto simp: update_peer_state_def intro: evaluate_inv split: option.splits)

lemma tx_inv_resolve_failed: "tx_inv (resolve (Failed f) s)"
  by (simp add: tx_inv_def)

lemma tx_step_inv: "tx_inv s \<Longrightarrow> tx_inv (tx_step decode_response e s)"
proof (induction decode_response e s rule: tx_step.induct)
  case (1 decode_response p r s)
  then show ?case
    by (auto simp: on_response_def tx_accept_raw_def tx_accept_def tx_reject_def tx_progress_def tx_fail_def
        update_peer_state_inv split: dispatch_response_kind.splits sum.splits)
next
  case (5 decode_response now waiter s)
  then show ?case
    by (auto simp: handle_poll_wait_def tx_inv_resolve_failed split: option.splits) (auto simp: tx_inv_def)
next
  case (6 decode_response now s)
  then show ?case
    by (auto simp: handle_is_ready_def check_timeout_def Let_def tx_inv_resolve_failed split: option.splits)
qed (auto simp: tx_accept_def tx_disconnect_def tx_abort_def update_peer_state_inv tx_inv_resolve_failed)

lemma tx_run_inv: "tx_inv s \<Longrightarrow> tx_inv (tx_run decode_response es s)"
  by (induction decode_response es s rule: tx_run.induct) (simp_all add: tx_step_inv)


lemma completed_step: "ds_completion s = Some c \<Longrightarrow> ds_completion (tx_step decode_response e s) = Some c"
  by (induction decode_response e s rule: tx_step.induct)
    (auto simp: on_response_def tx_accept_raw_def tx_accept_def tx_reject_def tx_progress_def tx_fail_def
      tx_disconnect_def tx_abort_def update_peer_state_def handle_poll_wait_def handle_is_ready_def
      check_timeout_def Let_def split: dispatch_response_kind.splits sum.splits)

lemma completed_run: "ds_completion s = Some c \<Longrightarrow> ds_completion (tx_run decode_response es s) = Some c"
  by (induction decode_response es s rule: tx_run.induct) (simp_all add: completed_step)

text \<open>
  (C30) The first resolution wins: once a transaction is resolved no later
  response, disconnection, time-out or abort changes its outcome.
\<close>

theorem first_resolution_wins:
  assumes "ds_completion s = Some c"
  shows "ds_completion (tx_run decode_response es s) = Some c"
  using assms by (rule completed_run)

definition sample_tx :: "u8 dispatch_state" where
  "sample_tx = begin_transaction 0 7 1 default_dispatch_options [1, 2, 3]"

lemma sample_tx_eq: "sample_tx = \<lparr>ds_tx_id = 7, ds_command = 1, ds_options = default_dispatch_options,
    ds_peers = [(1, Pending), (2, Pending), (3, Pending)], ds_completion = None, ds_wakers = [],
    ds_start = 0, ds_woken = []\<rparr>"
  by (simp add: sample_tx_def begin_transaction_def evaluate_def required_accepts_def allowed_failures_def
      count_peers_def default_dispatch_options_def USIZE_MAX_def Let_def)

theorem first_resolution_wins_witness:
  "ds_completion (tx_abort LostLeadership sample_tx) = Some (Failed LostLeadership) \<and>
   ds_completion (tx_run (\<lambda>_. Inr 0) [AcceptValue 1 9, AcceptValue 2 9] (tx_abort LostLeadership sample_tx)) =
     Some (Failed LostLeadership)"
proof -
  have aborted: "ds_completion (tx_abort LostLeadership sample_tx) = Some (Failed LostLeadership)"
    by (simp add: tx_abort_def sample_tx_eq)
  then show ?thesis by (intro conjI first_resolution_wins)
qed

section \<open>An unresolved transaction can still succeed\<close>

definition pending_peers :: "(peer_id \<times> 'r dispatch_peer_state) list \<Rightarrow> peer_id list" where
  "pending_peers ps = map fst (filter (is_pending \<circ> snd) ps)"

lemma accept_slot:
  assumes "distinct (map fst ps)" and "p \<in> set (pending_peers ps)"
  shows "\<exists>ps'. set_slot p (\<lambda>_. PeerAccepted v) ps = Some ps' \<and> map fst ps' = map fst ps \<and>
    pending_peers ps' = filter (\<lambda>q. q \<noteq> p) (pending_peers ps) \<and>
    count_peers is_accepted ps' = Suc (count_peers is_accepted ps) \<and>
    Suc (count_peers is_pending ps') = count_peers is_pending ps \<and>
    count_peers is_failed ps' = count_peers is_failed ps \<and> count_peers is_active ps' = count_peers is_active ps"
  using assms
proof (induction ps)
  case (Cons a ps)
  obtain q st where a: "a = (q, st)" by force
  show ?case
  proof (cases "q = p")
    case True
    then have "p \<notin> set (pending_peers ps)" using Cons.prems(1) by (auto simp: a pending_peers_def)
    moreover from this have "filter (\<lambda>q. q \<noteq> p) (pending_peers ps) = pending_peers ps"
      by (auto simp: filter_id_conv)
    ultimately have "is_pending st" and "filter (\<lambda>q. q \<noteq> p) (pending_peers ps) = pending_peers ps"
      using Cons.prems(2) True by (auto simp: a pending_peers_def split: if_splits)
    then show ?thesis
      using True by (cases st) (auto simp: a pending_peers_def count_peers_def)
  next
    case False
    have "distinct (map fst ps)" "p \<in> set (pending_peers ps)"
      using Cons.prems False by (auto simp: a pending_peers_def split: if_splits)
    then show ?thesis
      using Cons.IH False by (auto simp: a pending_peers_def count_peers_def)
  qed
qed (simp add: pending_peers_def)

lemma policies_of_active:
  "count_peers is_active ps' = count_peers is_active ps \<Longrightarrow>
     required_accepts options ps' = required_accepts options ps \<and>
     allowed_failures options ps' = allowed_failures options ps"
  by (simp only: required_accepts_def allowed_failures_def simp_thms)

lemma accept_step:
  assumes "ds_completion s = None" and "tx_open (ds_options s) (ds_peers s)"
    and "distinct (map fst (ds_peers s))" and "p \<in> set (pending_peers (ds_peers s))"
  shows "let s' = snd (tx_accept p v s) in
    (\<exists>ps. ds_completion s' = Some (Succeeded ps)) \<or>
    (ds_completion s' = None \<and> tx_open (ds_options s') (ds_peers s') \<and> map fst (ds_peers s') = map fst (ds_peers s) \<and>
     pending_peers (ds_peers s') = filter (\<lambda>q. q \<noteq> p) (pending_peers (ds_peers s)))"
proof -
  obtain ps' where ps': "set_slot p (\<lambda>_. PeerAccepted v) (ds_peers s) = Some ps'" "map fst ps' = map fst (ds_peers s)"
      "pending_peers ps' = filter (\<lambda>q. q \<noteq> p) (pending_peers (ds_peers s))"
    and counts: "count_peers is_accepted ps' = Suc (count_peers is_accepted (ds_peers s))"
      "Suc (count_peers is_pending ps') = count_peers is_pending (ds_peers s)"
      "count_peers is_failed ps' = count_peers is_failed (ds_peers s)"
      "count_peers is_active ps' = count_peers is_active (ds_peers s)"
    using accept_slot [OF assms(3,4)] by blast
  have "snd (tx_accept p v s) = evaluate (s\<lparr>ds_peers := ps'\<rparr>)"
    using assms(1) ps' by (simp add: tx_accept_def update_peer_state_def)
  then show ?thesis
    using assms(1,2) counts policies_of_active [OF counts(4), of "ds_options s"] ps'
    by (auto simp: evaluate_def tx_open_def Let_def)
qed

lemma set_slot_keys: "set_slot p f ps = Some ps' \<Longrightarrow> map fst ps' = map fst ps"
  by (induction p f ps arbitrary: ps' rule: set_slot.induct) (auto split: if_splits)

lemma evaluate_peers [simp]: "ds_peers (evaluate s) = ds_peers s" "ds_options (evaluate s) = ds_options s"
  by (simp_all add: evaluate_def Let_def)

lemma update_peer_state_keys [simp]: "map fst (ds_peers (snd (update_peer_state p f s))) = map fst (ds_peers s)"
  by (auto simp: update_peer_state_def set_slot_keys split: option.splits)

lemma tx_step_keys: "map fst (ds_peers (tx_step decode_response e s)) = map fst (ds_peers s)"
  by (induction decode_response e s rule: tx_step.induct)
    (auto simp: on_response_def tx_accept_raw_def tx_accept_def tx_reject_def tx_progress_def tx_fail_def
      tx_disconnect_def tx_abort_def handle_poll_wait_def handle_is_ready_def check_timeout_def Let_def
      split: dispatch_response_kind.splits sum.splits option.splits)

lemma tx_run_keys: "map fst (ds_peers (tx_run decode_response es s)) = map fst (ds_peers s)"
  by (induction decode_response es s rule: tx_run.induct) (simp_all add: tx_step_keys)

lemma accept_all_succeeds:
  assumes "ds_completion s = None" and "tx_open (ds_options s) (ds_peers s)"
    and "distinct (map fst (ds_peers s))" and "pending_peers (ds_peers s) = qs"
  shows "\<exists>ps. ds_completion (tx_run decode_response (map (\<lambda>p. AcceptValue p v) qs) s) = Some (Succeeded ps)"
  using assms
proof (induction qs arbitrary: s)
  case Nil
  then have "count_peers is_pending (ds_peers s) = 0" by (simp add: pending_peers_def count_peers_def)
  then show ?case using Nil.prems(2) by (auto simp: tx_open_def)
next
  case (Cons q qs)
  let ?s = "snd (tx_accept q v s)"
  have "distinct (pending_peers (ds_peers s))"
    using Cons.prems(3) by (simp add: pending_peers_def distinct_map_filter)
  then have rest: "filter (\<lambda>p. p \<noteq> q) (pending_peers (ds_peers s)) = qs"
    using Cons.prems(4) by (auto simp: filter_id_conv)
  have "q \<in> set (pending_peers (ds_peers s))" using Cons.prems(4) by simp
  from accept_step [OF Cons.prems(1-3) this, of v, unfolded Let_def rest] show ?case
  proof
    assume "\<exists>ps. ds_completion ?s = Some (Succeeded ps)"
    then show ?thesis using completed_run by fastforce
  next
    assume open_s: "ds_completion ?s = None \<and> tx_open (ds_options ?s) (ds_peers ?s) \<and>
      map fst (ds_peers ?s) = map fst (ds_peers s) \<and> pending_peers (ds_peers ?s) = qs"
    then have "distinct (map fst (ds_peers ?s))" using Cons.prems(3) by simp
    then show ?thesis using Cons.IH [of ?s] open_s by simp
  qed
qed

text \<open>
  (C31) Progress: a transaction that is unresolved after any run of events
  succeeds when every peer whose answer is outstanding accepts, provided the
  targets are pairwise distinct.
\<close>

theorem pending_transaction_can_succeed:
  assumes "s = tx_run decode_response es (begin_transaction now tx_id command options targets)"
    and "distinct targets" and "ds_completion s = None"
  shows "\<exists>ps. ds_completion (tx_run decode_response (map (\<lambda>p. AcceptValue p v) (pending_peers (ds_peers s))) s) =
    Some (Succeeded ps)"
proof -
  have "tx_inv s" unfolding assms(1) by (intro tx_run_inv) (simp add: begin_transaction_def evaluate_inv)
  then have "tx_open (ds_options s) (ds_peers s)" using assms(3) by (simp add: tx_inv_def)
  moreover have "distinct (map fst (ds_peers s))"
    unfolding assms(1) tx_run_keys using assms(2) by (simp add: begin_transaction_def comp_def)
  ultimately show ?thesis using accept_all_succeeds [OF assms(3)] by blast
qed

theorem pending_transaction_can_succeed_witness:
  "\<exists>ps. ds_completion (tx_run (\<lambda>_. Inr 0) (map (\<lambda>p. AcceptValue p 9) (pending_peers (ds_peers sample_tx))) sample_tx) =
     Some (Succeeded ps)"
proof (rule pending_transaction_can_succeed)
  show "sample_tx = tx_run (\<lambda>_. Inr 0) [] (begin_transaction 0 7 1 default_dispatch_options [1, 2, 3])"
    by (simp add: sample_tx_def)
qed (simp_all add: sample_tx_eq)

text \<open>
  When every target has disconnected the required number of accepts is zero, so
  the transaction reports success without a single accept, even under the policies
  that require all targets and tolerate no failure.
\<close>

lemma disconnected_targets_succeed:
  "let options = default_dispatch_options\<lparr>opt_ack := (opt_ack default_dispatch_options)\<lparr>ack_policy := AckAll\<rparr>,
         opt_fail := (opt_fail default_dispatch_options)\<lparr>fail_policy := NoFailures\<rparr>\<rparr>;
       s = tx_run (\<lambda>_. Inr (0 :: u8)) [Disconnect 1, Disconnect 2] (begin_transaction 0 7 1 options [1, 2])
   in ds_completion s = Some (Succeeded [(1, Disconnected), (2, Disconnected)])"
  by (simp add: begin_transaction_def evaluate_def required_accepts_def allowed_failures_def count_peers_def
      default_dispatch_options_def tx_disconnect_def update_peer_state_def Let_def resolve_def wake_all_def)

end
