(* ===== verification/Dispatch_Api.thy ===== *)
theory Dispatch_Api
  imports Dispatch_Registry Dispatch_Props "HOL-Library.AList"
begin

text \<open>
  The typed surface of the custom-message layer: the codecs of a specification
  (\<open>src/dispatch/spec.rs\<close>), the builder of a request (\<open>src/dispatch/builder.rs\<close>), the
  context a handler answers through (\<open>src/dispatch/context.rs\<close>), the typed
  registration of a handler (\<open>src/api/custom_registry.rs\<close>) and the responders that
  carry an answer back (\<open>src/dispatch/tx/handle.rs\<close>, \<open>src/api/node/dispatch.rs\<close>).  The
  codecs and the handlers are code of the application.  A responder and a
  requester are operations on a state \<open>'w\<close>, so that every operation of a context is
  an operation on the state of whoever answers.
\<close>

section \<open>Specifications\<close>

text \<open>The codecs of a command, next to the part of the specification that has no types.\<close>

record ('p, 'r) typed_spec =
  ts_spec :: dispatch_spec
  encode_params :: "'p \<Rightarrow> bytes result"
  decode_params :: "bytes \<Rightarrow> 'p result"
  encode_response :: "'r \<Rightarrow> bytes result"
  decode_response :: "bytes \<Rightarrow> 'r result"

definition with_scope :: "dispatch_scope \<Rightarrow> dispatch_options \<Rightarrow> dispatch_options" where
  "with_scope scope opts = opts\<lparr>opt_scope := scope\<rparr>"

definition with_ack_policy :: "dispatch_ack_policy \<Rightarrow> dispatch_options \<Rightarrow> dispatch_options" where
  "with_ack_policy policy opts = opts\<lparr>opt_ack := (opt_ack opts)\<lparr>ack_policy := policy\<rparr>\<rparr>"

definition with_fail_policy :: "dispatch_fail_policy \<Rightarrow> dispatch_options \<Rightarrow> dispatch_options" where
  "with_fail_policy policy opts = opts\<lparr>opt_fail := (opt_fail opts)\<lparr>fail_policy := policy\<rparr>\<rparr>"

definition with_fail_count :: "u16 \<Rightarrow> dispatch_options \<Rightarrow> dispatch_options" where
  "with_fail_count count opts = opts\<lparr>opt_fail := (opt_fail opts)\<lparr>fail_count := count\<rparr>\<rparr>"

definition with_timeout :: "nat \<Rightarrow> dispatch_options \<Rightarrow> dispatch_options" where
  "with_timeout timeout opts = opts\<lparr>opt_timeout := timeout\<rparr>"

definition with_trace :: "bool \<Rightarrow> dispatch_options \<Rightarrow> dispatch_options" where
  "with_trace trace opts = opts\<lparr>opt_trace := trace\<rparr>"

text \<open>A setter of a specification changes its defaults and nothing else.\<close>

definition spec_with :: "(dispatch_options \<Rightarrow> dispatch_options) \<Rightarrow> ('p, 'r) typed_spec \<Rightarrow> ('p, 'r) typed_spec" where
  "spec_with f sp = sp\<lparr>ts_spec := (ts_spec sp)\<lparr>sp_defaults := f (sp_defaults (ts_spec sp))\<rparr>\<rparr>"

section \<open>The builder\<close>

record ('p, 'r) dispatch_builder =
  b_spec :: "('p, 'r) typed_spec"
  b_params :: 'p
  b_options :: dispatch_options

definition builder_new :: "('p, 'r) typed_spec \<Rightarrow> 'p \<Rightarrow> ('p, 'r) dispatch_builder" where
  "builder_new sp params = \<lparr>b_spec = sp, b_params = params, b_options = sp_defaults (ts_spec sp)\<rparr>"

definition builder_scope :: "dispatch_scope \<Rightarrow> ('p, 'r) dispatch_builder \<Rightarrow> ('p, 'r) dispatch_builder" where
  "builder_scope scope b = b\<lparr>b_options := (b_options b)\<lparr>opt_scope := scope\<rparr>\<rparr>"

definition builder_ack_policy :: "dispatch_ack_policy \<Rightarrow> ('p, 'r) dispatch_builder \<Rightarrow> ('p, 'r) dispatch_builder" where
  "builder_ack_policy policy b =
     b\<lparr>b_options := (b_options b)\<lparr>opt_ack := (opt_ack (b_options b))\<lparr>ack_policy := policy\<rparr>\<rparr>\<rparr>"

definition builder_ack_count :: "u16 \<Rightarrow> ('p, 'r) dispatch_builder \<Rightarrow> ('p, 'r) dispatch_builder" where
  "builder_ack_count c b =
     b\<lparr>b_options := (b_options b)\<lparr>opt_ack := (opt_ack (b_options b))\<lparr>ack_count := max c 1\<rparr>\<rparr>\<rparr>"

definition builder_ack_percent :: "u8 \<Rightarrow> ('p, 'r) dispatch_builder \<Rightarrow> ('p, 'r) dispatch_builder" where
  "builder_ack_percent percent b =
     b\<lparr>b_options := (b_options b)\<lparr>opt_ack := (opt_ack (b_options b))\<lparr>ack_percent := min (max percent 1) 100\<rparr>\<rparr>\<rparr>"

definition builder_fail_policy :: "dispatch_fail_policy \<Rightarrow> ('p, 'r) dispatch_builder \<Rightarrow> ('p, 'r) dispatch_builder" where
  "builder_fail_policy policy b =
     b\<lparr>b_options := (b_options b)\<lparr>opt_fail := (opt_fail (b_options b))\<lparr>fail_policy := policy\<rparr>\<rparr>\<rparr>"

definition builder_fail_count :: "u16 \<Rightarrow> ('p, 'r) dispatch_builder \<Rightarrow> ('p, 'r) dispatch_builder" where
  "builder_fail_count c b =
     b\<lparr>b_options := (b_options b)\<lparr>opt_fail := (opt_fail (b_options b))\<lparr>fail_count := c\<rparr>\<rparr>\<rparr>"

definition builder_fail_percent :: "u8 \<Rightarrow> ('p, 'r) dispatch_builder \<Rightarrow> ('p, 'r) dispatch_builder" where
  "builder_fail_percent percent b =
     b\<lparr>b_options := (b_options b)\<lparr>opt_fail := (opt_fail (b_options b))\<lparr>fail_percent := min percent 100\<rparr>\<rparr>\<rparr>"

definition builder_timeout :: "nat \<Rightarrow> ('p, 'r) dispatch_builder \<Rightarrow> ('p, 'r) dispatch_builder" where
  "builder_timeout timeout b = b\<lparr>b_options := (b_options b)\<lparr>opt_timeout := timeout\<rparr>\<rparr>"

definition builder_trace :: "bool \<Rightarrow> ('p, 'r) dispatch_builder \<Rightarrow> ('p, 'r) dispatch_builder" where
  "builder_trace trace b = b\<lparr>b_options := (b_options b)\<lparr>opt_trace := trace\<rparr>\<rparr>"

text \<open>Building a request draws the next identifier of the specification.\<close>

definition builder_build :: "('p, 'r) dispatch_builder \<Rightarrow> dispatch_envelope result \<times> ('p, 'r) typed_spec" where
  "builder_build b =
    (case build_envelope (b_options b) (encode_params (b_spec b) (b_params b)) (ts_spec (b_spec b)) of
       (r, sp) \<Rightarrow> (r, (b_spec b)\<lparr>ts_spec := sp\<rparr>))"

definition envelope_begin :: "nat \<Rightarrow> dispatch_envelope \<Rightarrow> peer_id list \<Rightarrow> 'r dispatch_state" where
  "envelope_begin now en targets = begin_transaction now (en_tx_id en) (en_command en) (en_options en) targets"

section \<open>Accessors of a request\<close>

definition view_command :: "bytes \<Rightarrow> u8" where
  "view_command frame = dh_command (dec_dispatch_header frame)"

definition view_tx_id :: "bytes \<Rightarrow> u64" where
  "view_tx_id frame = dh_tx_id (dec_dispatch_header frame)"

definition view_params :: "('p, 'r) typed_spec \<Rightarrow> bytes \<Rightarrow> 'p result" where
  "view_params sp frame =
    (if view_command frame \<noteq> sp_command (ts_spec sp)
     then Inl (Dispatch (''dispatch command mismatch: got '' @ dec_str (unat (view_command frame)) @
            '', expected '' @ dec_str (unat (sp_command (ts_spec sp)))))
     else decode_params sp (view_body frame))"

section \<open>The text of an error\<close>

text \<open>The display of an operating-system error belongs to the standard library and is an argument.\<close>

fun error_text :: "(io_error_kind \<Rightarrow> string) \<Rightarrow> raft_error \<Rightarrow> string" where
  "error_text io (NotLeader None) = ''not leader: None''"
| "error_text io (NotLeader (Some p)) =
     ''not leader: Some(LeaderHint { leader_id: PeerId('' @ dec_str (unat p) @ '') })''"
| "error_text io NoQuorum = ''no quorum''"
| "error_text io (TransferTimeout p) =
     ''leadership transfer to peer '' @ dec_str (unat p) @ '' timed out; leadership retained''"
| "error_text io (TermChanged t) = ''term changed: '' @ dec_str (unat t)"
| "error_text io Overloaded = ''overloaded: client proposal mailbox full; back off and retry''"
| "error_text io (PeerUnknown p) = ''unknown peer '' @ dec_str (unat p)"
| "error_text io (InvalidConfig msg) = ''invalid config: '' @ msg"
| "error_text io (InvalidPayload msg) = ''invalid payload: '' @ msg"
| "error_text io (Protocol msg) = ''protocol error: '' @ msg"
| "error_text io (Dispatch msg) = ''dispatch error: '' @ msg"
| "error_text io (Storage msg) = ''storage error: '' @ msg"
| "error_text io (Transport msg) = ''transport error: '' @ msg"
| "error_text io (CorruptLog msg) = ''corrupt log: '' @ msg"
| "error_text io (Snapshot msg) = ''snapshot error: '' @ msg"
| "error_text io (Io k) = io k"

definition str_bytes :: "string \<Rightarrow> bytes" where
  "str_bytes s = map of_char s"

section \<open>The context of a handler\<close>

type_synonym 'w responder = "dispatch_response \<Rightarrow> (unit, 'w) raft_op"

type_synonym 'w requester = "u8 \<Rightarrow> bytes \<Rightarrow> (bytes, 'w) raft_op"

record 'w dispatch_context =
  ctx_tx_id :: u64
  ctx_command :: u8
  ctx_responder :: "'w responder"
  ctx_requester :: "'w requester option"

definition context_new :: "u64 \<Rightarrow> u8 \<Rightarrow> 'w responder \<Rightarrow> 'w dispatch_context" where
  "context_new tx_id command responder =
     \<lparr>ctx_tx_id = tx_id, ctx_command = command, ctx_responder = responder, ctx_requester = None\<rparr>"

definition context_with_requester :: "u64 \<Rightarrow> u8 \<Rightarrow> 'w responder \<Rightarrow> 'w requester \<Rightarrow> 'w dispatch_context" where
  "context_with_requester tx_id command responder requester =
     \<lparr>ctx_tx_id = tx_id, ctx_command = command, ctx_responder = responder, ctx_requester = Some requester\<rparr>"

definition ctx_request_bytes :: "'w dispatch_context \<Rightarrow> u8 \<Rightarrow> bytes \<Rightarrow> (bytes, 'w) raft_op" where
  "ctx_request_bytes ctx command payload w =
    (case ctx_requester ctx of
       None \<Rightarrow> (Inl (Dispatch ''dispatch stream unavailable''), w)
     | Some requester \<Rightarrow> requester command payload w)"

definition ctx_request_with :: "'w dispatch_context \<Rightarrow> ('p, 'r) typed_spec \<Rightarrow> 'p \<Rightarrow> ('r, 'w) raft_op" where
  "ctx_request_with ctx sp params w =
    (case encode_params sp params of
       Inl e \<Rightarrow> (Inl e, w)
     | Inr body \<Rightarrow> bind_op (ctx_request_bytes ctx (sp_command (ts_spec sp)) body w)
         (\<lambda>response w. (decode_response sp response, w)))"

definition stream_request_with :: "'w requester \<Rightarrow> ('p, 'r) typed_spec \<Rightarrow> 'p \<Rightarrow> ('r, 'w) raft_op" where
  "stream_request_with requester sp params w =
    (case encode_params sp params of
       Inl e \<Rightarrow> (Inl e, w)
     | Inr body \<Rightarrow> bind_op (requester (sp_command (ts_spec sp)) body w)
         (\<lambda>response w. (decode_response sp response, w)))"

definition accept_bytes :: "'w dispatch_context \<Rightarrow> bytes \<Rightarrow> (unit, 'w) raft_op" where
  "accept_bytes ctx payload = ctx_responder ctx
     \<lparr>dr_tx_id = ctx_tx_id ctx, dr_command = ctx_command ctx, dr_kind = Accepted, dr_payload = payload\<rparr>"

definition accept_with :: "'w dispatch_context \<Rightarrow> ('p, 'r) typed_spec \<Rightarrow> 'r \<Rightarrow> (unit, 'w) raft_op" where
  "accept_with ctx sp v w =
    (case encode_response sp v of Inl e \<Rightarrow> (Inl e, w) | Inr payload \<Rightarrow> accept_bytes ctx payload w)"

definition ctx_reject :: "'w dispatch_context \<Rightarrow> string \<Rightarrow> (unit, 'w) raft_op" where
  "ctx_reject ctx reason = ctx_responder ctx
     \<lparr>dr_tx_id = ctx_tx_id ctx, dr_command = ctx_command ctx, dr_kind = Rejected, dr_payload = str_bytes reason\<rparr>"

definition progress_bytes :: "'w dispatch_context \<Rightarrow> bytes \<Rightarrow> (unit, 'w) raft_op" where
  "progress_bytes ctx payload = ctx_responder ctx
     \<lparr>dr_tx_id = ctx_tx_id ctx, dr_command = ctx_command ctx, dr_kind = ProgressKind, dr_payload = payload\<rparr>"

definition ctx_fail :: "'w dispatch_context \<Rightarrow> string \<Rightarrow> (unit, 'w) raft_op" where
  "ctx_fail ctx err = ctx_responder ctx
     \<lparr>dr_tx_id = ctx_tx_id ctx, dr_command = ctx_command ctx, dr_kind = FailedKind, dr_payload = str_bytes err\<rparr>"

section \<open>Typed handlers\<close>

type_synonym ('p, 'w) typed_handler = "'p \<Rightarrow> 'w dispatch_context \<Rightarrow> (unit, 'w) raft_op"

text \<open>The closure a registration stores: undecodable parameters are answered with a failure.\<close>

definition erased_handler :: "(io_error_kind \<Rightarrow> string) \<Rightarrow> ('p, 'r) typed_spec \<Rightarrow> ('p, 'w) typed_handler \<Rightarrow>
    bytes \<Rightarrow> 'w dispatch_context \<Rightarrow> (unit, 'w) raft_op" where
  "erased_handler io sp handler frame ctx w =
    (case view_params sp frame of
       Inl err \<Rightarrow> bind_op (ctx_fail ctx (error_text io err) w) (\<lambda>_ w. (Inl err, w))
     | Inr params \<Rightarrow> handler params ctx w)"

text \<open>The registry runs a handler against a responder that collects the answers.\<close>

definition collect_response :: "(dispatch_response_kind \<times> bytes) list responder" where
  "collect_response r out = (Inr (), out @ [(dr_kind r, dr_payload r)])"

definition collecting :: "(io_error_kind \<Rightarrow> string) \<Rightarrow> ('p, 'r) typed_spec \<Rightarrow>
    ('p, (dispatch_response_kind \<times> bytes) list) typed_handler \<Rightarrow> custom_handler" where
  "collecting io sp handler frame =
     erased_handler io sp handler frame (context_new (view_tx_id frame) (view_command frame) collect_response) []"

definition registry_on_typed :: "(io_error_kind \<Rightarrow> string) \<Rightarrow> ('p, 'r) typed_spec \<Rightarrow>
    ('p, (dispatch_response_kind \<times> bytes) list) typed_handler \<Rightarrow> (unit, custom_registry) raft_op" where
  "registry_on_typed io sp handler =
     registry_on_with (sp_command (ts_spec sp)) (opt_scope (sp_defaults (ts_spec sp))) (collecting io sp handler)"

definition invoke_bytes :: "custom_registry \<Rightarrow> bytes \<Rightarrow> unit result \<times> (dispatch_response_kind \<times> bytes) list" where
  "invoke_bytes r frame = invoke_bytes_for r frame None"

definition invoke_bytes_scoped :: "custom_registry \<Rightarrow> bytes \<Rightarrow> dispatch_route \<Rightarrow>
    unit result \<times> (dispatch_response_kind \<times> bytes) list" where
  "invoke_bytes_scoped r frame route = invoke_bytes_for r frame (Some route)"

section \<open>Responders\<close>

text \<open>The responder of a test or of an embedding that holds the sending end of a transaction.\<close>

definition tx_responder :: "(bytes \<Rightarrow> 'r result) \<Rightarrow> peer_id \<Rightarrow> 'r dispatch_state responder" where
  "tx_responder decode peer response =
    (case dr_kind response of
       Accepted \<Rightarrow> tx_accept_raw decode peer (dr_payload response)
     | Rejected \<Rightarrow> tx_reject peer (dr_payload response)
     | ProgressKind \<Rightarrow> tx_progress peer (dr_payload response)
     | FailedKind \<Rightarrow> tx_fail peer (dr_payload response))"

text \<open>The transactions a node waits for, by identifier; the results all have one type here.\<close>

type_synonym 'r pending_table = "(u64 \<times> 'r dispatch_state) list"

definition local_responder :: "(bytes \<Rightarrow> 'r result) \<Rightarrow> peer_id \<Rightarrow> u8 \<Rightarrow> u64 \<Rightarrow> 'r pending_table responder" where
  "local_responder decode local_peer command tx_id response tbl =
    (case map_of tbl tx_id of
       None \<Rightarrow> (Inr (), tbl)
     | Some s \<Rightarrow>
         (case on_response decode local_peer (response\<lparr>dr_command := command\<rparr>) s of
            (r, s) \<Rightarrow> (r, AList.update tx_id s tbl)))"

text \<open>A response frame at its origin: the transaction takes it and leaves the table once it is resolved.\<close>

definition pending_response :: "nat \<Rightarrow> (bytes \<Rightarrow> 'r result) \<Rightarrow> peer_id \<Rightarrow> bytes \<Rightarrow> (unit, 'r pending_table) raft_op" where
  "pending_response now decode peer payload tbl =
    (case parse_response_view payload of
       Inl e \<Rightarrow> (Inl e, tbl)
     | Inr view \<Rightarrow>
         let response = view_response view; tx_id = dr_tx_id response in
         (case map_of tbl tx_id of
            None \<Rightarrow> (Inr (), tbl)
          | Some s \<Rightarrow>
              (case on_response decode peer response s of
                 (Inl e, s) \<Rightarrow> (Inl e, AList.update tx_id s tbl)
               | (Inr _, s) \<Rightarrow>
                   (case handle_is_ready now s of
                      (ready, s) \<Rightarrow> (Inr (), if ready then AList.delete tx_id tbl else AList.update tx_id s tbl)))))"

section \<open>Results\<close>

definition accepted_count :: "(peer_id \<times> 'r dispatch_peer_state) list \<Rightarrow> nat" where
  "accepted_count ps = length (filter (\<lambda>p. case snd p of PeerAccepted _ \<Rightarrow> True | _ \<Rightarrow> False) ps)"

definition failed_count :: "(peer_id \<times> 'r dispatch_peer_state) list \<Rightarrow> nat" where
  "failed_count ps = length (filter (\<lambda>p. case snd p of PeerRejected _ \<Rightarrow> True | PeerFailed _ \<Rightarrow> True | _ \<Rightarrow> False) ps)"

definition disconnected_count :: "(peer_id \<times> 'r dispatch_peer_state) list \<Rightarrow> nat" where
  "disconnected_count ps = length (filter (\<lambda>p. case snd p of Disconnected \<Rightarrow> True | _ \<Rightarrow> False) ps)"


section \<open>Setters agree\<close>

text \<open>Overriding an option of one request is the same as changing the default it starts from.\<close>

lemma builder_overrides_default:
  fixes sp :: "('p, 'r) typed_spec"
  shows
  "fst (builder_build (builder_scope sc (builder_new sp p))) = fst (builder_build (builder_new (spec_with (with_scope sc) sp) p))"
  "fst (builder_build (builder_ack_policy ap (builder_new sp p))) = fst (builder_build (builder_new (spec_with (with_ack_policy ap) sp) p))"
  "fst (builder_build (builder_ack_count c (builder_new sp p))) = fst (builder_build (builder_new (spec_with (with_ack_count c) sp) p))"
  "fst (builder_build (builder_ack_percent q (builder_new sp p))) = fst (builder_build (builder_new (spec_with (with_ack_percent q) sp) p))"
  "fst (builder_build (builder_fail_policy fp (builder_new sp p))) = fst (builder_build (builder_new (spec_with (with_fail_policy fp) sp) p))"
  "fst (builder_build (builder_fail_count d (builder_new sp p))) = fst (builder_build (builder_new (spec_with (with_fail_count d) sp) p))"
  "fst (builder_build (builder_fail_percent u (builder_new sp p))) = fst (builder_build (builder_new (spec_with (with_fail_percent u) sp) p))"
  "fst (builder_build (builder_timeout t (builder_new sp p))) = fst (builder_build (builder_new (spec_with (with_timeout t) sp) p))"
  "fst (builder_build (builder_trace tr (builder_new sp p))) = fst (builder_build (builder_new (spec_with (with_trace tr) sp) p))"
  by (simp_all add: builder_build_def builder_new_def spec_with_def build_envelope_def next_tx_id_def
      builder_scope_def builder_ack_policy_def builder_ack_count_def builder_ack_percent_def builder_fail_policy_def
      builder_fail_count_def builder_fail_percent_def builder_timeout_def builder_trace_def with_scope_def
      with_ack_policy_def with_ack_count_def with_ack_percent_def with_fail_policy_def with_fail_count_def
      with_fail_percent_def with_timeout_def with_trace_def split: sum.splits prod.splits)

section \<open>Results\<close>

text \<open>The counts of a result and the targets that never answered are all of the targets.\<close>

lemma result_counts:
  "accepted_count ps + failed_count ps + disconnected_count ps + count_peers is_pending ps = length ps"
proof (induction ps)
  case (Cons p ps)
  then show ?case
    by (cases "snd p")
      (simp_all add: accepted_count_def failed_count_def disconnected_count_def count_peers_def)
qed (simp add: accepted_count_def failed_count_def disconnected_count_def count_peers_def)

section \<open>A call and its answer\<close>

lemma registration_slot:
  "registry_ok r \<Longrightarrow> registry_on_with c sc h r = (Inr (), r') \<Longrightarrow> registry_table r' ! unat c = Some (sc, h)"
  using unat_u8_less [of c]
  by (auto simp: registry_on_with_def registry_table_def registry_ok_def split: if_splits option.splits)

lemma set_slot_found:
  "p \<in> fst ` set ps \<Longrightarrow> \<exists>qs. set_slot p f ps = Some qs \<and> (\<exists>st. (p, f st) \<in> set qs)"
proof (induction p f ps rule: set_slot.induct)
  case (2 p f q st ps)
  show ?case
  proof (cases "q = p")
    case False
    with "2.prems" have "p \<in> fst ` set ps" by auto
    from "2.IH" [OF False this] False show ?thesis by auto
  qed auto
qed simp

lemma accept_recorded:
  assumes "ds_completion s = None" "peer \<in> fst ` set (ds_peers s)"
  shows "\<exists>s'. tx_accept peer v s = (Inr (), s') \<and> (peer, PeerAccepted v) \<in> set (ds_peers s')"
  using set_slot_found [OF assms(2), of "\<lambda>_. PeerAccepted v"] assms(1)
  by (auto simp: tx_accept_def update_peer_state_def)

lemma request_reaches_handler:
  assumes build: "build_envelope options (Inr body) sp = (Inr env, sp')"
    and ok: "registry_ok r" and reg: "registry_on_typed io spr handler r = (Inr (), r')"
    and command: "sp_command (ts_spec spr) = sp_command sp"
    and route: "scope_allows (opt_scope (sp_defaults (ts_spec spr))) route"
    and params: "decode_params spr body = Inr p"
  shows "invoke_bytes_scoped r' (en_bytes env) route =
    handler p (context_new (en_tx_id env) (sp_command sp) collect_response) []"
proof -
  note wire = dispatch_request_roundtrip [OF build]
  have "registry_table r' ! unat (sp_command sp) =
      Some (opt_scope (sp_defaults (ts_spec spr)), collecting io spr handler)"
    using registration_slot [OF ok reg [unfolded registry_on_typed_def]] command by simp
  then show ?thesis
    using wire route params command
    by (simp add: invoke_bytes_scoped_def invoke_bytes_for_def Let_def collecting_def erased_handler_def
        view_params_def view_command_def view_tx_id_def)
qed


text \<open>A command whose parameters and answers are bytes as they are.\<close>

definition sample_spec :: "(bytes, bytes) typed_spec" where
  "sample_spec = \<lparr>ts_spec = dispatch_spec_new 0 7, encode_params = Inr, decode_params = Inr,
     encode_response = Inr, decode_response = Inr\<rparr>"


end
