(* ===== verification/Raft_Vote.thy ===== *)
theory Raft_Vote
  imports Raft_Replication
begin

text \<open>
  The voter's side of an election, \<open>src/api/node/election.rs\<close>: the handlers of
  vote and pre-vote requests and of their responses.  The order \<open>hard_le\<close> below
  is what every handler of the node keeps of the durable hard state: a term never
  goes back, and a vote is never changed within its term.
\<close>

section \<open>The handlers\<close>

definition candidate_up_to_date :: "request_vote \<Rightarrow> log_index \<times> raft_term \<Rightarrow> bool" where
  "candidate_up_to_date msg last_pos \<longleftrightarrow>
     rv_last_log_term msg > snd last_pos \<or>
     (rv_last_log_term msg = snd last_pos \<and> rv_last_log_index msg \<ge> fst last_pos)"

definition vote_resp :: "'s raft_node \<Rightarrow> bool \<Rightarrow> request_vote_resp" where
  "vote_resp n granted = \<lparr>rvr_term = node_term n, rvr_vote_granted = (if granted then 1 else 0),
     rvr_pad = replicate 7 0\<rparr>"

definition handle_request_vote :: "'s raft_env \<Rightarrow> peer_id \<Rightarrow> request_vote \<Rightarrow> (unit, 's raft_node) raft_op" where
  "handle_request_vote E from msg n =
     bind_op (if rv_term msg > node_term n then step_down E (rv_term msg) n else (Inr (), n)) (\<lambda>_ n.
     bind_op (with_storage (so_last_log_position (e_store E)) n) (\<lambda>last_pos n.
       let can_vote = rv_term msg = node_term n \<and> candidate_up_to_date msg last_pos \<and>
             (case voted_for (n_hard n) of Some voted \<Rightarrow> voted = rv_candidate_id msg | None \<Rightarrow> True) in
       bind_op (if can_vote
          then let n = n\<lparr>n_hard := (n_hard n)\<lparr>voted_for := Some (rv_candidate_id msg)\<rparr>\<rparr> in
            with_storage (so_save_hard_state (e_store E) (n_hard n)) n
          else (Inr (), n)) (\<lambda>_ n.
         (Inr (), snd (send_message E from (RequestVoteResp (vote_resp n can_vote)) n)))))"

definition handle_request_vote_response :: "'s raft_env \<Rightarrow> peer_id \<Rightarrow> request_vote_resp \<Rightarrow> (unit, 's raft_node) raft_op" where
  "handle_request_vote_response E from resp n =
    (if rvr_term resp > node_term n then step_down E (rvr_term resp) n else (Inr (), n))"

definition leader_active :: "nat \<Rightarrow> 's raft_node \<Rightarrow> bool" where
  "leader_active now n \<longleftrightarrow> is_leader n \<or>
    (case n_leader_contact n of
       None \<Rightarrow> False
     | Some t \<Rightarrow> now - t < max (unat (election_min_ms (cfg_timing (n_config n)))) 1)"

definition handle_pre_vote :: "'s raft_env \<Rightarrow> peer_id \<Rightarrow> request_vote \<Rightarrow> (unit, 's raft_node) raft_op" where
  "handle_pre_vote E from msg n =
     bind_op (with_storage (so_last_log_position (e_store E)) n) (\<lambda>last_pos n.
       let can_grant = \<not> leader_active (e_now E) n \<and> rv_term msg \<ge> node_term n \<and>
             candidate_up_to_date msg last_pos in
       (Inr (), snd (send_message E from (PreVoteResp (vote_resp n can_grant)) n)))"

definition handle_pre_vote_response :: "'s raft_env \<Rightarrow> peer_id \<Rightarrow> request_vote_resp \<Rightarrow> (unit, 's raft_node) raft_op" where
  "handle_pre_vote_response E from resp n =
    (if rvr_term resp > node_term n then step_down E (rvr_term resp) n else (Inr (), n))"

section \<open>The order of hard states\<close>

text \<open>A later hard state has a later term, or the same term and the same vote unless there was none.\<close>

definition hard_le :: "hard_state \<Rightarrow> hard_state \<Rightarrow> bool" where
  "hard_le h h' \<longleftrightarrow> current_term h < current_term h' \<or>
     (current_term h = current_term h' \<and> (voted_for h = None \<or> voted_for h' = voted_for h))"

lemma hard_le_refl [simp]: "hard_le h h"
  by (simp add: hard_le_def)

lemma hard_le_trans [trans]: "hard_le a b \<Longrightarrow> hard_le b c \<Longrightarrow> hard_le a c"
  by (auto simp: hard_le_def)

lemma hard_le_later: "current_term h < t \<Longrightarrow> hard_le h \<lparr>current_term = t, voted_for = v\<rparr>"
  by (simp add: hard_le_def)

lemma hard_le_vote: "voted_for h = None \<or> voted_for h = Some c \<Longrightarrow> hard_le h (h\<lparr>voted_for := Some c\<rparr>)"
  by (auto simp: hard_le_def)

lemma hard_le_term: "hard_le h h' \<Longrightarrow> current_term h \<le> current_term h'"
  by (auto simp: hard_le_def)

text \<open>Within one term at most one candidate.\<close>

lemma hard_le_one_vote:
  "hard_le h h' \<Longrightarrow> current_term h = current_term h' \<Longrightarrow> voted_for h = Some c \<Longrightarrow> voted_for h' = Some c' \<Longrightarrow> c = c'"
  by (auto simp: hard_le_def)

end
