(* ===== verification/Raft_Snapshot.thy ===== *)
theory Raft_Snapshot
  imports Raft_Replication
begin

text \<open>
  Snapshots and log compaction: the follower's side of a transfer
  (\<open>handle_install_snapshot\<close> of \<open>src/api/node/snapshot.rs\<close>), the restore of the
  state machine at start (\<open>src/api/node/snapshot_install.rs\<close>) and the compaction
  of the applied prefix (\<open>src/api/node/log_compaction.rs\<close>).  The state machine is
  code of the application: \<open>restore\<close> and the bytes of \<open>snapshot\<close> are arguments.
\<close>

section \<open>Receiving a snapshot\<close>

definition snapshot_resp :: "'s raft_node \<Rightarrow> bool \<Rightarrow> u64 \<Rightarrow> raft_message" where
  "snapshot_resp n accepted next_offset = InstallSnapshotResp \<lparr>isr_term = node_term n,
     isr_next_offset = next_offset, isr_accepted = (if accepted then 1 else 0), isr_pad = replicate 7 0\<rparr>"

text \<open>
  What both installation paths do with the log: a boundary entry of another term
  discards the whole log, otherwise the prefix goes; the ring, the cached last
  position and the boundary are seated at the snapshot.
\<close>

definition seat_at_boundary :: "'s raft_env \<Rightarrow> snapshot_meta \<Rightarrow> (unit, 's raft_node) raft_op" where
  "seat_at_boundary E meta n =
    (let last_idx = last_included_index meta; last_trm = last_included_term meta in
     bind_op (with_storage (so_term_at (e_store E) last_idx) n) (\<lambda>t n.
       let boundary_conflict = (case t of Some t \<Rightarrow> t \<noteq> last_trm | None \<Rightarrow> False) in
       bind_op (with_storage (if boundary_conflict then so_truncate_suffix (e_store E) 1
           else so_truncate_before (e_store E) (sat_add last_idx 1)) n) (\<lambda>_ n.
         (Inr (), n\<lparr>n_log_metadata := arena_clear (sat_add last_idx 1) (n_log_metadata n),
             n_last_log := (last_idx, last_trm), n_snapshot_boundary := (last_idx, last_trm)\<rparr>))))"

definition complete_snapshot :: "'s raft_env \<Rightarrow> pending_snapshot \<Rightarrow> (unit, 's raft_node) raft_op" where
  "complete_snapshot E completed n =
    (let meta = ps_meta completed in
     bind_op (with_storage (so_save_snapshot (e_store E) meta (ps_bytes completed)) n) (\<lambda>_ n.
       let n = (if commit_index n < last_included_index meta
                then set_commit_index (last_included_index meta) n else n) in
       seat_at_boundary E meta n))"

text \<open>The transfer record of a sender, fresh or restarted when the chunk begins a snapshot.\<close>

definition open_transfer :: "'s raft_env \<Rightarrow> peer_id \<Rightarrow> snapshot_meta \<Rightarrow> u64 \<Rightarrow> 's raft_node \<Rightarrow> pending_snapshot" where
  "open_transfer E from meta offset n =
    (let stall = unat (snapshot_stall_timeout_ms (cfg_limits (n_config n)));
         pending = (case pm_get from (n_pending_snapshots n) of
            Some p \<Rightarrow> p | None \<Rightarrow> pending_snapshot_new (e_now E) meta stall)
     in if offset = 0 \<or> ps_meta pending \<noteq> meta then pending_snapshot_reset (e_now E) meta stall pending
        else pending)"

definition receive_chunk :: "'s raft_env \<Rightarrow> peer_id \<Rightarrow> install_snapshot \<Rightarrow> bytes \<Rightarrow> snapshot_meta \<Rightarrow> (unit, 's raft_node) raft_op" where
  "receive_chunk E from msg payload meta n =
    (let stall = unat (snapshot_stall_timeout_ms (cfg_limits (n_config n)));
         max_bytes = max_snapshot_bytes (cfg_limits (n_config n));
         pending = open_transfer E from meta (is_offset msg) n;
         n = n\<lparr>n_pending_snapshots := pm_insert from pending (n_pending_snapshots n)\<rparr> in
     if u64_of (length (ps_bytes pending)) \<noteq> is_offset msg
     then (Inr (), snd (send_message E from (snapshot_resp n False (u64_of (length (ps_bytes pending)))) n))
     else if length (ps_bytes pending) + length payload > max_bytes
     then let n = n\<lparr>n_pending_snapshots := pm_remove from (n_pending_snapshots n)\<rparr> in
       (Inl (Snapshot (''install snapshot exceeds max_snapshot_bytes ('' @ dec_str max_bytes @ '')'')),
        snd (send_message E from (snapshot_resp n False 0) n))
     else
       let pending = pending_snapshot_touch (e_now E) stall (pending\<lparr>ps_bytes := ps_bytes pending @ payload\<rparr>);
           n = n\<lparr>n_pending_snapshots := pm_insert from pending (n_pending_snapshots n)\<rparr> in
       bind_op (if is_done msg \<noteq> 0
          then complete_snapshot E pending (n\<lparr>n_pending_snapshots := pm_remove from (n_pending_snapshots n)\<rparr>)
          else (Inr (), n)) (\<lambda>_ n.
         (Inr (), snd (send_message E from (snapshot_resp n True (u64_of (length (ps_bytes pending)))) n))))"

definition handle_install_snapshot :: "'s raft_env \<Rightarrow> peer_id \<Rightarrow> install_snapshot \<Rightarrow> bytes \<Rightarrow> (unit, 's raft_node) raft_op" where
  "handle_install_snapshot E from msg payload n =
    (let meta = \<lparr>last_included_index = is_last_included_index msg, last_included_term = is_last_included_term msg\<rparr> in
     if word_of_nat (length payload) \<noteq> is_chunk_len msg
     then (Inl (Protocol ''install snapshot chunk_len mismatch''), n)
     else if from \<notin> set (peers n) then (Inr (), inc_frames_dropped_nonfatal n)
     else let n = snd (evict_stalled_snapshots (e_now E) n) in
       if is_term msg < node_term n
       then (Inr (), snd (send_message E from (snapshot_resp n False 0) n))
       else bind_op (if is_term msg > node_term n then step_down E (is_term msg) n else (Inr (), n)) (\<lambda>_ n.
         receive_chunk E from msg payload meta
           (n\<lparr>n_soft := (n_soft n)\<lparr>soft_role := Follower, soft_is_leader := False,
                leader_id := Some (is_leader_id msg)\<rparr>\<rparr>)))"

definition handle_install_snapshot_response :: "'s raft_env \<Rightarrow> peer_id \<Rightarrow> install_snapshot_resp \<Rightarrow> (unit, 's raft_node) raft_op" where
  "handle_install_snapshot_response E from resp n =
    (if isr_term resp > node_term n then step_down E (isr_term resp) n else (Inr (), n))"

section \<open>Restoring the state machine\<close>

definition restore_state_machine_from_snapshot ::
    "'s raft_env \<Rightarrow> (bytes \<Rightarrow> (unit, 'm) raft_op) \<Rightarrow> (bool, 'm \<times> 's raft_node) raft_op" where
  "restore_state_machine_from_snapshot E restore = (\<lambda>(sm, n).
    (case with_storage (so_load_snapshot_meta (e_store E)) n of
       (Inl e, n) \<Rightarrow> (Inl e, sm, n)
     | (Inr None, n) \<Rightarrow> (Inr False, sm, n)
     | (Inr (Some probe), n) \<Rightarrow>
         if last_included_index probe \<le> n_last_applied n then (Inr False, sm, n)
         else case with_storage (so_load_snapshot (e_store E)) n of
           (Inl e, n) \<Rightarrow> (Inl e, sm, n)
         | (Inr None, n) \<Rightarrow> (Inr False, sm, n)
         | (Inr (Some (meta, payload)), n) \<Rightarrow>
             (case restore payload sm of
                (Inl e, sm) \<Rightarrow> (Inl e, sm, n)
              | (Inr _, sm) \<Rightarrow>
                  let n = (if commit_index n < last_included_index meta
                           then set_commit_index (last_included_index meta) n else n);
                      n = set_last_applied (last_included_index meta) n in
                  (case seat_at_boundary E meta n of
                     (Inl e, n) \<Rightarrow> (Inl e, sm, n)
                   | (Inr _, n) \<Rightarrow> (Inr True, sm, n\<lparr>n_debt_entries := 0, n_debt_bytes := 0\<rparr>)))))"

section \<open>Log compaction\<close>

definition inc_log_compactions :: "'s raft_node \<Rightarrow> 's raft_node" where
  "inc_log_compactions n =
     n\<lparr>n_metrics := (n_metrics n)\<lparr>m_log_compactions := m_log_compactions (n_metrics n) + 1\<rparr>\<rparr>"

text \<open>The lowest acknowledged index of the other voters, clamped by the applied index.\<close>

fun voter_horizon :: "peer_progress peer_map \<Rightarrow> peer_id \<Rightarrow> peer_id list \<Rightarrow> log_index \<Rightarrow> log_index" where
  "voter_horizon progress self [] horizon = horizon"
| "voter_horizon progress self (p # ps) horizon =
    (if p = self then voter_horizon progress self ps horizon
     else let matched = (case pm_get p progress of Some q \<Rightarrow> match_index q | None \<Rightarrow> 0)
       in voter_horizon progress self ps (if matched < horizon then matched else horizon))"

definition compact_with_horizon :: "'s raft_env \<Rightarrow> bytes result \<Rightarrow> log_index \<Rightarrow> (snapshot_meta, 's raft_node) raft_op" where
  "compact_with_horizon E sm_snapshot up_to n =
     bind_op (term_at E (n_last_applied n) n) (\<lambda>trm n.
       let meta = \<lparr>last_included_index = n_last_applied n, last_included_term = trm\<rparr> in
       case sm_snapshot of
         Inl e \<Rightarrow> (Inl e, n)
       | Inr payload \<Rightarrow>
           bind_op (with_storage (so_save_snapshot (e_store E) meta payload) n) (\<lambda>_ n.
             let n = n\<lparr>n_snapshot_boundary := (last_included_index meta, last_included_term meta),
                       n_debt_entries := 0, n_debt_bytes := 0\<rparr> in
             bind_op (if up_to > 0 then with_storage (so_truncate_before (e_store E) up_to) n else (Inr (), n)) (\<lambda>_ n.
               (Inr meta, inc_log_compactions n))))"

definition maybe_compact :: "'s raft_env \<Rightarrow> bytes result \<Rightarrow> (snapshot_meta option, 's raft_node) raft_op" where
  "maybe_compact E sm_snapshot n =
    (let limits = cfg_limits (n_config n);
         by_entries = compaction_threshold_entries limits \<noteq> 0 \<and> n_debt_entries n \<ge> compaction_threshold_entries limits;
         by_bytes = compaction_threshold_bytes limits \<noteq> 0 \<and> n_debt_bytes n \<ge> compaction_threshold_bytes limits in
     if \<not> by_entries \<and> \<not> by_bytes then (Inr None, n)
     else if \<not> pm_is_empty (n_pending_snapshots n) then (Inr None, n)
     else if n_last_applied n = 0 then (Inr None, n)
     else bind_op (with_storage (so_load_snapshot_meta (e_store E)) n) (\<lambda>existing n.
       if (case existing of Some m \<Rightarrow> last_included_index m \<ge> n_last_applied n | None \<Rightarrow> False)
       then (Inr None, n\<lparr>n_debt_entries := 0, n_debt_bytes := 0\<rparr>)
       else
         let horizon = (if is_leader n
               then voter_horizon (n_progress n) (node_id n) (peers n) (n_last_applied n) else n_last_applied n);
             up_to = sat_sub horizon (compaction_min_retain limits) in
         bind_op (compact_with_horizon E sm_snapshot up_to n) (\<lambda>meta n. (Inr (Some meta), n))))"

end
