(* ===== verification/Raft_Transfer.thy ===== *)
theory Raft_Transfer
  imports Raft_Replication
begin

text \<open>
  Leadership transfer, \<open>src/api/node/transfer.rs\<close>: the freeze of client work while
  a hand-off is open, the target's handling of the leader's sanction and its
  consumption by the run loop.  The leader's own side, which drives other
  handlers while it waits, is in the theory \<open>Raft_Heartbeat\<close>.
\<close>

definition leadership_transfer_in_progress :: "nat \<Rightarrow> 's raft_node \<Rightarrow> bool \<times> 's raft_node" where
  "leadership_transfer_in_progress now n =
    (case n_pending_transfer n of
       Some t \<Rightarrow> if now < pt_deadline t then (True, n) else (False, n\<lparr>n_pending_transfer := None\<rparr>)
     | None \<Rightarrow> (False, n))"

definition check_transfer_freeze :: "nat \<Rightarrow> (unit, 's raft_node) raft_op" where
  "check_transfer_freeze now n =
    (case leadership_transfer_in_progress now n of
       (True, n) \<Rightarrow> (Inl (NotLeader (map_option pt_target (n_pending_transfer n))), n)
     | (False, n) \<Rightarrow> (Inr (), n))"

definition handle_timeout_now :: "'s raft_env \<Rightarrow> peer_id \<Rightarrow> timeout_now \<Rightarrow> (unit, 's raft_node) raft_op" where
  "handle_timeout_now E from msg n =
    (if tn_term msg < node_term n then (Inr (), n)
     else bind_op (if tn_term msg > node_term n then step_down E (tn_term msg) n else (Inr (), n)) (\<lambda>_ n.
       if is_leader n then (Inr (), n)
       else if node_id n \<notin> set (peers n) then (Inr (), n)
       else if tn_term msg = node_term n \<and>
            (case leader_id (n_soft n) of Some leader \<Rightarrow> leader \<noteq> from | None \<Rightarrow> False) then (Inr (), n)
       else (Inr (), n\<lparr>n_forced_campaign_term := Some (node_term n)\<rparr>)))"

definition take_forced_campaign :: "'s raft_node \<Rightarrow> bool \<times> 's raft_node" where
  "take_forced_campaign n =
    (case n_forced_campaign_term n of
       Some t \<Rightarrow> (t = node_term n \<and> \<not> is_leader n \<and> node_id n \<in> set (peers n), n\<lparr>n_forced_campaign_term := None\<rparr>)
     | None \<Rightarrow> (False, n))"

end
