(* ===== verification/Raft_Inbound.thy ===== *)
theory Raft_Inbound
  imports Raft_Vote Raft_Snapshot Raft_Transfer Dispatch_Registry
begin

text \<open>
  The dispatch of one inbound message to its handler (\<open>handle_inbound\<close> and
  \<open>handle_inbound_tolerant\<close> of \<open>src/api/node/mod.rs\<close>), the custom-message handlers
  and the start of a custom dispatch (\<open>src/api/node/dispatch.rs\<close>), and the bounded
  drain of inbound frames that the waiting loops share
  (\<open>drain_inbound_frames\<close> of \<open>src/api/node/election.rs\<close>).

  A registered handler and the transaction behind a pending identifier are
  arguments: \<open>ce_registry\<close> is the sealed handler table, and \<open>ce_response\<close> is what
  the transaction of an identifier answers to a response, together with whether
  it is then complete.
\<close>

section \<open>Custom messages\<close>

record custom_env =
  ce_registry :: custom_registry
  ce_response :: "u64 \<Rightarrow> peer_id \<Rightarrow> dispatch_response \<Rightarrow> unit result \<times> bool"

definition own_role :: "'s raft_node \<Rightarrow> dispatch_node_role" where
  "own_role n = (if is_leader n then LeaderRole else FollowerRole)"

text \<open>The answer of a handler goes back to the sender as a custom response.\<close>

definition send_custom_response :: "'s raft_env \<Rightarrow> peer_id \<Rightarrow> bytes \<Rightarrow> dispatch_response_kind \<times> bytes \<Rightarrow> 's raft_node \<Rightarrow> 's raft_node" where
  "send_custom_response E target view kp n =
    (let h = dec_dispatch_header view in
     case encode_dispatch_response \<lparr>dr_tx_id = dh_tx_id h, dr_command = dh_command h, dr_kind = fst kp, dr_payload = snd kp\<rparr> of
       Inl _ \<Rightarrow> n
     | Inr inner \<Rightarrow> snd (send_message E target (CustomResponse inner) n))"

definition handle_custom_message :: "'s raft_env \<Rightarrow> custom_env \<Rightarrow> peer_id \<Rightarrow> bytes \<Rightarrow> (unit, 's raft_node) raft_op" where
  "handle_custom_message E C from payload n =
    (case invoke_bytes_for (ce_registry C) payload (Some \<lparr>route_role = own_role n, is_origin = (from = node_id n)\<rparr>) of
       (r, responses) \<Rightarrow> (r, fold (send_custom_response E from payload) responses n))"

definition handle_custom_response :: "custom_env \<Rightarrow> peer_id \<Rightarrow> bytes \<Rightarrow> (unit, 's raft_node) raft_op" where
  "handle_custom_response C from payload n =
    (case parse_response_view payload of
       Inl e \<Rightarrow> (Inl e, n)
     | Inr view \<Rightarrow>
         let response = view_response view in
         if dr_tx_id response \<in> set (n_pending_custom n)
         then case ce_response C (dr_tx_id response) from response of
             (Inl e, _) \<Rightarrow> (Inl e, n)
           | (Inr _, ready) \<Rightarrow> (Inr (), if ready
               then n\<lparr>n_pending_custom := filter (\<lambda>t. t \<noteq> dr_tx_id response) (n_pending_custom n)\<rparr> else n)
         else (Inr (), n))"

definition route_for_peer :: "'s raft_node \<Rightarrow> peer_id \<Rightarrow> dispatch_route" where
  "route_for_peer n peer =
    (if peer = node_id n then \<lparr>route_role = own_role n, is_origin = True\<rparr>
     else if is_leader n then \<lparr>route_role = FollowerRole, is_origin = False\<rparr>
     else \<lparr>route_role = (if leader_id (n_soft n) = Some peer then LeaderRole else FollowerRole), is_origin = False\<rparr>)"

definition dispatch_targets :: "'s raft_node \<Rightarrow> dispatch_scope \<Rightarrow> peer_id list" where
  "dispatch_targets n scope = filter (\<lambda>peer.
     if peer = node_id n \<and> length (peers n) > 1 \<and> \<not> is_leader n then scope = LocalOnly
     else scope_allows scope (route_for_peer n peer)) (peers n)"

text \<open>A frame handed to the transport by value; the argument counts the sends that succeeded.\<close>

definition send_owned :: "'s raft_env \<Rightarrow> raft_message \<Rightarrow> peer_id \<Rightarrow> nat \<times> 's raft_node \<Rightarrow> nat \<times> 's raft_node" where
  "send_owned E msg peer = (\<lambda>(sent, n).
     (if e_send_ok E (length (n_outbox n)) peer then Suc sent else sent, n\<lparr>n_outbox := n_outbox n @ [(peer, msg)]\<rparr>))"

definition broadcast :: "'s raft_env \<Rightarrow> raft_message \<Rightarrow> peer_id list \<Rightarrow> (nat, 's raft_node) raft_op" where
  "broadcast E msg targets n =
    (case encode_message_to_bytes (node_id n) msg of
       Inl e \<Rightarrow> (Inl e, n)
     | Inr _ \<Rightarrow> (case fold (send_owned E msg) targets (0, n) of (sent, n) \<Rightarrow> (Inr sent, n)))"

definition node_dispatch :: "'s raft_env \<Rightarrow> custom_env \<Rightarrow> dispatch_envelope \<Rightarrow> (peer_id list, 's raft_node) raft_op" where
  "node_dispatch E C envelope n =
    (let targets = dispatch_targets n (opt_scope (en_options envelope));
         n = n\<lparr>n_pending_custom := en_tx_id envelope # filter (\<lambda>t. t \<noteq> en_tx_id envelope) (n_pending_custom n)\<rparr> in
     bind_op (broadcast E (Custom (en_bytes envelope)) (filter (\<lambda>p. p \<noteq> node_id n) targets) n) (\<lambda>_ n.
       if node_id n \<in> set targets
       then (case invoke_bytes_for (ce_registry C) (en_bytes envelope) (Some (route_for_peer n (node_id n))) of
               (Inl e, _) \<Rightarrow> (Inl e, n)
             | (Inr _, _) \<Rightarrow> (Inr targets, n))
       else (Inr targets, n)))"

section \<open>One message\<close>

definition stamp_contact :: "'s raft_env \<Rightarrow> inbound_message \<Rightarrow> 's raft_node \<Rightarrow> 's raft_node" where
  "stamp_contact E m n =
    (if is_leader n \<and> in_from m \<in> set (peers n) \<and> message_term (in_message m) = Some (node_term n)
     then n\<lparr>n_voter_contact := pm_insert (in_from m) (e_now E) (n_voter_contact n)\<rparr> else n)"

definition handle_inbound :: "'s raft_env \<Rightarrow> custom_env \<Rightarrow> inbound_message \<Rightarrow> (unit, 's raft_node) raft_op" where
  "handle_inbound E C m n =
    (let from = in_from m; n = stamp_contact E m n in
     case in_message m of
       AppendEntries msg payload \<Rightarrow> handle_append_entries E from msg payload n
     | AppendEntriesSeeded msg headers payloads \<Rightarrow> handle_append_entries_seeded E from msg headers payloads n
     | AppendEntriesResp msg \<Rightarrow> handle_append_entries_response E from msg n
     | Custom payload \<Rightarrow> handle_custom_message E C from payload n
     | CustomResponse payload \<Rightarrow> handle_custom_response C from payload n
     | RequestVote msg \<Rightarrow> handle_request_vote E from msg n
     | RequestVoteResp msg \<Rightarrow> handle_request_vote_response E from msg n
     | PreVote msg \<Rightarrow> handle_pre_vote E from msg n
     | PreVoteResp msg \<Rightarrow> handle_pre_vote_response E from msg n
     | InstallSnapshot msg payload \<Rightarrow> handle_install_snapshot E from msg payload n
     | InstallSnapshotResp msg \<Rightarrow> handle_install_snapshot_response E from msg n
     | TimeoutNow msg \<Rightarrow> handle_timeout_now E from msg n
     | AppendEntriesVectored _ _ \<Rightarrow> (Inl (Protocol ''unexpected vectored inbound''), n)
     | AppendEntriesSeededVectored _ _ _ \<Rightarrow> (Inl (Protocol ''unexpected vectored inbound''), n))"

definition handle_inbound_tolerant :: "'s raft_env \<Rightarrow> custom_env \<Rightarrow> inbound_message \<Rightarrow> (unit, 's raft_node) raft_op" where
  "handle_inbound_tolerant E C m n =
    (case handle_inbound E C m n of
       (Inl e, n) \<Rightarrow> (if is_fatal e then Inl e else Inr (), n)
     | (Inr _, n) \<Rightarrow> (Inr (), n))"

text \<open>Handling the frames of a batch one after the other, until a fatal error.\<close>

fun handle_all_tolerant :: "'s raft_env \<Rightarrow> custom_env \<Rightarrow> inbound_message list \<Rightarrow> (unit, 's raft_node) raft_op" where
  "handle_all_tolerant E C [] n = (Inr (), n)"
| "handle_all_tolerant E C (m # ms) n =
     bind_op (handle_inbound_tolerant E C m n) (\<lambda>_ n. handle_all_tolerant E C ms n)"

fun handle_all :: "'s raft_env \<Rightarrow> custom_env \<Rightarrow> inbound_message list \<Rightarrow> (unit, 's raft_node) raft_op" where
  "handle_all E C [] n = (Inr (), n)"
| "handle_all E C (m # ms) n = bind_op (handle_inbound E C m n) (\<lambda>_ n. handle_all E C ms n)"

section \<open>Draining inbound frames\<close>

text \<open>
  What the transport answers to one receive call: the clock when the call is made
  and its result.  When the list of answers is exhausted every further call times
  out.
\<close>

record recv_event =
  ev_now :: nat
  ev_recv :: "bytes option result"

fun drain_inbound_frames :: "nat \<Rightarrow> nat \<Rightarrow> inbound_message list \<Rightarrow> recv_event list \<Rightarrow>
    inbound_message list result \<times> recv_event list" where
  "drain_inbound_frames deadline room got [] = (Inr got, [])"
| "drain_inbound_frames deadline room got (ev # evs) =
    (if length got \<ge> 16 \<or> room = 0 then (Inr got, ev # evs)
     else if got = [] \<and> ev_now ev \<ge> deadline then (Inr got, ev # evs)
     else case ev_recv ev of
       Inl e \<Rightarrow> (if is_fatal e then Inl e else Inr got, evs)
     | Inr None \<Rightarrow> (Inr got, evs)
     | Inr (Some frame) \<Rightarrow>
         (case decode_message frame of
            Inr m \<Rightarrow> drain_inbound_frames deadline (room - length frame) (got @ [m]) evs
          | Inl _ \<Rightarrow> drain_inbound_frames deadline (room - length frame) got evs))"

end
