(* ===== verification/Raft_Campaign.thy ===== *)
theory Raft_Campaign
  imports Raft_Inbound
begin

text \<open>
  The candidate's side of an election, \<open>src/api/node/election.rs\<close>: the pre-vote
  round (\<open>campaign_pre_vote\<close>) and the election (\<open>campaign_once\<close>, \<open>collect_votes\<close>).
  While it waits for answers the candidate handles every other frame it receives;
  the answers of the transport during one call are the list of receive events,
  and the length of the caller's buffer is \<open>room\<close>.
\<close>

section \<open>Counting one batch of answers\<close>

fun vote_answer :: "raft_message \<Rightarrow> request_vote_resp option" where
  "vote_answer (RequestVoteResp r) = Some r"
| "vote_answer _ = None"

fun pre_vote_answer :: "raft_message \<Rightarrow> request_vote_resp option" where
  "pre_vote_answer (PreVoteResp r) = Some r"
| "pre_vote_answer _ = None"

text \<open>
  The first pass over a batch: each responder once, an answer of a later term
  ends the campaign (\<open>None\<close>), a grant of a voter for the term is recorded.
\<close>

fun count_answers :: "(raft_message \<Rightarrow> request_vote_resp option) \<Rightarrow> 's raft_env \<Rightarrow> raft_term \<Rightarrow> inbound_message list \<Rightarrow>
    peer_id list \<times> peer_id list \<Rightarrow> ((peer_id list \<times> peer_id list) option, 's raft_node) raft_op" where
  "count_answers answer E trm [] tally n = (Inr (Some tally), n)"
| "count_answers answer E trm (m # ms) (granted, responders) n =
    (case answer (in_message m) of
       None \<Rightarrow> count_answers answer E trm ms (granted, responders) n
     | Some resp \<Rightarrow>
         if in_from m \<in> set responders then count_answers answer E trm ms (granted, responders) n
         else if rvr_term resp > node_term n
         then bind_op (step_down E (rvr_term resp) n) (\<lambda>_ n. (Inr None, n))
         else count_answers answer E trm ms
           (if rvr_term resp = trm \<and> rvr_vote_granted resp \<noteq> 0 \<and> in_from m \<in> set (peers n)
            then granted @ [in_from m] else granted, responders @ [in_from m]) n)"

text \<open>The clock while a batch is handled: that of the receive call that ended it.\<close>

definition batch_env :: "'s raft_env \<Rightarrow> recv_event list \<Rightarrow> recv_event list \<Rightarrow> 's raft_env" where
  "batch_env E evs evs' =
    (case take (length evs - length evs') evs of [] \<Rightarrow> E | l \<Rightarrow> E\<lparr>e_now := ev_now (last l)\<rparr>)"

lemma drain_shorter:
  "drain_inbound_frames deadline room got evs = (Inr ms, evs') \<Longrightarrow>
   length evs' \<le> length evs \<and> (length got < length ms \<longrightarrow> length evs' < length evs)"
proof (induction evs arbitrary: room got)
  case (Cons ev evs)
  then show ?case by (fastforce split: if_splits sum.splits option.splits)
qed simp

lemma drain_progress [simp]:
  assumes "(Inr ms, evs') = drain_inbound_frames deadline room [] evs" and "ms \<noteq> []"
  shows "length evs' < length evs"
  using drain_shorter [OF assms(1) [symmetric]] assms(2) by simp

section \<open>The election\<close>

function collect_votes :: "'s raft_env \<Rightarrow> custom_env \<Rightarrow> raft_term \<Rightarrow> nat \<Rightarrow> nat \<Rightarrow> nat \<Rightarrow> peer_id list \<times> peer_id list \<Rightarrow>
    recv_event list \<Rightarrow> (bool, 's raft_node) raft_op" where
  "collect_votes E C trm possible_votes deadline room tally evs n =
    (if voter_majority n (fst tally) \<or> length (snd tally) \<ge> possible_votes
     then (Inr (voter_majority n (fst tally)), n)
     else case drain_inbound_frames deadline room [] evs of
       (Inl e, _) \<Rightarrow> (Inl e, n)
     | (Inr ms, evs') \<Rightarrow>
         if ms = [] then (Inl NoQuorum, n)
         else let E' = batch_env E evs evs' in
           bind_op (count_answers vote_answer E' trm ms tally n) (\<lambda>counted n.
           case counted of
             None \<Rightarrow> (Inr False, n)
           | Some tally \<Rightarrow>
               if voter_majority n (fst tally) then (Inr True, n)
               else bind_op (handle_all_tolerant E' C (filter (\<lambda>m. vote_answer (in_message m) = None) ms) n) (\<lambda>_ n.
                 if role n \<noteq> Candidate \<or> node_term n \<noteq> trm then (Inr False, n)
                 else collect_votes E C trm possible_votes deadline room tally evs' n)))"
  by pat_completeness auto
termination
  by (relation "measure (\<lambda>(E, C, trm, possible_votes, deadline, room, tally, evs, n). length evs)") auto

definition vote_request :: "raft_term \<Rightarrow> 's raft_node \<Rightarrow> log_index \<times> raft_term \<Rightarrow> request_vote" where
  "vote_request trm n last_pos = \<lparr>rv_term = trm, rv_candidate_id = node_id n,
     rv_last_log_index = fst last_pos, rv_last_log_term = snd last_pos\<rparr>"

definition other_voters :: "'s raft_node \<Rightarrow> peer_id list" where
  "other_voters n = filter (\<lambda>p. p \<noteq> node_id n) (peers n)"

definition become_candidate :: "'s raft_node \<Rightarrow> 's raft_node" where
  "become_candidate n =
    (let n = inc_elections_started (n\<lparr>n_soft := (n_soft n)\<lparr>soft_role := Candidate, soft_is_leader := False,
          leader_id := None\<rparr>\<rparr>)
     in n\<lparr>n_hard := \<lparr>current_term = sat_add (node_term n) 1, voted_for = Some (node_id n)\<rparr>\<rparr>)"

definition become_leader :: "'s raft_env \<Rightarrow> 's raft_node \<Rightarrow> 's raft_node" where
  "become_leader E n = initialize_leader_progress E (inc_elections_won
     (n\<lparr>n_soft := (n_soft n)\<lparr>soft_role := Leader, soft_is_leader := True, leader_id := Some (node_id n)\<rparr>\<rparr>))"

definition campaign_once :: "'s raft_env \<Rightarrow> custom_env \<Rightarrow> nat \<Rightarrow> recv_event list \<Rightarrow> (bool, 's raft_node) raft_op" where
  "campaign_once E C room evs n =
    (if node_id n \<notin> set (peers n) then (Inr False, n)
     else let n = become_candidate n; trm = node_term n in
       bind_op (with_storage (so_save_hard_state (e_store E) (n_hard n)) n) (\<lambda>_ n.
       let votes_needed = quorum (length (peers n)) in
       bind_op (with_storage (so_last_log_position (e_store E)) n) (\<lambda>last_pos n.
       bind_op (broadcast E (RequestVote (vote_request trm n last_pos)) (other_voters n) n) (\<lambda>sent n.
         let possible_votes = 1 + sent in
         if possible_votes < votes_needed then (Inl NoQuorum, n)
         else bind_op (collect_votes E C trm possible_votes (e_now E + election_timeout n) room ([node_id n], []) evs n)
           (\<lambda>won n.
             if \<not> won then (Inr False, n)
             else if role n \<noteq> Candidate \<or> node_term n \<noteq> trm then (Inr False, n)
             else (Inr True, become_leader E n))))))"

section \<open>The pre-vote round\<close>

function collect_pre_votes :: "'s raft_env \<Rightarrow> custom_env \<Rightarrow> raft_term \<Rightarrow> nat \<Rightarrow> nat \<Rightarrow> nat \<Rightarrow> peer_id list \<times> peer_id list \<Rightarrow>
    recv_event list \<Rightarrow> (bool, 's raft_node) raft_op" where
  "collect_pre_votes E C pre_vote_term possible_votes deadline room tally evs n =
    (if voter_majority n (fst tally) \<or> length (snd tally) \<ge> possible_votes
     then (Inr (voter_majority n (fst tally)), n)
     else case drain_inbound_frames deadline room [] evs of
       (Inl e, _) \<Rightarrow> (Inl e, n)
     | (Inr ms, evs') \<Rightarrow>
         if ms = [] then (Inr False, n)
         else let E' = batch_env E evs evs' in
           bind_op (count_answers pre_vote_answer E' (node_term n) ms tally n) (\<lambda>counted n.
           case counted of
             None \<Rightarrow> (Inr False, n)
           | Some tally \<Rightarrow>
               if voter_majority n (fst tally) then (Inr True, n)
               else bind_op (handle_all E' C (filter (\<lambda>m. pre_vote_answer (in_message m) = None) ms) n) (\<lambda>_ n.
                 if node_term n \<ge> pre_vote_term then (Inr False, n)
                 else collect_pre_votes E C pre_vote_term possible_votes deadline room tally evs' n)))"
  by pat_completeness auto
termination
  by (relation "measure (\<lambda>(E, C, trm, possible_votes, deadline, room, tally, evs, n). length evs)") auto

definition campaign_pre_vote :: "'s raft_env \<Rightarrow> custom_env \<Rightarrow> nat \<Rightarrow> recv_event list \<Rightarrow> (bool, 's raft_node) raft_op" where
  "campaign_pre_vote E C room evs n =
    (if node_id n \<notin> set (peers n) then (Inr False, n)
     else let pre_vote_term = sat_add (node_term n) 1; votes_needed = quorum (length (peers n)) in
       bind_op (with_storage (so_last_log_position (e_store E)) n) (\<lambda>last_pos n.
       bind_op (broadcast E (PreVote (vote_request pre_vote_term n last_pos)) (other_voters n) n) (\<lambda>sent n.
         let possible_votes = 1 + sent in
         if possible_votes < votes_needed then (Inr False, n)
         else collect_pre_votes E C pre_vote_term possible_votes (e_now E + election_timeout n) room
           ([node_id n], []) evs n)))"

end
