(* ===== verification/Raft_Heartbeat.thy ===== *)
theory Raft_Heartbeat
  imports Raft_Campaign
begin

text \<open>
  The leader's periodic work: heartbeats and backlog repair
  (\<open>src/api/node/replication/heartbeat.rs\<close>), the streaming of a snapshot to a peer
  that fell behind the log (\<open>install_snapshot_once\<close> of \<open>src/api/node/snapshot.rs\<close>
  and its gate in \<open>src/api/node/snapshot_install.rs\<close>), the wires of the batched
  heartbeats (\<open>heartbeat_batch.rs\<close>) and the leader's side of a leadership transfer
  (\<open>src/api/node/transfer.rs\<close>).

  These operations wait for frames while they run.  Their state is the node, the
  peer list \<open>scratch_peers\<close> that the node shares between its operations, and the
  answers the transport will still give.
\<close>

type_synonym 's drive = "'s raft_node \<times> peer_id list \<times> recv_event list"

text \<open>The clock when the next receive call is made.\<close>

definition at_clock :: "'s raft_env \<Rightarrow> recv_event list \<Rightarrow> 's raft_env" where
  "at_clock E evs = (case evs of [] \<Rightarrow> E | ev # _ \<Rightarrow> E\<lparr>e_now := ev_now ev\<rparr>)"

section \<open>Bare heartbeats\<close>

definition build_heartbeat_wire :: "'s raft_env \<Rightarrow> peer_id \<Rightarrow> (append_entries option, 's raft_node) raft_op" where
  "build_heartbeat_wire E peer n =
    (if \<not> is_leader n then (Inr None, n)
     else let n = ensure_leader_progress_initialized E n in
       bind_op (append_prev_for_peer E peer n) (\<lambda>(prev_idx, prev_term, next) n.
       bind_op (with_storage (so_read_entries (e_store E) next (- 1) SCRATCH_PAYLOAD_LEN) n) (\<lambda>_ n.
         (Inr (Some (append_request n prev_idx prev_term 0)), n))))"

definition bare_heartbeat :: "'s raft_env \<Rightarrow> peer_id \<Rightarrow> 's raft_node \<Rightarrow> 's raft_node" where
  "bare_heartbeat E peer n =
    (case build_heartbeat_wire E peer n of
       (Inr (Some req), n) \<Rightarrow> snd (send_message E peer (AppendEntriesVectored req []) n)
     | (_, n) \<Rightarrow> n)"

definition followers :: "'s raft_node \<Rightarrow> peer_id list" where
  "followers n = filter (\<lambda>p. p \<noteq> node_id n) (peers n @ learners n)"

definition send_bare_heartbeats_except :: "'s raft_env \<Rightarrow> peer_id \<Rightarrow> 's raft_node \<times> peer_id list \<Rightarrow> 's raft_node \<times> peer_id list" where
  "send_bare_heartbeats_except E skip = (\<lambda>(n, scratch).
     if \<not> is_leader n then (n, scratch)
     else let scratch = filter (\<lambda>p. p \<noteq> skip) (followers n) in (fold (bare_heartbeat E) scratch n, scratch))"

section \<open>Streaming a snapshot\<close>

definition snapshot_chunk :: "'s raft_node \<Rightarrow> snapshot_meta \<Rightarrow> bytes \<Rightarrow> nat \<Rightarrow> nat \<Rightarrow> raft_message" where
  "snapshot_chunk n meta snapshot offset until =
    (let chunk_bytes = take (until - offset) (drop offset snapshot) in
     InstallSnapshot \<lparr>is_term = node_term n, is_leader_id = node_id n,
       is_last_included_index = last_included_index meta, is_last_included_term = last_included_term meta,
       is_offset = u64_of offset, is_chunk_len = word_of_nat (length chunk_bytes),
       is_done = (if until = length snapshot then 1 else 0), is_pad = replicate 3 0\<rparr> chunk_bytes)"

fun snapshot_answer :: "peer_id \<Rightarrow> inbound_message \<Rightarrow> install_snapshot_resp option" where
  "snapshot_answer peer m = (case in_message m of
     InstallSnapshotResp resp \<Rightarrow> if in_from m = peer then Some resp else None | _ \<Rightarrow> None)"

text \<open>Waiting for the peer's answer to a chunk; every other frame goes to its handler.\<close>

fun await_snapshot_answer :: "'s raft_env \<Rightarrow> custom_env \<Rightarrow> peer_id \<Rightarrow> raft_term \<Rightarrow> recv_event list \<Rightarrow> 's raft_node \<Rightarrow>
    install_snapshot_resp result \<times> 's raft_node \<times> recv_event list" where
  "await_snapshot_answer E C peer start_term [] n = (Inl NoQuorum, n, [])"
| "await_snapshot_answer E C peer start_term (ev # evs) n =
    (case ev_recv ev of
       Inl e \<Rightarrow> (Inl e, n, evs)
     | Inr None \<Rightarrow> (Inl NoQuorum, n, evs)
     | Inr (Some frame) \<Rightarrow>
         (case decode_message frame of
            Inl e \<Rightarrow> (Inl e, n, evs)
          | Inr m \<Rightarrow>
              (case snapshot_answer peer m of
                 Some resp \<Rightarrow> (Inr resp, n, evs)
               | None \<Rightarrow>
                   (case handle_inbound (E\<lparr>e_now := ev_now ev\<rparr>) C m n of
                      (Inl e, n) \<Rightarrow> (Inl e, n, evs)
                    | (Inr _, n) \<Rightarrow>
                        if \<not> is_leader n \<or> node_term n \<noteq> start_term then (Inl (not_leader_error n), n, evs)
                        else await_snapshot_answer E C peer start_term evs n))))"

text \<open>What an answer means: an error, the end of the transfer, or the next offset and the rounds without progress.\<close>

definition take_answer :: "'s raft_env \<Rightarrow> nat \<Rightarrow> bool \<Rightarrow> nat \<Rightarrow> nat \<Rightarrow> u32 \<Rightarrow> install_snapshot_resp \<Rightarrow>
    ((nat \<times> nat) option, 's raft_node) raft_op" where
  "take_answer E total_len done offset no_progress max_no_progress resp n =
    (if isr_term resp > node_term n
     then bind_op (step_down E (isr_term resp) n) (\<lambda>_ n. (Inl (TermChanged (node_term n)), n))
     else let next_off = unat (isr_next_offset resp) in
       if next_off > total_len then (Inl (Protocol ''install snapshot next_offset past total_len''), n)
       else if isr_accepted resp \<noteq> 0 \<and> (done \<or> next_off \<ge> total_len) then (Inr None, n)
       else if isr_accepted resp \<noteq> 0 \<and> next_off > offset then (Inr (Some (next_off, 0)), n)
       else if no_progress + 1 \<ge> unat max_no_progress
       then (Inl (Snapshot ''install snapshot aborted: no-progress round cap exceeded''), n)
       else (Inr (Some (next_off, no_progress + 1)), n))"

lemma await_shorter:
  "await_snapshot_answer E C peer trm evs n = (Inr resp, n', evs') \<Longrightarrow> length evs' < length evs"
proof (induction evs arbitrary: n)
  case (Cons ev evs)
  then show ?case
    by (fastforce split: sum.splits option.splits prod.splits if_splits simp del: snapshot_answer.simps)
qed simp

text \<open>One chunk on its way, after heartbeats to the other peers when they are due.\<close>

definition chunk_end :: "'s raft_node \<Rightarrow> nat \<Rightarrow> nat \<Rightarrow> nat" where
  "chunk_end n total_len offset =
     min (min offset total_len + max (snapshot_chunk_bytes (cfg_limits (n_config n))) 1) total_len"

definition heartbeat_due :: "'s raft_node \<Rightarrow> nat \<Rightarrow> nat \<Rightarrow> bool" where
  "heartbeat_due n now last_heartbeat \<longleftrightarrow>
     now - last_heartbeat \<ge> max (unat (heartbeat_ms (cfg_timing (n_config n)))) 1"

definition send_chunk :: "'s raft_env \<Rightarrow> peer_id \<Rightarrow> snapshot_meta \<Rightarrow> bytes \<Rightarrow> nat \<Rightarrow> nat \<Rightarrow>
    's raft_node \<times> peer_id list \<Rightarrow> 's raft_node \<times> peer_id list" where
  "send_chunk E peer meta snapshot offset last_heartbeat = (\<lambda>(n, scratch).
    (case (if heartbeat_due n (e_now E) last_heartbeat then send_bare_heartbeats_except E peer (n, scratch)
           else (n, scratch)) of
       (n, scratch) \<Rightarrow> (snd (send_message E peer (snapshot_chunk n meta snapshot (min offset (length snapshot))
            (chunk_end n (length snapshot) offset)) n), scratch)))"

function stream_snapshot :: "'s raft_env \<Rightarrow> custom_env \<Rightarrow> peer_id \<Rightarrow> snapshot_meta \<Rightarrow> bytes \<Rightarrow> raft_term \<Rightarrow>
    nat \<times> nat \<Rightarrow> nat \<Rightarrow> 's raft_node \<times> peer_id list \<Rightarrow> recv_event list \<Rightarrow> unit result \<times> 's drive" where
  "stream_snapshot E C peer meta snapshot start_term pos last_heartbeat ns evs =
    (let E' = at_clock E evs;
         total_len = length snapshot;
         until = chunk_end (fst ns) total_len (fst pos);
         last_heartbeat' = (if heartbeat_due (fst ns) (e_now E') last_heartbeat then e_now E' else last_heartbeat);
         ns' = send_chunk E' peer meta snapshot (fst pos) last_heartbeat ns
     in case await_snapshot_answer E C peer start_term evs (fst ns') of
          (Inl e, n, evs) \<Rightarrow> (Inl e, n, snd ns', evs)
        | (Inr resp, n, evs) \<Rightarrow>
            (case take_answer (at_clock E evs) total_len (until = total_len) (min (fst pos) total_len) (snd pos)
                (max (snapshot_max_attempts_per_peer (cfg_limits (n_config n))) 1) resp n of
               (Inl e, n) \<Rightarrow> (Inl e, n, snd ns', evs)
             | (Inr None, n) \<Rightarrow> (Inr (), n, snd ns', evs)
             | (Inr (Some pos), n) \<Rightarrow>
                 stream_snapshot E C peer meta snapshot start_term pos last_heartbeat' (n, snd ns') evs))"
  by pat_completeness auto
termination
  by (relation "measure (\<lambda>(E, C, peer, meta, snapshot, trm, pos, hb, ns, evs). length evs)")
    (auto dest: await_shorter [OF sym])

declare stream_snapshot.simps [simp del]

definition install_snapshot_once :: "'s raft_env \<Rightarrow> custom_env \<Rightarrow> peer_id \<Rightarrow> snapshot_meta \<Rightarrow> bytes \<Rightarrow> 's drive \<Rightarrow> unit result \<times> 's drive" where
  "install_snapshot_once E C peer meta snapshot = (\<lambda>(n, scratch, evs).
     if \<not> is_leader n then (Inl (not_leader_error n), n, scratch, evs)
     else stream_snapshot E C peer meta snapshot (node_term n) (0, 0) (e_now (at_clock E evs)) (n, scratch) evs)"

section \<open>The gate in front of a snapshot\<close>

definition inc_snapshot_installs_refused :: "'s raft_node \<Rightarrow> 's raft_node" where
  "inc_snapshot_installs_refused n =
     n\<lparr>n_metrics := (n_metrics n)\<lparr>m_snapshot_installs_refused := m_snapshot_installs_refused (n_metrics n) + 1\<rparr>\<rparr>"

text \<open>The attempt budget of a peer: whether an attempt may start now, with the budget it leaves.\<close>

definition admit_attempt :: "nat \<Rightarrow> limits_config \<Rightarrow> snapshot_attempts \<Rightarrow> bool \<times> snapshot_attempts" where
  "admit_attempt now limits st =
    (case sa_cooldown_until st of
       Some until \<Rightarrow> if now < until then (False, st) else (True, \<lparr>sa_attempts = 1, sa_cooldown_until = None\<rparr>)
     | None \<Rightarrow>
         if sa_attempts st \<ge> max (snapshot_max_attempts_per_peer limits) 1
         then (False, st\<lparr>sa_cooldown_until := Some (now + unat (snapshot_attempt_cooldown_ms limits))\<rparr>)
         else (True, st\<lparr>sa_attempts := sa_attempts st + 1\<rparr>))"

text \<open>The progress of a peer that holds the snapshot, capped by the leader's own log.\<close>

definition after_install :: "log_index \<Rightarrow> log_index \<Rightarrow> peer_progress \<Rightarrow> peer_progress" where
  "after_install boundary last_log p =
    (let matched = min boundary last_log; next = min (sat_add boundary 1) (sat_add last_log 1);
         p = (if matched > match_index p then p\<lparr>match_index := matched\<rparr> else p)
     in if next > next_index p then p\<lparr>next_index := next\<rparr> else p)"

definition maybe_install_snapshot_to_lagging_peer ::
    "'s raft_env \<Rightarrow> custom_env \<Rightarrow> peer_id \<Rightarrow> 's drive \<Rightarrow> bool result \<times> 's drive" where
  "maybe_install_snapshot_to_lagging_peer E C peer = (\<lambda>(n, scratch, evs).
    (case pm_get peer (n_progress n) of
       None \<Rightarrow> (Inr False, n, scratch, evs)
     | Some progress \<Rightarrow>
         (case with_storage (so_load_snapshot_meta (e_store E)) n of
            (Inl e, n) \<Rightarrow> (Inl e, n, scratch, evs)
          | (Inr None, n) \<Rightarrow> (Inr False, n, scratch, evs)
          | (Inr (Some meta), n) \<Rightarrow>
              if next_index progress > last_included_index meta then (Inr False, n, scratch, evs)
              else
                let limits = cfg_limits (n_config n);
                    st = (case pm_get peer (n_snapshot_attempts n) of Some st \<Rightarrow> st | None \<Rightarrow> default_snapshot_attempts);
                    (go, st) = admit_attempt (e_now (at_clock E evs)) limits st;
                    n = n\<lparr>n_snapshot_attempts := pm_insert peer st (n_snapshot_attempts n)\<rparr> in
                if \<not> go then (Inr False, inc_snapshot_installs_refused n, scratch, evs)
                else (case with_storage (so_load_snapshot (e_store E)) n of
                   (Inl e, n) \<Rightarrow> (Inl e, n, scratch, evs)
                 | (Inr None, n) \<Rightarrow> (Inr False, n, scratch, evs)
                 | (Inr (Some (meta, bytes)), n) \<Rightarrow>
                     (case install_snapshot_once E C peer meta bytes (n, scratch, evs) of
                        (Inl e, st) \<Rightarrow> (Inl e, st)
                      | (Inr _, n, scratch, evs) \<Rightarrow>
                          (Inr True, n\<lparr>n_snapshot_attempts := pm_remove peer (n_snapshot_attempts n),
                             n_progress := pm_modify peer (after_install (last_included_index meta) (fst (n_last_log n)))
                               (n_progress n)\<rparr>, scratch, evs))))))"

datatype snapshot_escalation = Streamed | Refused | StreamFailed

definition escalate_snapshot_catchup :: "'s raft_env \<Rightarrow> custom_env \<Rightarrow> peer_id \<Rightarrow> 's drive \<Rightarrow> snapshot_escalation \<times> 's drive" where
  "escalate_snapshot_catchup E C peer st =
    (case maybe_install_snapshot_to_lagging_peer E C peer st of
       (Inr True, st) \<Rightarrow> (Streamed, st)
     | (Inr False, st) \<Rightarrow> (Refused, st)
     | (Inl _, st) \<Rightarrow> (StreamFailed, st))"

section \<open>One heartbeat tick\<close>

text \<open>
  The work for one peer; the flag says whether a snapshot was already attempted
  in this tick.
\<close>

definition heartbeat_peer :: "'s raft_env \<Rightarrow> custom_env \<Rightarrow> log_index \<Rightarrow> peer_id \<Rightarrow> bool \<Rightarrow> 's drive \<Rightarrow> bool \<times> 's drive" where
  "heartbeat_peer E C last_log peer escalated = (\<lambda>(n, scratch, evs).
    (let E' = at_clock E evs;
         escalate = (\<lambda>n. if escalated then (escalated, n, scratch, evs)
            else case escalate_snapshot_catchup E C peer (n, scratch, evs) of (outcome, st) \<Rightarrow> (outcome \<noteq> Refused, st))
     in case pm_get peer (n_progress n) of
          Some p \<Rightarrow>
            if next_index p \<le> last_log
            then (case with_storage (so_entry_at (e_store E) (next_index p) SCRATCH_PAYLOAD_LEN) n of
                (Inr None, n) \<Rightarrow> escalate n
              | (_, n) \<Rightarrow>
                  (case send_append_attempt E' peer n of
                     (Inr _, n) \<Rightarrow> (escalated, n, scratch, evs)
                   | (Inl _, n) \<Rightarrow> escalate n))
            else (escalated, bare_heartbeat E' peer n, scratch, evs)
        | None \<Rightarrow> (escalated, bare_heartbeat E' peer n, scratch, evs)))"

text \<open>
  The loop indexes the shared list afresh for every position of the range it was
  started with; an index past the end is a panic, the value \<open>None\<close>.
\<close>

fun heartbeat_loop :: "'s raft_env \<Rightarrow> custom_env \<Rightarrow> log_index \<Rightarrow> nat list \<Rightarrow> bool \<Rightarrow> 's drive \<Rightarrow> unit result option \<times> 's drive" where
  "heartbeat_loop E C last_log [] escalated st = (Some (Inr ()), st)"
| "heartbeat_loop E C last_log (i # is) escalated (n, scratch, evs) =
    (if i \<ge> length scratch then (None, n, scratch, evs)
     else case heartbeat_peer E C last_log (scratch ! i) escalated (n, scratch, evs) of
       (escalated, st) \<Rightarrow> heartbeat_loop E C last_log is escalated st)"

definition send_heartbeat_once :: "'s raft_env \<Rightarrow> custom_env \<Rightarrow> 's drive \<Rightarrow> unit result option \<times> 's drive" where
  "send_heartbeat_once E C = (\<lambda>(n, scratch, evs).
    if \<not> is_leader n then (Some (Inl (not_leader_error n)), n, scratch, evs)
    else let n = ensure_leader_progress_initialized (at_clock E evs) n in
      heartbeat_loop E C (fst (n_last_log n)) [0..<length (followers n)] False (n, followers n, evs))"

section \<open>Handing over leadership\<close>

definition target_next :: "'s raft_node \<Rightarrow> peer_id \<Rightarrow> log_index" where
  "target_next n target = (case pm_get target (n_progress n) of Some p \<Rightarrow> next_index p | None \<Rightarrow> 0)"

definition caught_up :: "'s raft_node \<Rightarrow> peer_id \<Rightarrow> bool" where
  "caught_up n target = (case pm_get target (n_progress n) of
     Some p \<Rightarrow> match_index p \<ge> fst (n_last_log n) | None \<Rightarrow> False)"

text \<open>
  One probe of the catch-up loop: a heartbeat when it is due, otherwise the next
  batch as soon as the target's window has moved.  The pair is the time of the
  next heartbeat and the window last probed.
\<close>

definition transfer_probe :: "'s raft_env \<Rightarrow> custom_env \<Rightarrow> peer_id \<Rightarrow> nat \<times> log_index \<Rightarrow> 's drive \<Rightarrow>
    (nat \<times> log_index) result option \<times> 's drive" where
  "transfer_probe E C target probe = (\<lambda>(n, scratch, evs).
    (let now = e_now (at_clock E evs) in
     if now \<ge> fst probe
     then (case send_heartbeat_once E C (n, scratch, evs) of
         (None, st) \<Rightarrow> (None, st)
       | (Some (Inl e), st) \<Rightarrow> (Some (Inl e), st)
       | (Some (Inr _), n, st) \<Rightarrow>
           (Some (Inr (now + max (unat (heartbeat_ms (cfg_timing (n_config n)))) 1, target_next n target)), n, st))
     else if target_next n target \<noteq> snd probe
     then (case send_append_attempt (at_clock E evs) target n of
         (Inl e, n) \<Rightarrow> (Some (Inl e), n, scratch, evs)
       | (Inr _, n') \<Rightarrow> (Some (Inr (fst probe, target_next n target)), n', scratch, evs))
     else (Some (Inr probe), n, scratch, evs)))"

text \<open>
  The catch-up loop.  Every receive call of the loop is an event, a call that
  timed out included; when the events are used up the deadline has passed.
\<close>

function transfer_loop :: "'s raft_env \<Rightarrow> custom_env \<Rightarrow> peer_id \<Rightarrow> raft_term \<Rightarrow> nat \<Rightarrow> nat \<Rightarrow> nat \<times> log_index \<Rightarrow>
    's raft_node \<Rightarrow> peer_id list \<Rightarrow> recv_event list \<Rightarrow> unit result option \<times> 's drive" where
  "transfer_loop E C target trm deadline room probe n scratch evs =
    (if \<not> is_leader n \<or> node_term n \<noteq> trm then (Some (Inl (not_leader_error n)), n, scratch, evs)
     else if caught_up n target then (Some (Inr ()), n, scratch, evs)
     else if evs = [] \<or> e_now (at_clock E evs) \<ge> deadline then (Some (Inl (TransferTimeout target)), n, scratch, evs)
     else case transfer_probe E C target probe (n, scratch, evs) of
       (None, st) \<Rightarrow> (None, st)
     | (Some (Inl e), st) \<Rightarrow> (Some (Inl e), st)
     | (Some (Inr probe), n, scratch, evs1) \<Rightarrow>
         let rest = (if length evs1 < length evs then evs1 else tl evs) in
         (case drain_inbound_frames (min deadline (fst probe)) room [] evs1 of
            (Inl e, evs2) \<Rightarrow> (Some (Inl e), n, scratch, evs2)
          | (Inr ms, evs2) \<Rightarrow>
              (case handle_all_tolerant (batch_env E evs1 evs2) C ms n of
                 (Inl e, n) \<Rightarrow> (Some (Inl e), n, scratch, evs2)
               | (Inr _, n) \<Rightarrow> transfer_loop E C target trm deadline room probe n scratch
                   (if length evs2 < length rest then evs2 else rest))))"
  by pat_completeness auto
termination
  by (relation "measure (\<lambda>(E, C, target, trm, deadline, room, probe, n, scratch, evs). length evs)")
    (auto simp: Let_def neq_Nil_conv)

declare transfer_loop.simps [simp del]

definition transfer_leadership :: "'s raft_env \<Rightarrow> custom_env \<Rightarrow> peer_id \<Rightarrow> nat \<Rightarrow> 's drive \<Rightarrow> unit result option \<times> 's drive" where
  "transfer_leadership E C target room = (\<lambda>(n, scratch, evs).
    (if \<not> is_leader n then (Some (Inl (not_leader_error n)), n, scratch, evs)
     else if target = node_id n then (Some (Inr ()), n, scratch, evs)
     else if target \<notin> set (peers n) then (Some (Inl (PeerUnknown target)), n, scratch, evs)
     else let now = e_now (at_clock E evs); trm = node_term n;
              n = ensure_leader_progress_initialized (at_clock E evs) n in
       case transfer_loop E C target trm (now + election_timeout n) room (now, - 1) n scratch evs of
         (Some (Inr _), n, scratch, evs) \<Rightarrow>
           (case send_message (at_clock E evs) target (TimeoutNow \<lparr>tn_term = trm, tn_leader_id = node_id n\<rparr>) n of
              (False, n) \<Rightarrow> (Some (Inl (Transport ''leadership transfer: failed to send TimeoutNow to target'')), n, scratch, evs)
            | (True, n) \<Rightarrow> (Some (Inr ()), n\<lparr>n_pending_transfer := Some \<lparr>pt_target = target,
                pt_deadline = e_now (at_clock E evs) + election_timeout n\<rparr>\<rparr>, scratch, evs))
       | (r, st) \<Rightarrow> (r, st)))"

section \<open>Heartbeats of many groups\<close>

text \<open>
  The batched fan-out collects one frame per led group and peer; a group whose
  wire cannot be built for a peer skips that peer only.
\<close>

record frame_out =
  fo_group_id :: group_id
  fo_from :: peer_id
  fo_ae :: append_entries

fun group_wires :: "'s raft_env \<Rightarrow> group_id \<Rightarrow> peer_id list \<Rightarrow> 's raft_node \<Rightarrow> (peer_id \<times> frame_out) list \<times> 's raft_node" where
  "group_wires E gid [] n = ([], n)"
| "group_wires E gid (peer # ps) n =
    (case build_heartbeat_wire E peer n of
       (Inr (Some ae), n') \<Rightarrow>
         (case group_wires E gid ps n' of
            (fs, n'') \<Rightarrow> ((peer, \<lparr>fo_group_id = gid, fo_from = node_id n, fo_ae = ae\<rparr>) # fs, n''))
     | (Inr None, n') \<Rightarrow> ([], n')
     | (Inl _, n') \<Rightarrow> group_wires E gid ps n')"

fun batched_wires :: "'s raft_env \<Rightarrow> (group_id \<times> 's raft_node) list \<Rightarrow> (peer_id \<times> frame_out) list \<times> (group_id \<times> 's raft_node) list" where
  "batched_wires E [] = ([], [])"
| "batched_wires E ((gid, n) # gs) =
    (case (if is_leader n then group_wires E gid (followers n) n else ([], n)) of
       (fs, n') \<Rightarrow> (case batched_wires E gs of (fs', gs') \<Rightarrow> (fs @ fs', (gid, n') # gs')))"

text \<open>The slices of one peer's single vectored write.\<close>

definition write_frame_header :: "frame_out \<Rightarrow> bytes" where
  "write_frame_header f = enc_frame_header (frame_header (fo_from f) (fo_group_id f) 3 48)"

definition peer_slices :: "peer_id \<Rightarrow> (peer_id \<times> frame_out) list \<Rightarrow> bytes list" where
  "peer_slices peer frames = concat (map (\<lambda>(_, f). [write_frame_header f, enc_append_entries (fo_ae f)])
     (filter (\<lambda>(p, _). p = peer) frames))"

definition send_batched_heartbeats :: "'s raft_env \<Rightarrow> (group_id \<times> 's raft_node) list \<Rightarrow>
    (nat \<times> (peer_id \<times> bytes list) list) \<times> (group_id \<times> 's raft_node) list" where
  "send_batched_heartbeats E groups =
    (case batched_wires E groups of
       (frames, groups) \<Rightarrow>
         let targets = remdups (map fst frames);
             delivered = filter (e_send_ok E 0) targets in
         ((length (filter (\<lambda>(p, _). p \<in> set delivered) frames), map (\<lambda>p. (p, peer_slices p frames)) targets), groups))"

end
