(* ===== verification/Raft_Propose.thy ===== *)
theory Raft_Propose
  imports Raft_Heartbeat
begin

text \<open>
  Client proposals, \<open>src/api/node/replication/propose/\<close>: the append of a batch to
  the leader's log and its fan-out (\<open>initial.rs\<close>), the gathering of
  acknowledgements (\<open>quorum.rs\<close>), the synchronous and the fire-and-forget proposal
  (\<open>mod.rs\<close>), and linearizable reads (\<open>src/api/node/read_index.rs\<close>).
\<close>

section \<open>Appending and sending a batch\<close>

text \<open>The tuning of the fan-out comes from environment variables.\<close>

record vec_tuning =
  vt_force :: "bool option"
  vt_iov_max :: nat
  vt_min_entry :: nat
  vt_min_total :: nat

definition default_vec_tuning :: vec_tuning where
  "default_vec_tuning = \<lparr>vt_force = None, vt_iov_max = 4096, vt_min_entry = 4096, vt_min_total = 64 * 1024\<rparr>"

definition should_use_vectored :: "vec_tuning \<Rightarrow> log_entry list \<Rightarrow> bool" where
  "should_use_vectored t entries =
    (case vt_force t of
       Some forced \<Rightarrow> forced
     | None \<Rightarrow> \<not> length entries * 2 + 4 > vt_iov_max t \<and>
         (\<forall>e\<in>set entries. \<not> length (entry_payload e) < vt_min_entry t) \<and>
         sum_list (map (length \<circ> entry_payload) entries) \<ge> vt_min_total t)"

fun number_entries :: "raft_term \<Rightarrow> log_index \<Rightarrow> bytes list \<Rightarrow> log_entry list" where
  "number_entries trm next_raw [] = []"
| "number_entries trm next_raw (p # ps) =
     \<lparr>entry_term = trm, entry_index = next_raw, entry_payload = p\<rparr> # number_entries trm (next_raw + 1) ps"

definition propose_entries :: "bytes list \<Rightarrow> 's raft_node \<Rightarrow> log_entry list" where
  "propose_entries payloads n = number_entries (node_term n) (sat_add (fst (n_last_log n)) 1) payloads"

definition append_propose_entries :: "'s raft_env \<Rightarrow> bytes list \<Rightarrow> (log_index, 's raft_node) raft_op" where
  "append_propose_entries E payloads n =
    (let entries = propose_entries payloads n in
     if entries = [] then (Inl (InvalidPayload ''empty payload batch''), n)
     else bind_op (with_storage (so_append_entries (e_store E) entries) n) (\<lambda>_ n.
       let n = n\<lparr>n_log_metadata := arena_append_all (map entry_pos entries) (n_log_metadata n),
                 n_last_log := (entry_index (last entries), node_term n)\<rparr> in
       (Inr (entry_index (last entries)), n)))"

text \<open>The fan-out: the frame goes to every peer, and the peers that took it are returned.\<close>

fun fan_out :: "'s raft_env \<Rightarrow> raft_message \<Rightarrow> peer_id list \<Rightarrow> 's raft_node \<Rightarrow> peer_id list \<times> 's raft_node" where
  "fan_out E msg [] n = ([], n)"
| "fan_out E msg (p # ps) n =
    (case fan_out E msg ps (n\<lparr>n_outbox := n_outbox n @ [(p, msg)]\<rparr>) of
       (ok, n') \<Rightarrow> (if e_send_ok E (length (n_outbox n)) p then p # ok else ok, n'))"

definition encode_batch :: "vec_tuning \<Rightarrow> 's raft_node \<Rightarrow> raft_message \<Rightarrow> log_entry list \<Rightarrow> unit result" where
  "encode_batch t n msg entries =
    (if should_use_vectored t entries
     then map_sum id (\<lambda>_. ()) (encode_message_vectored (node_id n) msg SCRATCH_OUTBOUND_LEN)
     else map_sum id (\<lambda>_. ()) (encode_message_to_bytes (node_id n) msg))"

definition send_initial_appends :: "'s raft_env \<Rightarrow> vec_tuning \<Rightarrow> log_entry list \<Rightarrow>
    (append_attempt_state peer_map, 's raft_node) raft_op" where
  "send_initial_appends E t entries n =
    (if followers n = [] then (Inr pm_empty, n)
     else bind_op (with_storage (so_last_log_position (e_store E)) n) (\<lambda>(last_log_index, _) n.
       if last_log_index < u64_of (length entries)
       then (Inl (CorruptLog ''last_log_position smaller than just-appended batch (prev_log_index underflow)''), n)
       else let prev = last_log_index - u64_of (length entries) in
         bind_op (term_at E prev n) (\<lambda>prev_term n.
           let msg = AppendEntriesVectored (append_request n prev prev_term (length entries)) entries in
           case encode_batch t n msg entries of
             Inl e \<Rightarrow> (Inl e, n)
           | Inr _ \<Rightarrow>
               (case fan_out E msg (followers n) n of
                  (ok, n) \<Rightarrow> (Inr (fold (\<lambda>p. pm_insert p \<lparr>attempts = 1, sent_last_index = last_log_index\<rparr>) ok pm_empty), n)))))"

section \<open>Gathering acknowledgements\<close>

type_synonym gather = "append_attempt_state peer_map \<times> nat"

definition process_append_resp :: "'s raft_env \<Rightarrow> peer_id \<Rightarrow> append_entries_resp \<Rightarrow> log_index \<Rightarrow> gather \<Rightarrow>
    's raft_node \<Rightarrow> unit result \<times> gather \<times> 's raft_node" where
  "process_append_resp E from resp last_index = (\<lambda>(pending, accepted) n.
    (case pm_get from pending of
       Some st \<Rightarrow>
         (case advance_append_replication E from last_index st resp n of
            (Inl e, n) \<Rightarrow> (Inl e, (pending, accepted), n)
          | (Inr Completed, n) \<Rightarrow>
              (Inr (), (pm_remove from pending, if from \<in> set (peers n) then accepted + 1 else accepted), n)
          | (Inr _, n) \<Rightarrow> (Inr (), (pending, accepted), n))
     | None \<Rightarrow>
         (case handle_append_entries_response E from resp n of (r, n) \<Rightarrow> (r, (pending, accepted), n))))"

definition gather_dispatch_frame :: "'s raft_env \<Rightarrow> custom_env \<Rightarrow> bytes \<Rightarrow> log_index \<Rightarrow> gather \<Rightarrow> 's raft_node \<Rightarrow>
    unit result \<times> gather \<times> 's raft_node" where
  "gather_dispatch_frame E C frame last_index g n =
    (case decode_message frame of
       Inl e \<Rightarrow> (Inl e, g, n)
     | Inr m \<Rightarrow>
         (case in_message m of
            AppendEntriesResp resp \<Rightarrow> process_append_resp E (in_from m) resp last_index g n
          | _ \<Rightarrow> (case handle_inbound E C m n of (r, n) \<Rightarrow> (r, g, n))))"

text \<open>
  The gather loop.  \<open>burst\<close> says which receive call is next: one that takes only
  what is there, or one that waits for the rest of the budget.
\<close>

fun gather_loop :: "'s raft_env \<Rightarrow> custom_env \<Rightarrow> nat \<Rightarrow> log_index \<Rightarrow> nat \<Rightarrow> bool \<Rightarrow> recv_event list \<Rightarrow> gather \<Rightarrow>
    's raft_node \<Rightarrow> nat result \<times> 's raft_node \<times> recv_event list" where
  "gather_loop E C needed last_index deadline burst [] g n = (Inr (snd g), n, [])"
| "gather_loop E C needed last_index deadline burst (ev # evs) g n =
    (let wait = (if burst \<and> ev_now ev < deadline
            then gather_loop E C needed last_index deadline False evs g n else (Inr (snd g), n, evs)) in
     case ev_recv ev of
       Inl e \<Rightarrow> if is_fatal e then (Inl e, n, evs) else wait
     | Inr None \<Rightarrow> wait
     | Inr (Some frame) \<Rightarrow>
         (case gather_dispatch_frame (E\<lparr>e_now := ev_now ev\<rparr>) C frame last_index g n of
            (r, g, n) \<Rightarrow>
              if (case r of Inl e \<Rightarrow> is_fatal e | Inr _ \<Rightarrow> False) then (map_sum id (\<lambda>_. 0) r, n, evs)
              else if propose_commit_reached n needed (snd g) last_index \<or> pm_is_empty (fst g) \<or>
                  (burst \<and> ev_now ev \<ge> deadline)
              then (Inr (snd g), n, evs)
              else gather_loop E C needed last_index deadline True evs g n))"

definition gather_quorum_acks :: "'s raft_env \<Rightarrow> custom_env \<Rightarrow> nat \<Rightarrow> log_index \<Rightarrow> nat \<Rightarrow> append_attempt_state peer_map \<Rightarrow>
    's raft_node \<Rightarrow> recv_event list \<Rightarrow> nat result \<times> 's raft_node \<times> recv_event list" where
  "gather_quorum_acks E C needed last_index timeout pending n evs =
    (if propose_commit_reached n needed 1 last_index \<or> pm_is_empty pending then (Inr 1, n, evs)
     else gather_loop E C needed last_index (e_now (at_clock E evs) + timeout) True evs (pending, 1) n)"

text \<open>The drain after a commit: bad frames are skipped, only a fatal error stops it.\<close>

fun drain_inbound_ready :: "'s raft_env \<Rightarrow> custom_env \<Rightarrow> recv_event list \<Rightarrow> 's raft_node \<Rightarrow>
    unit result \<times> 's raft_node \<times> recv_event list" where
  "drain_inbound_ready E C [] n = (Inr (), n, [])"
| "drain_inbound_ready E C (ev # evs) n =
    (case ev_recv ev of
       Inl e \<Rightarrow> (if is_fatal e then Inl e else Inr (), n, evs)
     | Inr None \<Rightarrow> (Inr (), n, evs)
     | Inr (Some frame) \<Rightarrow>
         (case decode_message frame of
            Inl _ \<Rightarrow> drain_inbound_ready E C evs n
          | Inr m \<Rightarrow>
              (case handle_inbound_tolerant (E\<lparr>e_now := ev_now ev\<rparr>) C m n of
                 (Inl e, n) \<Rightarrow> (Inl e, n, evs)
               | (Inr _, n) \<Rightarrow> drain_inbound_ready E C evs n)))"

section \<open>Proposals\<close>

text \<open>Moving the commit index once the acknowledgements are in.\<close>

definition commit_batch :: "'s raft_env \<Rightarrow> raft_term \<Rightarrow> nat \<Rightarrow> nat \<Rightarrow> log_index \<Rightarrow> (unit, 's raft_node) raft_op" where
  "commit_batch E propose_term needed accepted last_index n =
    (if n_joint_peers n = None \<and> is_leader n \<and> node_term n = propose_term \<and> accepted \<ge> needed
     then (Inr (), if last_index > commit_index n then set_commit_index last_index n else n)
     else try_advance_commit_index E n)"

definition gather_timeout :: "'s raft_node \<Rightarrow> nat" where
  "gather_timeout n = unat (heartbeat_ms (cfg_timing (n_config n)) * 2)"

definition finish_propose :: "'s raft_env \<Rightarrow> custom_env \<Rightarrow> log_index list \<Rightarrow> log_index \<Rightarrow> append_attempt_state peer_map \<Rightarrow>
    's raft_node \<Rightarrow> recv_event list \<Rightarrow> log_index list result \<times> 's raft_node \<times> recv_event list" where
  "finish_propose E C indexes last_index pending n evs =
    (let needed = quorum (length (peers n)); propose_term = node_term n in
     case gather_quorum_acks E C needed last_index (gather_timeout n) pending n evs of
       (Inl e, n, evs) \<Rightarrow> (Inl e, n, evs)
     | (Inr accepted, n, evs) \<Rightarrow>
         (case commit_batch (at_clock E evs) propose_term needed accepted last_index n of
            (Inl e, n) \<Rightarrow> (Inl e, n, evs)
          | (Inr _, n) \<Rightarrow>
              if commit_index n < last_index then (Inl NoQuorum, n, evs)
              else (case drain_inbound_ready E C evs n of
                 (Inl e, n, evs) \<Rightarrow> (Inl e, n, evs)
               | (Inr _, n, evs) \<Rightarrow> (Inr indexes, n, evs))))"

definition propose_batch_once :: "'s raft_env \<Rightarrow> custom_env \<Rightarrow> vec_tuning \<Rightarrow> bytes list \<Rightarrow> 's raft_node \<Rightarrow> recv_event list \<Rightarrow>
    log_index list result \<times> 's raft_node \<times> recv_event list" where
  "propose_batch_once E C t payloads n evs =
    (if \<not> is_leader n then (Inl (not_leader_error n), n, evs)
     else case check_transfer_freeze (e_now (at_clock E evs)) n of
       (Inl e, n) \<Rightarrow> (Inl e, n, evs)
     | (Inr _, n) \<Rightarrow>
         if payloads = [] then (Inr [], n, evs)
         else let E' = at_clock E evs; n = ensure_leader_progress_initialized E' n;
                  entries = propose_entries payloads n in
           (case append_propose_entries E' payloads n of
              (Inl e, n) \<Rightarrow> (Inl e, n, evs)
            | (Inr last_index, n) \<Rightarrow>
                (case send_initial_appends E' t entries n of
                   (Inl e, n) \<Rightarrow> (Inl e, n, evs)
                 | (Inr pending, n) \<Rightarrow> finish_propose E C (map entry_index entries) last_index pending n evs)))"

definition propose_once :: "'s raft_env \<Rightarrow> custom_env \<Rightarrow> vec_tuning \<Rightarrow> bytes \<Rightarrow> 's raft_node \<Rightarrow> recv_event list \<Rightarrow>
    log_index result \<times> 's raft_node \<times> recv_event list" where
  "propose_once E C t payload n evs =
    (case propose_batch_once E C t [payload] n evs of
       (Inl e, st) \<Rightarrow> (Inl e, st)
     | (Inr [], st) \<Rightarrow> (Inl (Protocol ''propose failed to return index''), st)
     | (Inr (i # _), st) \<Rightarrow> (Inr i, st))"

definition replicate_batch_async :: "'s raft_env \<Rightarrow> vec_tuning \<Rightarrow> bytes list \<Rightarrow> (log_index \<times> nat, 's raft_node) raft_op" where
  "replicate_batch_async E t payloads n =
    (if \<not> is_leader n then (Inl (not_leader_error n), n)
     else bind_op (check_transfer_freeze (e_now E) n) (\<lambda>_ n.
       if payloads = [] then (Inr (0, 0), n)
       else let n = ensure_leader_progress_initialized E n;
                (prev_idx, prev_term) = n_last_log n; entries = propose_entries payloads n in
         bind_op (with_storage (so_append_entries (e_store E) entries) n) (\<lambda>_ n.
           let n = set_last_from (map entry_pos entries)
                 (n\<lparr>n_log_metadata := arena_append_all (map entry_pos entries) (n_log_metadata n)\<rparr>);
               msg = AppendEntriesVectored (append_request n prev_idx prev_term (length entries)) entries in
           case encode_batch t n msg entries of
             Inl e \<Rightarrow> (Inl e, n)
           | Inr _ \<Rightarrow> (Inr (sat_add prev_idx 1, length payloads), snd (fan_out E msg (followers n) n)))))"

section \<open>Linearizable reads\<close>

definition bump_probe :: "u32 \<Rightarrow> u32" where
  "bump_probe seq = (if seq + 1 = 0 then 1 else seq + 1)"

text \<open>An acknowledgement that echoes the token of this round, from a voter that has not been counted.\<close>

definition fresh_ack :: "raft_term \<Rightarrow> u32 \<Rightarrow> 's raft_node \<Rightarrow> peer_id list \<Rightarrow> inbound_message \<Rightarrow> bool" where
  "fresh_ack confirm_term probe n acks m =
    (case in_message m of
       AppendEntriesResp resp \<Rightarrow> aer_term resp = confirm_term \<and> le_word (take 4 (aer_pad resp)) = probe \<and>
         in_from m \<in> set (peers n) \<and> in_from m \<notin> set acks
     | _ \<Rightarrow> False)"

fun count_acks :: "'s raft_env \<Rightarrow> custom_env \<Rightarrow> raft_term \<Rightarrow> u32 \<Rightarrow> inbound_message list \<Rightarrow> peer_id list \<Rightarrow>
    (peer_id list, 's raft_node) raft_op" where
  "count_acks E C confirm_term probe [] acks n = (Inr acks, n)"
| "count_acks E C confirm_term probe (m # ms) acks n =
     bind_op (handle_inbound_tolerant E C m n) (\<lambda>_ n'.
       count_acks E C confirm_term probe ms
         (if fresh_ack confirm_term probe n acks m then acks @ [in_from m] else acks) n')"

function confirm_loop :: "'s raft_env \<Rightarrow> custom_env \<Rightarrow> raft_term \<Rightarrow> u32 \<Rightarrow> nat \<Rightarrow> nat \<Rightarrow> nat \<Rightarrow> peer_id list \<Rightarrow>
    's raft_node \<Rightarrow> peer_id list \<Rightarrow> recv_event list \<Rightarrow> unit result option \<times> 's drive" where
  "confirm_loop E C confirm_term probe deadline room next_probe acks n scratch evs =
    (if \<not> is_leader n \<or> node_term n \<noteq> confirm_term then (Some (Inl (not_leader_error n)), n, scratch, evs)
     else if voter_majority n acks then (Some (Inr ()), n, scratch, evs)
     else if evs = [] \<or> e_now (at_clock E evs) \<ge> deadline then (Some (Inl NoQuorum), n, scratch, evs)
     else let now = e_now (at_clock E evs);
              next_probe' = (if now \<ge> next_probe
                 then now + max (unat (heartbeat_ms (cfg_timing (n_config n)))) 1 else next_probe) in
       case (if now \<ge> next_probe then send_heartbeat_once E C (n, scratch, evs) else (Some (Inr ()), n, scratch, evs)) of
         (Some (Inr _), n, scratch, evs1) \<Rightarrow>
           (case drain_inbound_frames (min deadline next_probe') room [] evs1 of
              (Inl e, evs2) \<Rightarrow> (Some (Inl e), n, scratch, evs2)
            | (Inr ms, evs2) \<Rightarrow>
                (case count_acks (batch_env E evs1 evs2) C confirm_term probe ms acks n of
                   (Inl e, n) \<Rightarrow> (Some (Inl e), n, scratch, evs2)
                 | (Inr acks, n) \<Rightarrow> confirm_loop E C confirm_term probe deadline room next_probe' acks n scratch
                     (if length evs2 < length evs then evs2 else tl evs)))
       | (r, st) \<Rightarrow> (r, st))"
  by pat_completeness auto
termination
  by (relation "measure (\<lambda>(E, C, trm, probe, deadline, room, next_probe, acks, n, scratch, evs). length evs)")
    (auto simp: neq_Nil_conv)

declare confirm_loop.simps [simp del]

definition confirm_leadership_quorum :: "'s raft_env \<Rightarrow> custom_env \<Rightarrow> raft_term \<Rightarrow> nat \<Rightarrow> 's drive \<Rightarrow> unit result option \<times> 's drive" where
  "confirm_leadership_quorum E C confirm_term room = (\<lambda>(n, scratch, evs).
    (let probe = bump_probe (n_read_probe_seq n);
         n = n\<lparr>n_read_probe_seq := probe\<rparr>; acks = [node_id n]; now = e_now (at_clock E evs) in
     if voter_majority n acks then (Some (Inr ()), n, scratch, evs)
     else confirm_loop E C confirm_term probe (now + election_timeout n) room now acks n scratch evs))"

definition read_index :: "'s raft_env \<Rightarrow> custom_env \<Rightarrow> vec_tuning \<Rightarrow> nat \<Rightarrow> 's drive \<Rightarrow> log_index result option \<times> 's drive" where
  "read_index E C t room = (\<lambda>(n, scratch, evs).
    (if \<not> is_leader n then (Some (Inl (not_leader_error n)), n, scratch, evs)
     else case check_transfer_freeze (e_now (at_clock E evs)) n of
       (Inl e, n) \<Rightarrow> (Some (Inl e), n, scratch, evs)
     | (Inr _, n) \<Rightarrow>
         let confirm_term = node_term n; commit = commit_index n in
         case (if commit > 0 then term_at (at_clock E evs) commit n else (Inl NoQuorum, n)) of
           (r, n) \<Rightarrow>
             if r \<noteq> Inr confirm_term
             then (case propose_once E C t noop_entry n evs of
                (Inl e, n, evs) \<Rightarrow> (Some (Inl e), n, scratch, evs)
              | (Inr _, n, evs) \<Rightarrow> (Some (Inr (commit_index n)), n, scratch, evs))
             else (case confirm_leadership_quorum E C confirm_term room (n, scratch, evs) of
                (Some (Inr _), st) \<Rightarrow> (Some (Inr commit), st)
              | (Some (Inl e), st) \<Rightarrow> (Some (Inl e), st)
              | (None, st) \<Rightarrow> (None, st))))"

end
