(* ===== verification/Slot_Registry.thy ===== *)
theory Slot_Registry
  imports Raft_Types
begin

text \<open>
  The lock-free commit notifications of \<open>src/api/arbitro_raft/slot.rs\<close> and the
  writer's side of them in \<open>client.rs\<close>.  A writer leases a slot, sends its proposal
  with the slot's identifier through a bounded mailbox and polls the slot; the
  engine stores the outcome there.  An identifier carries the generation of the
  lease, so that an outcome for an earlier lessee can be told apart.

  Each atomic access is one definition.  The operations compose them without
  interference, except that \<open>poll\<close> takes what the other threads do between its
  atomic accesses as arguments.  Identifiers come from \<open>lease\<close>, so they are inside
  the arena (\<open>lease_cases\<close>); the panic of an index outside it is not modelled.
\<close>

section \<open>Slots\<close>

definition SLOT_PENDING :: u64 where
  "SLOT_PENDING = 0"

definition TAG_NOT_LEADER :: u64 where
  "TAG_NOT_LEADER = push_bit 63 1"

definition TAG_COMMITTED :: u64 where
  "TAG_COMMITTED = push_bit 62 1"

definition INDEX_MASK :: u64 where
  "INDEX_MASK = TAG_COMMITTED - 1"

text \<open>The waker cell holds whether a task is registered and whether one has been woken.\<close>

record slot =
  slot_state :: u64
  slot_waker :: bool
  slot_woken :: bool
  slot_generation :: u64

definition wake :: "slot \<Rightarrow> slot" where
  "wake s = s\<lparr>slot_waker := False, slot_woken := slot_woken s \<or> slot_waker s\<rparr>"

definition store_committed :: "log_index \<Rightarrow> slot \<Rightarrow> slot" where
  "store_committed index s = wake (s\<lparr>slot_state := or TAG_COMMITTED (and index INDEX_MASK)\<rparr>)"

definition store_error :: "slot \<Rightarrow> slot" where
  "store_error s = wake (s\<lparr>slot_state := TAG_NOT_LEADER\<rparr>)"

definition slot_decode :: "u64 \<Rightarrow> log_index result" where
  "slot_decode v = (if and v TAG_NOT_LEADER \<noteq> 0 then Inl (NotLeader None) else Inr (and v INDEX_MASK))"

section \<open>Identifiers\<close>

type_synonym slot_id = u64

definition slot_id_new :: "u32 \<Rightarrow> u32 \<Rightarrow> slot_id" where
  "slot_id_new index generation = or (push_bit 32 (ucast generation)) (ucast index)"

definition slot_index :: "slot_id \<Rightarrow> nat" where
  "slot_index sid = unat (ucast sid :: u32)"

definition slot_id_generation :: "slot_id \<Rightarrow> u32" where
  "slot_id_generation sid = ucast (drop_bit 32 sid)"

section \<open>The registry\<close>

record slot_registry =
  arena :: "slot list"
  cursor :: u64

definition slot_registry_new :: "nat \<Rightarrow> slot_registry" where
  "slot_registry_new capacity = \<lparr>arena = replicate capacity
     \<lparr>slot_state = TAG_NOT_LEADER, slot_waker = False, slot_woken = False, slot_generation = 0\<rparr>, cursor = 0\<rparr>"

definition on_slot :: "nat \<Rightarrow> (slot \<Rightarrow> slot) \<Rightarrow> slot_registry \<Rightarrow> slot_registry" where
  "on_slot i f r = r\<lparr>arena := (arena r)[i := f (arena r ! i)]\<rparr>"

text \<open>The compare-and-exchange that takes a slot that is not pending, and the bump of its generation after it.\<close>

definition claim :: "nat \<Rightarrow> slot_registry \<Rightarrow> slot_registry option" where
  "claim i r = (if slot_state (arena r ! i) \<noteq> SLOT_PENDING
     then Some (on_slot i (\<lambda>s. s\<lparr>slot_state := SLOT_PENDING\<rparr>) r) else None)"

definition bump_slot :: "nat \<Rightarrow> slot_registry \<Rightarrow> slot_id \<times> slot_registry" where
  "bump_slot i r =
    (let generation = slot_generation (arena r ! i) + 1 in
     (slot_id_new (word_of_nat i) (ucast generation), on_slot i (\<lambda>s. s\<lparr>slot_generation := generation\<rparr>) r))"

fun lease_scan :: "nat list \<Rightarrow> slot_registry \<Rightarrow> slot_id option \<times> slot_registry" where
  "lease_scan [] r = (None, r)"
| "lease_scan (i # is) r =
    (case claim i r of
       None \<Rightarrow> lease_scan is r
     | Some r \<Rightarrow> (case bump_slot i r of (sid, r) \<Rightarrow> (Some sid, r)))"

definition lease :: "slot_registry \<Rightarrow> slot_id option \<times> slot_registry" where
  "lease r =
    (let cap = length (arena r); start = cursor r in
     lease_scan (map (\<lambda>i. unat (start + u64_of i) mod cap) [0..<cap]) (r\<lparr>cursor := cursor r + 1\<rparr>))"

definition release :: "slot_id \<Rightarrow> slot_registry \<Rightarrow> slot_registry" where
  "release sid r =
    (if slot_state (arena r ! slot_index sid) = SLOT_PENDING
     then on_slot (slot_index sid) (\<lambda>s. s\<lparr>slot_state := TAG_NOT_LEADER\<rparr>) r else r)"

definition is_current :: "slot_id \<Rightarrow> slot_registry \<Rightarrow> bool" where
  "is_current sid r \<longleftrightarrow> ucast (slot_generation (arena r ! slot_index sid)) = slot_id_generation sid"

definition notify_committed :: "slot_id \<Rightarrow> log_index \<Rightarrow> slot_registry \<Rightarrow> slot_registry" where
  "notify_committed sid index r =
    (if is_current sid r then on_slot (slot_index sid) (store_committed index) r else r)"

definition notify_error :: "slot_id \<Rightarrow> slot_registry \<Rightarrow> slot_registry" where
  "notify_error sid r = (if is_current sid r then on_slot (slot_index sid) store_error r else r)"

section \<open>Polling\<close>

text \<open>
  \<open>WriteFuture::poll\<close>: load, register the waker, load again.  The arguments \<open>f\<close> and
  \<open>g\<close> are what other threads do to the registry before the registration and between
  it and the second load; \<open>None\<close> is \<open>Poll::Pending\<close>.
\<close>

definition poll :: "(slot_registry \<Rightarrow> slot_registry) \<Rightarrow> (slot_registry \<Rightarrow> slot_registry) \<Rightarrow> slot_id \<Rightarrow>
    slot_registry \<Rightarrow> log_index result option \<times> slot_registry" where
  "poll f g sid r =
    (let i = slot_index sid; v = slot_state (arena r ! i) in
     if v \<noteq> SLOT_PENDING then (Some (slot_decode v), r)
     else let r = g (on_slot i (\<lambda>s. s\<lparr>slot_waker := True\<rparr>) (f r)); v = slot_state (arena r ! i) in
       if v \<noteq> SLOT_PENDING then (Some (slot_decode v), r) else (None, r))"

section \<open>The mailbox and the writer\<close>

record client_proposal =
  cp_payload :: bytes
  cp_slot_id :: slot_id

record mailbox =
  mb_capacity :: nat
  mb_queue :: "client_proposal list"
  mb_closed :: bool

text \<open>\<open>try_send\<close> of the bounded channel.\<close>

definition try_send :: "client_proposal \<Rightarrow> mailbox \<Rightarrow> unit result \<times> mailbox" where
  "try_send p m =
    (if mb_closed m then (Inl (Transport ''raft node stopped''), m)
     else if length (mb_queue m) \<ge> mb_capacity m then (Inl Overloaded, m)
     else (Inr (), m\<lparr>mb_queue := mb_queue m @ [p]\<rparr>))"

text \<open>\<open>try_recv\<close>: buffered proposals are still delivered after the channel is closed.\<close>

fun try_recv :: "mailbox \<Rightarrow> client_proposal option \<times> mailbox" where
  "try_recv m = (case mb_queue m of [] \<Rightarrow> (None, m) | p # ps \<Rightarrow> (Some p, m\<lparr>mb_queue := ps\<rparr>))"

text \<open>\<open>write_bytes\<close> up to the point where the writer waits: the payload check is an argument.\<close>

definition write_bytes :: "(bytes \<Rightarrow> unit result) \<Rightarrow> bytes \<Rightarrow> slot_registry \<times> mailbox \<Rightarrow> slot_id result \<times> slot_registry \<times> mailbox" where
  "write_bytes check payload = (\<lambda>(r, m).
    (case check payload of Inl e \<Rightarrow> (Inl e, r, m)
     | Inr _ \<Rightarrow>
         (case lease r of
            (None, r) \<Rightarrow> (Inl Overloaded, r, m)
          | (Some sid, r) \<Rightarrow>
              (case try_send \<lparr>cp_payload = payload, cp_slot_id = sid\<rparr> m of
                 (Inl e, m) \<Rightarrow> (Inl e, release sid r, m)
               | (Inr _, m) \<Rightarrow> (Inr sid, r, m)))))"

section \<open>Encodings\<close>

lemma INDEX_MASK_eq: "INDEX_MASK = mask 62"
  by (simp add: INDEX_MASK_def TAG_COMMITTED_def mask_eq_exp_minus_1 push_bit_eq_mult)

lemma bit_tags: "bit TAG_NOT_LEADER n \<longleftrightarrow> n = 63" "bit TAG_COMMITTED n \<longleftrightarrow> n = 62"
  unfolding TAG_NOT_LEADER_def TAG_COMMITTED_def bit_push_bit_iff by (auto simp: bit_1_iff)

lemma tag_not_pending [simp]: "TAG_NOT_LEADER \<noteq> SLOT_PENDING" "or TAG_COMMITTED v \<noteq> SLOT_PENDING"
proof -
  show "TAG_NOT_LEADER \<noteq> SLOT_PENDING" by (simp add: TAG_NOT_LEADER_def SLOT_PENDING_def)
  have "bit (or TAG_COMMITTED v) 62" by (simp add: TAG_COMMITTED_def bit_simps)
  then show "or TAG_COMMITTED v \<noteq> SLOT_PENDING" by (auto simp: SLOT_PENDING_def)
qed

lemma decode_error [simp]: "slot_decode TAG_NOT_LEADER = Inl (NotLeader None)"
  by (simp add: slot_decode_def TAG_NOT_LEADER_def)

lemma decode_committed [simp]:
  assumes "i \<le> INDEX_MASK"
  shows "slot_decode (or TAG_COMMITTED (and i INDEX_MASK)) = Inr i"
proof -
  have "and (or TAG_COMMITTED (and i INDEX_MASK)) TAG_NOT_LEADER = 0"
    unfolding INDEX_MASK_eq by (rule bit_word_eqI) (auto simp: bit_simps bit_tags)
  moreover have "and (or TAG_COMMITTED (and i INDEX_MASK)) INDEX_MASK = take_bit 62 i"
    unfolding INDEX_MASK_eq by (rule bit_word_eqI) (auto simp: bit_simps bit_tags)
  moreover have "unat i < 2 ^ 62"
    using assms by (simp add: word_nat INDEX_MASK_def TAG_COMMITTED_def)
  then have "take_bit 62 i = i" by (simp add: word_nat unsigned_take_bit_eq take_bit_nat_eq_self_iff)
  ultimately show ?thesis by (simp add: slot_decode_def)
qed

lemma slot_id_fields [simp]:
  "slot_index (slot_id_new i g) = unat i"
  "slot_id_generation (slot_id_new i g) = g"
proof -
  have "ucast (slot_id_new i g) = i" unfolding slot_id_new_def by (rule bit_word_eqI) (auto simp: bit_simps)
  then show "slot_index (slot_id_new i g) = unat i" by (simp add: slot_index_def)
  show "slot_id_generation (slot_id_new i g) = g"
    unfolding slot_id_generation_def slot_id_new_def
    by (rule bit_word_eqI) (auto simp: bit_simps dest: bit_imp_le_length)
qed

lemma slot_id_eq_iff: "a = b \<longleftrightarrow> slot_index a = slot_index b \<and> slot_id_generation a = slot_id_generation b"
proof -
  have "slot_id_new (ucast a) (slot_id_generation a) = a" for a
    unfolding slot_id_generation_def slot_id_new_def
    by (rule bit_word_eqI) (auto simp: bit_simps dest: bit_imp_le_length)
  then show ?thesis by (metis slot_index_def word_unat_eq_iff)
qed

section \<open>What one operation does to a slot\<close>

lemma on_slot_simps [simp]:
  "length (arena (on_slot i f r)) = length (arena r)"
  "i < length (arena r) \<Longrightarrow> arena (on_slot i f r) ! i = f (arena r ! i)"
  "i \<noteq> j \<Longrightarrow> arena (on_slot i f r) ! j = arena r ! j"
  by (simp_all add: on_slot_def)

lemma lease_scan_cases:
  assumes "lease_scan is r = (x, r')" and "set is \<subseteq> {..<length (arena r)}"
  shows "(x = None \<and> r' = r) \<or> (\<exists>i\<in>set is. slot_state (arena r ! i) \<noteq> SLOT_PENDING \<and>
     x = Some (slot_id_new (word_of_nat i) (ucast (slot_generation (arena r ! i) + 1))) \<and>
     r' = on_slot i (\<lambda>s. s\<lparr>slot_state := SLOT_PENDING, slot_generation := slot_generation (arena r ! i) + 1\<rparr>) r)"
  using assms
  by (induction "is") (fastforce simp: claim_def bump_slot_def on_slot_def Let_def split: if_splits)+

lemma lease_cases:
  assumes "lease r = (x, r')"
  obtains (full) "x = None" "arena r' = arena r"
  | (taken) i where "i < length (arena r)" "slot_state (arena r ! i) \<noteq> SLOT_PENDING"
      "x = Some (slot_id_new (word_of_nat i) (ucast (slot_generation (arena r ! i) + 1)))"
      "arena r' = (arena r)[i := (arena r ! i)\<lparr>slot_state := SLOT_PENDING, slot_generation := slot_generation (arena r ! i) + 1\<rparr>]"
proof -
  let ?is = "map (\<lambda>i. unat (cursor r + u64_of i) mod length (arena r)) [0..<length (arena r)]"
  let ?r = "r\<lparr>cursor := cursor r + 1\<rparr>"
  have inside: "set ?is \<subseteq> {..<length (arena ?r)}"
    by (auto intro!: mod_less_divisor)
  have "lease_scan ?is ?r = (x, r')" using assms by (simp add: lease_def Let_def)
  from lease_scan_cases [OF this inside] consider
      "x = None" "r' = ?r"
    | i where "i \<in> set ?is" "slot_state (arena ?r ! i) \<noteq> SLOT_PENDING"
        "x = Some (slot_id_new (word_of_nat i) (ucast (slot_generation (arena ?r ! i) + 1)))"
        "r' = on_slot i (\<lambda>s. s\<lparr>slot_state := SLOT_PENDING, slot_generation := slot_generation (arena ?r ! i) + 1\<rparr>) ?r"
    by blast
  then show thesis
  proof cases
    case 1
    then show thesis using full by simp
  next
    case (2 i)
    moreover have "i < length (arena r)" using 2(1) inside by auto
    ultimately show thesis using taken [of i] by (simp add: on_slot_def)
  qed
qed

section \<open>A leased slot answers to its own identifier only\<close>

definition waiting :: "slot_id \<Rightarrow> slot_registry \<Rightarrow> bool" where
  "waiting sid r \<longleftrightarrow> slot_index sid < length (arena r) \<and>
     slot_state (arena r ! slot_index sid) = SLOT_PENDING \<and> is_current sid r"

datatype slot_op = Lease | Release slot_id | NotifyCommitted slot_id log_index | NotifyError slot_id

fun slot_step :: "slot_op \<Rightarrow> slot_registry \<Rightarrow> slot_registry" where
  "slot_step Lease r = snd (lease r)"
| "slot_step (Release sid) r = release sid r"
| "slot_step (NotifyCommitted sid i) r = notify_committed sid i r"
| "slot_step (NotifyError sid) r = notify_error sid r"

text \<open>
  An operation of another writer or of the engine that is not for this lease: any
  lease, a notification under another identifier (of an earlier lessee of the slot,
  or of another slot), the release of another slot.
\<close>

fun foreign :: "slot_id \<Rightarrow> slot_op \<Rightarrow> bool" where
  "foreign sid Lease = True"
| "foreign sid (Release j) = (slot_index j \<noteq> slot_index sid)"
| "foreign sid (NotifyCommitted j i) = (j \<noteq> sid)"
| "foreign sid (NotifyError j) = (j \<noteq> sid)"

lemma foreign_step:
  assumes "waiting sid r" and "foreign sid p"
  shows "waiting sid (slot_step p r) \<and> arena (slot_step p r) ! slot_index sid = arena r ! slot_index sid"
proof (cases p)
  case Lease
  obtain x r' where l: "lease r = (x, r')" by fastforce
  show ?thesis using l
    by (rule lease_cases) (use assms Lease l in \<open>auto simp: waiting_def is_current_def nth_list_update\<close>)
next
  case (Release j)
  then show ?thesis using assms by (simp add: waiting_def is_current_def release_def)
next
  case (NotifyCommitted j i)
  then show ?thesis using assms
    by (cases "slot_index j = slot_index sid") (auto simp: waiting_def is_current_def notify_committed_def slot_id_eq_iff)
next
  case (NotifyError j)
  then show ?thesis using assms
    by (cases "slot_index j = slot_index sid") (auto simp: waiting_def is_current_def notify_error_def slot_id_eq_iff)
qed

lemma foreign_run:
  assumes "waiting sid r" and "\<forall>p\<in>set ps. foreign sid p"
  shows "waiting sid (fold slot_step ps r) \<and> arena (fold slot_step ps r) ! slot_index sid = arena r ! slot_index sid"
  using assms by (induction ps arbitrary: r) (auto simp: foreign_step)

lemma lease_waiting:
  assumes "lease r = (Some sid, r')" and "length (arena r) \<le> 2 ^ 32"
  shows "waiting sid r'"
  using assms(1)
proof (rule lease_cases)
  fix i
  assume i: "i < length (arena r)" and sid: "Some sid = Some (slot_id_new (word_of_nat i) (ucast (slot_generation (arena r ! i) + 1)))"
    and r': "arena r' = (arena r)[i := (arena r ! i)\<lparr>slot_state := SLOT_PENDING, slot_generation := slot_generation (arena r ! i) + 1\<rparr>]"
  have "slot_index sid = i" using sid i assms(2) by (simp add: unsigned_of_nat take_bit_nat_eq_self_iff)
  then show ?thesis using i sid r' by (simp add: waiting_def is_current_def)
qed simp

lemma notified:
  assumes "waiting sid r"
  shows "arena (notify_committed sid i r) ! slot_index sid = store_committed i (arena r ! slot_index sid)"
    and "arena (notify_error sid r) ! slot_index sid = store_error (arena r ! slot_index sid)"
  using assms by (simp_all add: waiting_def notify_committed_def notify_error_def)

lemma poll_stored:
  "slot_state (arena r ! slot_index sid) \<noteq> SLOT_PENDING \<Longrightarrow> fst (poll f g sid r) = Some (slot_decode (slot_state (arena r ! slot_index sid)))"
  by (simp add: poll_def Let_def)





section \<open>What the generations do not protect\<close>

text \<open>
  A slot is free as soon as its outcome is stored, and neither \<open>poll\<close> nor \<open>release\<close>
  looks at the generation.  When the slot is leased again before the first writer
  polls, that writer's outcome is gone: it waits on, and then reads the index that
  was committed for the other writer.
\<close>

lemma reused_slot_returns_foreign_index:
  "let a = slot_id_new 0 1; b = slot_id_new 0 2;
       r1 = notify_committed a 5 (snd (lease (slot_registry_new 1)));
       (x, r2) = lease r1;
       look = (\<lambda>r. fst (poll (\<lambda>x. x) (\<lambda>x. x) a r)) in
   x = Some b \<and> look r1 = Some (Inr 5) \<and> look r2 = None \<and> look (notify_committed b 9 r2) = Some (Inr 9)"
  by code_simp

text \<open>The first writer's future then releases the slot under the new lessee, whose write is reported as refused.\<close>

lemma stale_release_refuses_new_lessee:
  "let a = slot_id_new 0 1; b = slot_id_new 0 2;
       r = snd (lease (notify_committed a 5 (snd (lease (slot_registry_new 1))))) in
   waiting b r \<and> fst (poll (\<lambda>x. x) (\<lambda>x. x) b (release a r)) = Some (Inl (NotLeader None))"
  by code_simp

text \<open>
  The generation is bumped after the compare-and-exchange.  A stale outcome that
  arrives between the two still finds the old generation and is stored for the new lessee.
\<close>

lemma stale_outcome_between_claim_and_bump:
  "let a = slot_id_new 0 1; r = release a (snd (lease (slot_registry_new 1))) in
   case claim 0 r of
     None \<Rightarrow> False
   | Some r' \<Rightarrow> (case bump_slot 0 (notify_committed a 5 r') of (b, r'') \<Rightarrow>
       b = slot_id_new 0 2 \<and> fst (poll (\<lambda>x. x) (\<lambda>x. x) b r'') = Some (Inr 5))"
  by code_simp

end
