(* ===== verification/Engine_Guards.thy ===== *)
theory Engine_Guards
  imports Raft_Types
begin

text \<open>
  Small policies of the run loop: the per-sender jail for undecodable frames
  (\<open>src/api/arbitro_raft/abuse.rs\<close>), the randomised election timeout
  (\<open>src/api/arbitro_raft/timers.rs\<close>, the same arithmetic as \<open>GroupTimers\<close> of
  \<open>src/api/registry/driver.rs\<close>) and the leader-placement heuristic
  (\<open>src/api/node/leader_balance.rs\<close>).  Instants and durations are milliseconds; the
  hash map of the guard is a finite map.
\<close>

section \<open>The abuse guard\<close>

definition UNKNOWN_SENDER_KEY :: u64 where
  "UNKNOWN_SENDER_KEY = - 1"

record peer_abuse_state =
  window_start :: nat
  errors_in_window :: u32
  jailed_until :: "nat option"

type_synonym abuse_guard = "u64 \<rightharpoonup> peer_abuse_state"

definition abuse_key_for :: "u64 option \<Rightarrow> peer_id list \<Rightarrow> u64" where
  "abuse_key_for claimed_from members =
    (case claimed_from of
       Some from \<Rightarrow> if from \<in> set members then from else UNKNOWN_SENDER_KEY
     | None \<Rightarrow> UNKNOWN_SENDER_KEY)"

definition is_jailed :: "u64 \<Rightarrow> nat \<Rightarrow> abuse_guard \<Rightarrow> bool \<times> abuse_guard" where
  "is_jailed key now g =
    (case g key of
       Some st \<Rightarrow> (case jailed_until st of
           Some until \<Rightarrow> if now < until then (True, g) else (False, g(key := None))
         | None \<Rightarrow> (False, g))
     | None \<Rightarrow> (False, g))"

definition record_decode_error :: "u64 \<Rightarrow> nat \<Rightarrow> limits_config \<Rightarrow> abuse_guard \<Rightarrow> bool \<times> abuse_guard" where
  "record_decode_error key now limits g =
    (let threshold = inbound_decode_error_jail_threshold limits in
     if threshold = 0 then (False, g)
     else let st = (case g key of Some st \<Rightarrow> st
             | None \<Rightarrow> \<lparr>window_start = now, errors_in_window = 0, jailed_until = None\<rparr>);
           st = (if now - window_start st > unat (inbound_decode_error_window_ms limits)
             then st\<lparr>window_start := now, errors_in_window := 0\<rparr> else st);
           st = st\<lparr>errors_in_window := sat_add (errors_in_window st) 1\<rparr> in
       if errors_in_window st \<ge> threshold
       then (True, g(key \<mapsto> st\<lparr>jailed_until := Some (now + unat (inbound_jail_cooldown_ms limits))\<rparr>))
       else (False, g(key \<mapsto> st)))"

section \<open>Election timeouts\<close>

definition mix64 :: "u64 \<Rightarrow> u64" where
  "mix64 x =
    (let x = xor x (drop_bit 30 x); x = x * 0xbf58476d1ce4e5b9;
         x = xor x (drop_bit 27 x); x = x * 0x94d049bb133111eb in
     xor x (drop_bit 31 x))"

definition timer_seed :: "peer_id \<Rightarrow> u64" where
  "timer_seed node = mix64 (node * 0x9e3779b97f4a7c15)"

text \<open>The next timeout in milliseconds and the generator's next state.\<close>

definition next_election_timeout :: "timing_config \<Rightarrow> u64 \<Rightarrow> u64 \<times> u64" where
  "next_election_timeout timing st =
    (let min_ms = max (election_min_ms timing) 1; max_ms = max (election_max_ms timing) min_ms in
     if max_ms = min_ms then (min_ms, st)
     else let st = mix64 st; span = max_ms - min_ms + 1; jitter = st mod span in
       (min_ms + jitter, st))"

definition heartbeat_interval :: "timing_config \<Rightarrow> u64" where
  "heartbeat_interval timing = max (heartbeat_ms timing) 1"

section \<open>Leader placement\<close>

definition fair_share :: "nat \<Rightarrow> nat \<Rightarrow> nat" where
  "fair_share total_groups total_nodes =
    (if total_nodes = 0 then total_groups else (total_groups + total_nodes - 1) div total_nodes)"

definition extra_pre_vote_delay :: "nat \<Rightarrow> nat \<Rightarrow> nat \<Rightarrow> u64 \<Rightarrow> nat \<Rightarrow> nat" where
  "extra_pre_vote_delay leaders_held total_groups total_nodes per_extra_leader_ms max_penalty =
    (let share = fair_share total_groups total_nodes in
     if leaders_held \<le> share then 0
     else let excess = leaders_held - share;
              penalty = min (excess * unat per_extra_leader_ms) (2 ^ 64 - 1) in
       if penalty > max_penalty then max_penalty else penalty)"

section \<open>What the guard does\<close>

text \<open>
  One frame of the run loop: shed (\<open>True\<close>) when its sender is jailed; otherwise a
  frame that does not decode counts as an error of its sender.
\<close>

fun guard_frame :: "limits_config \<Rightarrow> u64 \<Rightarrow> nat \<times> bool \<Rightarrow> abuse_guard \<Rightarrow> bool \<times> abuse_guard" where
  "guard_frame limits key (now, decodes) g =
    (case is_jailed key now g of
       (True, g) \<Rightarrow> (True, g)
     | (False, g) \<Rightarrow> (False, if decodes then g else snd (record_decode_error key now limits g)))"

fun guard_frames :: "limits_config \<Rightarrow> (u64 \<times> nat \<times> bool) list \<Rightarrow> abuse_guard \<Rightarrow> abuse_guard" where
  "guard_frames limits [] g = g"
| "guard_frames limits ((key, frame) # fs) g = guard_frames limits fs (snd (guard_frame limits key frame g))"

lemma guard_frame_other: "k \<noteq> key \<Longrightarrow> snd (guard_frame limits key frame g) k = g k"
  by (cases frame) (auto simp: is_jailed_def record_decode_error_def Let_def split: option.splits)

lemma guard_frames_dom: "dom (guard_frames limits fs g) \<subseteq> dom g \<union> fst ` set fs"
proof (induction fs arbitrary: g)
  case (Cons f fs)
  obtain key frame where f: "f = (key, frame)" by (cases f)
  have "dom (snd (guard_frame limits key frame g)) \<subseteq> insert key (dom g)"
    using guard_frame_other [of _ key limits frame g] by (force simp: dom_def)
  then show ?case using Cons [of "snd (guard_frame limits key frame g)"] unfolding f by force
qed simp

lemma key_for_cases: "abuse_key_for c ms \<in> insert UNKNOWN_SENDER_KEY (set ms)"
  by (auto simp: abuse_key_for_def split: option.splits)

text \<open>The entry of a sender after \<open>k\<close> errors in one window, fewer than the threshold.\<close>

lemma errors_counted:
  assumes "\<forall>t\<in>set ts. t0 \<le> t \<and> t \<le> t0 + unat (inbound_decode_error_window_ms limits)"
    and "k + length ts < unat (inbound_decode_error_jail_threshold limits)"
    and "g key = Some \<lparr>window_start = t0, errors_in_window = word_of_nat k, jailed_until = None\<rparr>"
  shows "guard_frames limits (map (\<lambda>t. (key, t, False)) ts) g key =
    Some \<lparr>window_start = t0, errors_in_window = word_of_nat (k + length ts), jailed_until = None\<rparr>"
  using assms
proof (induction ts arbitrary: k g)
  case (Cons t ts)
  have u: "unat (word_of_nat j :: u32) = j" if "j \<le> k + length ts + 1" for j
    using that Cons.prems(2) unat_lt2p [of "inbound_decode_error_jail_threshold limits"]
    by (simp add: unsigned_of_nat take_bit_nat_eq_self_iff)
  have "sat_add (word_of_nat k :: u32) 1 = word_of_nat (k + 1)"
    using u [of k] u [of "k + 1"] Cons.prems(2) unat_lt2p [of "inbound_decode_error_jail_threshold limits"]
    by (simp add: word_nat_eq unat_sat_add)
  moreover have "\<not> inbound_decode_error_jail_threshold limits \<le> word_of_nat (k + 1)"
    using u [of "k + 1"] Cons.prems(2) by (simp add: word_nat)
  moreover have "inbound_decode_error_jail_threshold limits \<noteq> 0"
    using Cons.prems(2) by (auto simp: word_nat_eq)
  ultimately have "snd (guard_frame limits key (t, False) g) key =
      Some \<lparr>window_start = t0, errors_in_window = word_of_nat (k + 1), jailed_until = None\<rparr>"
    using Cons.prems(1,3) by (auto simp: is_jailed_def record_decode_error_def Let_def)
  then show ?case using Cons.IH [of "k + 1" "snd (guard_frame limits key (t, False) g)"] Cons.prems(1,2) by simp
qed simp

definition errors_at :: "limits_config \<Rightarrow> u64 \<Rightarrow> nat list \<Rightarrow> abuse_guard \<Rightarrow> abuse_guard" where
  "errors_at limits key ts = guard_frames limits (map (\<lambda>t. (key, t, False)) ts)"

lemma guard_frames_append: "guard_frames limits (fs @ fs') g = guard_frames limits fs' (guard_frames limits fs g)"
  by (induction limits fs g rule: guard_frames.induct) auto

lemma errors_at_other: "k \<noteq> key \<Longrightarrow> errors_at limits key ts g k = g k"
  unfolding errors_at_def by (induction ts arbitrary: g) (auto simp: guard_frame_other simp del: guard_frame.simps)

lemma errors_at_below:
  assumes "g key = None" and "\<forall>t\<in>set (t0 # ts). t0 \<le> t \<and> t \<le> t0 + unat (inbound_decode_error_window_ms limits)"
    and "Suc (length ts) < unat (inbound_decode_error_jail_threshold limits)"
  shows "errors_at limits key (t0 # ts) g key =
    Some \<lparr>window_start = t0, errors_in_window = word_of_nat (Suc (length ts)), jailed_until = None\<rparr>"
proof -
  have "\<not> inbound_decode_error_jail_threshold limits \<le> 1" "inbound_decode_error_jail_threshold limits \<noteq> 0"
    using assms(3) by (auto simp: word_nat)
  then have "snd (guard_frame limits key (t0, False) g) key =
      Some \<lparr>window_start = t0, errors_in_window = word_of_nat 1, jailed_until = None\<rparr>"
    using assms(1) by (simp add: is_jailed_def record_decode_error_def Let_def sat_add_def)
  then show ?thesis using errors_counted [of ts t0 limits 1 "snd (guard_frame limits key (t0, False) g)" key] assms(2,3)
    by (simp add: errors_at_def del: guard_frame.simps)
qed

lemma errors_at_threshold:
  assumes "g key = None"
    and "\<forall>u\<in>set (ts @ [t]). hd (ts @ [t]) \<le> u \<and> u \<le> hd (ts @ [t]) + unat (inbound_decode_error_window_ms limits)"
    and "Suc (length ts) = unat (inbound_decode_error_jail_threshold limits)"
  shows "\<exists>st. errors_at limits key (ts @ [t]) g key = Some st \<and>
    jailed_until st = Some (t + unat (inbound_jail_cooldown_ms limits))"
proof -
  let ?thr = "inbound_decode_error_jail_threshold limits"
  have pos: "?thr \<noteq> 0" using assms(3) by (auto simp: word_nat_eq)
  show ?thesis
  proof (cases ts)
    case Nil
    then have "?thr = 1" using assms(3) by (simp add: word_nat_eq)
    then show ?thesis using Nil assms(1)
      by (simp add: errors_at_def is_jailed_def record_decode_error_def Let_def sat_add_def)
  next
    case (Cons t0 us)
    let ?g = "errors_at limits key ts g"
    have st: "?g key = Some \<lparr>window_start = t0, errors_in_window = word_of_nat (length ts), jailed_until = None\<rparr>"
      using errors_at_below [of g key t0 us limits] assms by (simp add: Cons)
    have "unat (word_of_nat (length ts) :: u32) = length ts"
      using assms(3) unat_lt2p [of ?thr] by (simp add: unsigned_of_nat take_bit_nat_eq_self_iff)
    then have "?thr \<le> sat_add (word_of_nat (length ts)) 1"
      using assms(3) unat_lt2p [of ?thr] by (simp add: word_nat unat_sat_add)
    moreover have "t \<le> t0 + unat (inbound_decode_error_window_ms limits)" using assms(2) by (simp add: Cons)
    then have "\<not> t - t0 > unat (inbound_decode_error_window_ms limits)" by linarith
    moreover have "errors_at limits key (ts @ [t]) g = snd (guard_frame limits key (t, False) ?g)"
      by (simp add: errors_at_def guard_frames_append)
    ultimately show ?thesis using st pos by (simp add: is_jailed_def record_decode_error_def Let_def)
  qed
qed

text \<open>
  (C37) The jail has exactly the configured threshold.  When the undecodable frames
  of a sender without an open account fall in one error window, fewer of them than
  the threshold leave it free; with as many as the threshold every frame of it is
  shed until the cool-down after the last one has passed, and none after that.
  Other senders are never affected.
\<close>

theorem jail_threshold_exact:
  assumes "g key = None"
    and "\<forall>u\<in>set (ts @ [t]). hd (ts @ [t]) \<le> u \<and> u \<le> hd (ts @ [t]) + unat (inbound_decode_error_window_ms limits)"
    and "Suc (length ts) = unat (inbound_decode_error_jail_threshold limits)"
  shows "\<not> fst (is_jailed key now (errors_at limits key ts g)) \<and>
    fst (is_jailed key now (errors_at limits key (ts @ [t]) g)) = (now < t + unat (inbound_jail_cooldown_ms limits)) \<and>
    (\<forall>k. k = key \<or> errors_at limits key (ts @ [t]) g k = g k)"
proof (intro conjI)
  show "\<not> fst (is_jailed key now (errors_at limits key ts g))"
  proof (cases ts)
    case (Cons t0 us)
    then show ?thesis using errors_at_below [of g key t0 us limits] assms by (simp add: is_jailed_def)
  qed (simp add: errors_at_def is_jailed_def assms(1))
qed (use errors_at_threshold [of g key ts t limits] assms in \<open>auto simp: is_jailed_def split: if_splits dest: errors_at_other [of _ key]\<close>)

theorem jail_threshold_exact_witness:
  "let limits = default_limits\<lparr>inbound_decode_error_jail_threshold := 2\<rparr>; g = errors_at limits 7 [10, 12] Map.empty in
   fst (is_jailed 7 3011 g) \<and> \<not> fst (is_jailed 7 3012 g)"
  using jail_threshold_exact [of Map.empty 7 "[10]" 12 "default_limits\<lparr>inbound_decode_error_jail_threshold := 2\<rparr>" 3011]
    jail_threshold_exact [of Map.empty 7 "[10]" 12 "default_limits\<lparr>inbound_decode_error_jail_threshold := 2\<rparr>" 3012]
  by (simp add: default_limits_def Let_def)

text \<open>
  Spoofed identities cannot grow the guard.  However many frames arrive, under
  whatever claimed senders, the guard of a node holds at most one account per voter
  and one for everybody else.
\<close>

theorem abuse_accounts_bounded:
  "card (dom (guard_frames limits (map (\<lambda>(claimed, frame). (abuse_key_for claimed members, frame)) fs) Map.empty))
     \<le> length members + 1"
proof -
  let ?keys = "insert UNKNOWN_SENDER_KEY (set members)"
  have "dom (guard_frames limits (map (\<lambda>(claimed, frame). (abuse_key_for claimed members, frame)) fs) Map.empty) \<subseteq> ?keys"
    using guard_frames_dom [of limits "map (\<lambda>(claimed, frame). (abuse_key_for claimed members, frame)) fs" Map.empty]
      key_for_cases by fastforce
  then have "card (dom (guard_frames limits (map (\<lambda>(claimed, frame). (abuse_key_for claimed members, frame)) fs) Map.empty))
      \<le> card ?keys" by (intro card_mono) auto
  also have "\<dots> \<le> length members + 1" using card_insert_le_m1 [of "length members + 1" "set members"] card_length [of members] by simp
  finally show ?thesis .
qed

text \<open>
  The accounts are keyed by voter: a learner is nobody to the guard.  Garbage under
  an invented identity therefore sheds the frames of every learner.
\<close>

lemma learner_shares_unknown_account:
  assumes "learner \<notin> set voters" and "stranger \<notin> set voters"
  shows "abuse_key_for (Some learner) voters = abuse_key_for (Some stranger) voters"
  using assms by (simp add: abuse_key_for_def)

section \<open>What the timers do\<close>

text \<open>
  An election timeout is inside the configured range, both ends included, with
  no wrap-around of the 64-bit arithmetic; a range that is empty or reversed gives
  its lower end, and never zero.
\<close>

theorem election_timeout_in_range:
  "let lo = max (election_min_ms timing) 1; timeout = fst (next_election_timeout timing st) in
    lo \<le> timeout \<and> timeout \<le> max (election_max_ms timing) lo \<and> 0 < timeout"
proof -
  define lo where "lo = max (election_min_ms timing) 1"
  let ?hi = "max (election_max_ms timing) lo"
  let ?j = "mix64 st mod (?hi - lo + 1)"
  have lo: "1 \<le> lo" "lo \<le> ?hi" by (simp_all add: lo_def)
  have hi: "unat (?hi - lo + 1) = unat ?hi - unat lo + 1"
  proof -
    have d: "unat (?hi - lo) = unat ?hi - unat lo" using lo(2) by (simp add: unat_sub)
    have "1 \<le> unat lo" using lo(1) by (simp add: word_nat)
    then have "unat (?hi - lo) + 1 < 2 ^ 64" using d lo(2) [unfolded word_nat_le] unat_lt_64 [of ?hi] by linarith
    then have "unat (?hi - lo + 1) = unat (?hi - lo) + 1" by (subst unat_add_lem [THEN iffD1]) simp_all
    with d show ?thesis by simp
  qed
  have "unat ?j < unat ?hi - unat lo + 1" using hi by (simp add: unat_mod)
  then have le: "unat lo + unat ?j \<le> unat ?hi" using lo(2) [unfolded word_nat_le] by linarith
  then have "unat (lo + ?j) = unat lo + unat ?j"
    using unat_lt_64 [of ?hi] by (subst unat_add_lem [THEN iffD1]) simp_all
  then have "lo \<le> lo + ?j" "lo + ?j \<le> ?hi" "0 < lo + ?j" using le lo(1) by (simp_all add: word_nat)
  moreover have "0 < lo" using lo(1) by (simp add: word_nat)
  ultimately show ?thesis
    using lo(2) by (auto simp: next_election_timeout_def Let_def lo_def [symmetric])
qed

section \<open>Leader placement\<close>

lemma fair_share_covers:
  assumes "0 < total_nodes"
  shows "total_groups \<le> fair_share total_groups total_nodes * total_nodes"
proof -
  let ?n = "total_groups + total_nodes - 1"
  have "?n = ?n div total_nodes * total_nodes + ?n mod total_nodes" by simp
  moreover have "?n mod total_nodes < total_nodes" using assms by simp
  ultimately have "total_groups \<le> ?n div total_nodes * total_nodes" by linarith
  then show ?thesis using assms by (simp add: fair_share_def)
qed

lemma pre_vote_delay_min:
  "extra_pre_vote_delay held groups nodes per cap =
    min cap (min ((held - fair_share groups nodes) * unat per) (2 ^ 64 - 1))"
  by (auto simp: extra_pre_vote_delay_def Let_def min_def)

lemma pre_vote_delay_mono:
  "held \<le> held' \<Longrightarrow> extra_pre_vote_delay held groups nodes per cap \<le> extra_pre_vote_delay held' groups nodes per cap"
  unfolding pre_vote_delay_min by (intro min.mono order_refl mult_le_mono diff_le_mono) auto

end
