(* ===== verification/Raft_Engine.thy ===== *)
theory Raft_Engine
  imports Raft_Propose Slot_Registry Engine_Guards
begin

text \<open>
  The execution loop around a node (\<open>src/api/arbitro_raft/mod.rs\<close>, \<open>run.rs\<close> and the
  deadlines of \<open>timers.rs\<close>): client batching, commit notification, applying
  committed entries, the leader's and the follower's tick, and the public
  operations of the engine.

  An engine operation returns a result, or \<open>None\<close> for a panic, and the engine.
  Whenever the loop waits, it takes the next element of \<open>en_waits\<close>: the clock when
  the call is made and when it returns, the answers of the transport, and what the
  clients did meanwhile.  A call for which none is left times out at once.
\<close>

section \<open>State\<close>

text \<open>The user's state machine, an implementation of the trait \<open>StateMachine\<close>.\<close>

record 'm sm_ops =
  sm_apply_at :: "log_index \<Rightarrow> bytes \<Rightarrow> (unit, 'm) raft_op"
  sm_snapshot :: "'m \<Rightarrow> bytes result"
  sm_restore :: "bytes \<Rightarrow> (unit, 'm) raft_op"

record ('s, 'm) engine_env =
  ee_node :: "'s raft_env"
  ee_custom :: custom_env
  ee_tuning :: vec_tuning
  ee_sm :: "'m sm_ops"

record commit_waiter =
  cw_index :: log_index
  cw_slot_id :: slot_id

text \<open>What a client task does with its handle: submit a payload, or drop the future of a write.\<close>

datatype client_op = Write bytes | Cancel slot_id

record wait =
  w_now :: nat
  w_events :: "recv_event list"
  w_clients :: "client_op list"
  w_end :: nat

record ('s, 'm) engine =
  en_node :: "'s raft_node"
  en_sm :: 'm
  en_stopped :: bool
  en_next_election :: nat
  en_next_heartbeat :: nat
  en_election_state :: u64
  en_mailbox :: mailbox
  en_registry :: slot_registry
  en_pending_batch :: "bytes list"
  en_pending_slots :: "slot_id list"
  en_commit_waiters :: "commit_waiter list"
  en_abuse :: abuse_guard
  en_now :: nat
  en_waits :: "wait list"

type_synonym ('a, 'e) io = "'e \<Rightarrow> 'a result option \<times> 'e"
type_synonym ('a, 's, 'm) eng = "('a, ('s, 'm) engine) io"

definition eng_return :: "'a \<Rightarrow> ('a, 'e) io" where
  "eng_return x e = (Some (Inr x), e)"

definition eng_throw :: "raft_error \<Rightarrow> ('a, 'e) io" where
  "eng_throw err e = (Some (Inl err), e)"

definition eng_bind :: "('a, 'e) io \<Rightarrow> ('a \<Rightarrow> ('b, 'e) io) \<Rightarrow> ('b, 'e) io" where
  "eng_bind m k e =
    (case m e of
       (None, e) \<Rightarrow> (None, e)
     | (Some (Inl err), e) \<Rightarrow> (Some (Inl err), e)
     | (Some (Inr x), e) \<Rightarrow> k x e)"

text \<open>Handling an error of a call instead of passing it on.\<close>

definition eng_match :: "('a, 'e) io \<Rightarrow> ('a result \<Rightarrow> ('b, 'e) io) \<Rightarrow> ('b, 'e) io" where
  "eng_match m k e = (case m e of (None, e) \<Rightarrow> (None, e) | (Some r, e) \<Rightarrow> k r e)"

definition eng_do :: "('e \<Rightarrow> 'e) \<Rightarrow> (unit, 'e) io" where
  "eng_do f e = (Some (Inr ()), f e)"

definition upd_node :: "('s raft_node \<Rightarrow> 's raft_node) \<Rightarrow> ('s, 'm) engine \<Rightarrow> ('s, 'm) engine" where
  "upd_node f e = e\<lparr>en_node := f (en_node e)\<rparr>"

text \<open>A call of the node that does not wait.\<close>

definition on_node :: "('s, 'm) engine_env \<Rightarrow> ('s raft_env \<Rightarrow> ('a, 's raft_node) raft_op) \<Rightarrow> ('a, 's, 'm) eng" where
  "on_node V f e =
    (case f ((ee_node V)\<lparr>e_now := en_now e\<rparr>) (en_node e) of (r, n) \<Rightarrow> (Some r, e\<lparr>en_node := n\<rparr>))"

section \<open>Client payloads\<close>

definition reject_reserved_prefix :: "bytes \<Rightarrow> unit result" where
  "reject_reserved_prefix payload =
    (if length payload > MAX_ENTRY_PAYLOAD
     then Inl (InvalidPayload ''payload exceeds MAX_ENTRY_PAYLOAD and would not fit a peer's frame buffer'')
     else if payload \<noteq> [] \<and> hd payload = CONFIG_CHANGE_MAGIC
     then Inl (InvalidPayload ''payload first byte collides with reserved config-change magic (0xC0)'')
     else Inr ())"

fun client_step :: "client_op \<Rightarrow> ('s, 'm) engine \<Rightarrow> ('s, 'm) engine" where
  "client_step (Write payload) e =
    (case write_bytes reject_reserved_prefix payload (en_registry e, en_mailbox e) of
       (_, r, m) \<Rightarrow> e\<lparr>en_registry := r, en_mailbox := m\<rparr>)"
| "client_step (Cancel sid) e = e\<lparr>en_registry := release sid (en_registry e)\<rparr>"

section \<open>Waiting\<close>

definition next_wait :: "('s, 'm) engine \<Rightarrow> wait \<times> ('s, 'm) engine" where
  "next_wait e =
    (case en_waits e of
       [] \<Rightarrow> (\<lparr>w_now = en_now e, w_events = [], w_clients = [], w_end = en_now e\<rparr>, e)
     | w # ws \<Rightarrow> (w, e\<lparr>en_waits := ws\<rparr>))"

definition end_wait :: "wait \<Rightarrow> ('s, 'm) engine \<Rightarrow> ('s, 'm) engine" where
  "end_wait w e = (fold client_step (w_clients w) e)\<lparr>en_now := w_end w\<rparr>"

definition await :: "('s, 'm) engine_env \<Rightarrow> ('s raft_env \<Rightarrow> recv_event list \<Rightarrow> 's raft_node \<Rightarrow> 'a result option \<times> 's raft_node) \<Rightarrow>
    ('a, 's, 'm) eng" where
  "await V f e =
    (case next_wait e of
       (w, e) \<Rightarrow>
         (case f ((ee_node V)\<lparr>e_now := w_now w\<rparr>) (w_events w) (en_node e) of
            (r, n) \<Rightarrow> (r, end_wait w (e\<lparr>en_node := n\<rparr>))))"

text \<open>
  The calls of the node that wait for frames.  Each starts by clearing the peer
  list it shares with the others, so it is handed an empty one.
\<close>

definition node_heartbeat :: "('s, 'm) engine_env \<Rightarrow> (unit, 's, 'm) eng" where
  "node_heartbeat V = await V (\<lambda>E evs n.
     case send_heartbeat_once E (ee_custom V) (n, [], evs) of (r, n, _) \<Rightarrow> (r, n))"

definition node_campaign :: "('s, 'm) engine_env \<Rightarrow> (bool, 's, 'm) eng" where
  "node_campaign V = await V (\<lambda>E evs n.
     case campaign_once E (ee_custom V) MAX_FRAME_SIZE evs n of (r, n) \<Rightarrow> (Some r, n))"

definition node_pre_vote :: "('s, 'm) engine_env \<Rightarrow> (bool, 's, 'm) eng" where
  "node_pre_vote V = await V (\<lambda>E evs n.
     case campaign_pre_vote E (ee_custom V) MAX_FRAME_SIZE evs n of (r, n) \<Rightarrow> (Some r, n))"

definition node_propose :: "('s, 'm) engine_env \<Rightarrow> bytes \<Rightarrow> (log_index, 's, 'm) eng" where
  "node_propose V payload = await V (\<lambda>E evs n.
     case propose_once E (ee_custom V) (ee_tuning V) payload n evs of (r, n, _) \<Rightarrow> (Some r, n))"

definition node_propose_batch :: "('s, 'm) engine_env \<Rightarrow> bytes list \<Rightarrow> (log_index list, 's, 'm) eng" where
  "node_propose_batch V payloads = await V (\<lambda>E evs n.
     case propose_batch_once E (ee_custom V) (ee_tuning V) payloads n evs of (r, n, _) \<Rightarrow> (Some r, n))"

definition node_transfer :: "('s, 'm) engine_env \<Rightarrow> peer_id \<Rightarrow> (unit, 's, 'm) eng" where
  "node_transfer V target = await V (\<lambda>E evs n.
     case transfer_leadership E (ee_custom V) target MAX_FRAME_SIZE (n, [], evs) of (r, n, _) \<Rightarrow> (r, n))"

definition node_read :: "('s, 'm) engine_env \<Rightarrow> (log_index, 's, 'm) eng" where
  "node_read V = await V (\<lambda>E evs n.
     case read_index E (ee_custom V) (ee_tuning V) MAX_FRAME_SIZE (n, [], evs) of (r, n, _) \<Rightarrow> (r, n))"

definition node_snapshot :: "('s, 'm) engine_env \<Rightarrow> peer_id \<Rightarrow> (bool, 's, 'm) eng" where
  "node_snapshot V peer = await V (\<lambda>E evs n.
     case maybe_install_snapshot_to_lagging_peer E (ee_custom V) peer (n, [], evs) of (r, n, _) \<Rightarrow> (Some r, n))"

section \<open>Deadlines\<close>

definition reset_heartbeat_deadline :: "('s, 'm) engine \<Rightarrow> ('s, 'm) engine" where
  "reset_heartbeat_deadline e =
     e\<lparr>en_next_heartbeat := en_now e + unat (heartbeat_interval (cfg_timing (n_config (en_node e))))\<rparr>"

definition reset_election_deadline :: "('s, 'm) engine \<Rightarrow> ('s, 'm) engine" where
  "reset_election_deadline e =
    (case next_election_timeout (cfg_timing (n_config (en_node e))) (en_election_state e) of
       (timeout, st) \<Rightarrow> e\<lparr>en_election_state := st, en_next_election := en_now e + unat timeout\<rparr>)"

definition engine_new :: "nat \<Rightarrow> 's raft_node \<Rightarrow> 'm \<Rightarrow> wait list \<Rightarrow> ('s, 'm) engine" where
  "engine_new now n sm waits =
     reset_heartbeat_deadline (reset_election_deadline
       \<lparr>en_node = n, en_sm = sm, en_stopped = False, en_next_election = now, en_next_heartbeat = now,
        en_election_state = timer_seed (node_id n),
        en_mailbox = \<lparr>mb_capacity = max (client_mailbox_capacity (cfg_limits (n_config n))) 1, mb_queue = [], mb_closed = False\<rparr>,
        en_registry = slot_registry_new 65536, en_pending_batch = [], en_pending_slots = [],
        en_commit_waiters = [], en_abuse = Map.empty, en_now = now, en_waits = waits\<rparr>)"

section \<open>Applying committed entries\<close>

definition APPLY_BUF_LEN :: nat where
  "APPLY_BUF_LEN = 16 * 1024 * 1024"

definition restore_from_snapshot :: "('s, 'm) engine_env \<Rightarrow> (unit, 's, 'm) eng" where
  "restore_from_snapshot V e =
    (case restore_state_machine_from_snapshot ((ee_node V)\<lparr>e_now := en_now e\<rparr>) (sm_restore (ee_sm V)) (en_sm e, en_node e) of
       (r, sm, n) \<Rightarrow> (Some (map_sum id (\<lambda>_. ()) r), e\<lparr>en_sm := sm, en_node := n\<rparr>))"

definition apply_payload :: "('s, 'm) engine_env \<Rightarrow> log_index \<Rightarrow> bytes \<Rightarrow> (unit, 's, 'm) eng" where
  "apply_payload V idx payload =
     eng_bind (on_node V (\<lambda>E. apply_if_config_change E payload)) (\<lambda>consumed e.
       if consumed then (Some (Inr ()), e)
       else case sm_apply_at (ee_sm V) idx payload (en_sm e) of (r, sm) \<Rightarrow> (Some r, e\<lparr>en_sm := sm\<rparr>))"

definition mark_applied :: "log_index \<Rightarrow> nat \<Rightarrow> 's raft_node \<Rightarrow> 's raft_node" where
  "mark_applied idx len n =
    (let n = set_last_applied idx n in
     n\<lparr>n_debt_entries := n_debt_entries n + 1, n_debt_bytes := n_debt_bytes n + u64_of len\<rparr>)"

text \<open>The loop runs over the \<open>k\<close> indexes up to the commit index, and stops early at an absent entry.\<close>

primrec apply_loop :: "('s, 'm) engine_env \<Rightarrow> nat \<Rightarrow> log_index \<Rightarrow> (unit, 's, 'm) eng" where
  "apply_loop V 0 idx = eng_return ()"
| "apply_loop V (Suc k) idx =
     eng_bind (on_node V (\<lambda>E. with_storage (so_entry_at (e_store E) idx APPLY_BUF_LEN))) (\<lambda>found.
       case found of
         None \<Rightarrow> eng_return ()
       | Some entry \<Rightarrow>
           eng_bind (apply_payload V idx (entry_payload entry)) (\<lambda>_.
           eng_bind (eng_do (upd_node (mark_applied idx (length (entry_payload entry))))) (\<lambda>_.
             apply_loop V k (idx + 1))))"

definition apply_committed_entries :: "('s, 'm) engine_env \<Rightarrow> (unit, 's, 'm) eng" where
  "apply_committed_entries V =
     eng_bind (restore_from_snapshot V) (\<lambda>_.
     eng_bind (\<lambda>e. let commit = commit_index (en_node e); idx = n_last_applied (en_node e) + 1 in
        apply_loop V (if idx \<le> commit then unat commit - unat idx + 1 else 0) idx e) (\<lambda>_.
     eng_bind (\<lambda>e. on_node V (\<lambda>E. maybe_compact E (sm_snapshot (ee_sm V) (en_sm e))) e) (\<lambda>_.
       eng_return ())))"

section \<open>Inbound frames\<close>

definition inc_frames_shed_jailed :: "'s raft_node \<Rightarrow> 's raft_node" where
  "inc_frames_shed_jailed n =
     n\<lparr>n_metrics := (n_metrics n)\<lparr>m_frames_shed_jailed := m_frames_shed_jailed (n_metrics n) + 1\<rparr>\<rparr>"

definition inc_peers_jailed :: "'s raft_node \<Rightarrow> 's raft_node" where
  "inc_peers_jailed n = n\<lparr>n_metrics := (n_metrics n)\<lparr>m_peers_jailed := m_peers_jailed (n_metrics n) + 1\<rparr>\<rparr>"

definition inc_resource_exhausted :: "'s raft_node \<Rightarrow> 's raft_node" where
  "inc_resource_exhausted n =
     n\<lparr>n_metrics := (n_metrics n)\<lparr>m_resource_exhausted := m_resource_exhausted (n_metrics n) + 1\<rparr>\<rparr>"

definition claimed_from :: "bytes \<Rightarrow> u64 option" where
  "claimed_from frame = (if length frame < RAFT_FRAME_HEADER_SIZE then None else Some (fh_from (dec_frame_header (take 32 frame))))"

definition dispatch_inbound :: "('s, 'm) engine_env \<Rightarrow> bytes \<Rightarrow> (unit, 's, 'm) eng" where
  "dispatch_inbound V frame e =
    (let key = abuse_key_for (claimed_from frame) (peers (en_node e)); now = en_now e in
     case is_jailed key now (en_abuse e) of
       (True, abuse) \<Rightarrow> (Some (Inr ()), upd_node inc_frames_shed_jailed (e\<lparr>en_abuse := abuse\<rparr>))
     | (False, abuse) \<Rightarrow>
         (case decode_message frame of
            Inl _ \<Rightarrow>
              (case record_decode_error key now (cfg_limits (n_config (en_node e))) abuse of
                 (jailed, abuse) \<Rightarrow>
                   (Some (Inr ()), upd_node ((if jailed then inc_peers_jailed else id) \<circ> inc_frames_dropped_nonfatal)
                      (e\<lparr>en_abuse := abuse\<rparr>)))
          | Inr m \<Rightarrow>
              eng_match (on_node V (\<lambda>E. handle_inbound E (ee_custom V) m)) (\<lambda>r.
                case r of
                  Inr _ \<Rightarrow> eng_return ()
                | Inl err \<Rightarrow>
                    if is_fatal err then eng_throw err
                    else eng_do (upd_node (inc_frames_dropped_nonfatal \<circ>
                      (if is_resource_exhaustion err then inc_resource_exhausted else id)))) (e\<lparr>en_abuse := abuse\<rparr>)))"

text \<open>What one receive call of the transport answers.\<close>

definition transport_recv :: "(bytes option, 's, 'm) eng" where
  "transport_recv e =
    (case next_wait e of
       (w, e) \<Rightarrow> (Some (case w_events w of [] \<Rightarrow> Inr None | ev # _ \<Rightarrow> ev_recv ev), end_wait w e))"

definition recv_inbound :: "(bytes option, 's, 'm) eng" where
  "recv_inbound =
     eng_match transport_recv (\<lambda>r.
       case r of
         Inr frame \<Rightarrow> eng_return frame
       | Inl err \<Rightarrow>
           if is_fatal err then eng_throw err
           else eng_bind (eng_do (upd_node inc_frames_dropped_nonfatal)) (\<lambda>_. eng_return None))"

text \<open>The burst of at most \<open>k\<close> frames that are already there; the result is how many were handled.\<close>

primrec drain_burst :: "('s, 'm) engine_env \<Rightarrow> nat \<Rightarrow> nat \<Rightarrow> (nat, 's, 'm) eng" where
  "drain_burst V 0 processed = eng_return processed"
| "drain_burst V (Suc k) processed =
     eng_bind recv_inbound (\<lambda>frame.
       case frame of
         None \<Rightarrow> eng_return processed
       | Some frame \<Rightarrow> eng_bind (dispatch_inbound V frame) (\<lambda>_. drain_burst V k (processed + 1)))"

section \<open>Commit notifications\<close>

definition resolve_committed :: "commit_waiter \<Rightarrow> slot_registry \<Rightarrow> slot_registry" where
  "resolve_committed w = notify_committed (cw_slot_id w) (cw_index w)"

text \<open>The slow path: committed waiters are taken out by \<open>swap_remove\<close>.\<close>

function drain_partial :: "log_index \<Rightarrow> nat \<Rightarrow> commit_waiter list \<Rightarrow> slot_registry \<Rightarrow> commit_waiter list \<times> slot_registry" where
  "drain_partial commit i ws r =
    (if i < length ws
     then if cw_index (ws ! i) \<le> commit then drain_partial commit i (swap_remove i ws) (resolve_committed (ws ! i) r)
       else drain_partial commit (i + 1) ws r
     else (ws, r))"
  by pat_completeness auto
termination
  by (relation "measure (\<lambda>(commit, i, ws, r). length ws - i)") (auto simp: swap_remove_def)

declare drain_partial.simps [simp del]

definition drain_commit_waiters :: "('s, 'm) engine \<Rightarrow> ('s, 'm) engine" where
  "drain_commit_waiters e =
    (let commit = commit_index (en_node e); ws = en_commit_waiters e in
     if ws = [] then e
     else if cw_index (last ws) \<le> commit
     then e\<lparr>en_registry := fold resolve_committed ws (en_registry e), en_commit_waiters := []\<rparr>
     else case drain_partial commit 0 ws (en_registry e) of
       (ws, r) \<Rightarrow> e\<lparr>en_registry := r, en_commit_waiters := ws\<rparr>)"

definition fail_commit_waiters :: "('s, 'm) engine \<Rightarrow> ('s, 'm) engine" where
  "fail_commit_waiters e =
     e\<lparr>en_registry := fold (\<lambda>w. notify_error (cw_slot_id w)) (en_commit_waiters e) (en_registry e), en_commit_waiters := []\<rparr>"

section \<open>The leader's tick\<close>

definition push_proposal :: "client_proposal \<Rightarrow> ('s, 'm) engine \<Rightarrow> ('s, 'm) engine" where
  "push_proposal p e = e\<lparr>en_pending_batch := en_pending_batch e @ [cp_payload p], en_pending_slots := en_pending_slots e @ [cp_slot_id p]\<rparr>"

text \<open>Taking queued proposals until \<open>k\<close> are taken or none is left.\<close>

primrec fill_batch :: "nat \<Rightarrow> ('s, 'm) engine \<Rightarrow> ('s, 'm) engine" where
  "fill_batch 0 e = e"
| "fill_batch (Suc k) e =
    (case try_recv (en_mailbox e) of
       (None, _) \<Rightarrow> e
     | (Some p, m) \<Rightarrow> fill_batch k (push_proposal p (e\<lparr>en_mailbox := m\<rparr>)))"

definition batch_room :: "('s, 'm) engine \<Rightarrow> nat" where
  "batch_room e = append_batch_entries (cfg_limits (n_config (en_node e))) - length (en_pending_batch e)"

fun new_waiters :: "log_index \<Rightarrow> slot_id list \<Rightarrow> commit_waiter list" where
  "new_waiters idx [] = []"
| "new_waiters idx (sid # sids) = \<lparr>cw_index = idx, cw_slot_id = sid\<rparr> # new_waiters (idx + 1) sids"

definition replicate_pending :: "('s, 'm) engine_env \<Rightarrow> (unit, 's, 'm) eng" where
  "replicate_pending V e =
     eng_match (on_node V (\<lambda>E. replicate_batch_async E (ee_tuning V) (en_pending_batch e))) (\<lambda>r e.
       case r of
         Inr (first_index, _) \<Rightarrow>
           (Some (Inr ()), e\<lparr>en_commit_waiters := en_commit_waiters e @ new_waiters first_index (en_pending_slots e),
              en_pending_slots := [], en_pending_batch := []\<rparr>)
       | Inl err \<Rightarrow>
           (Some (Inl err), e\<lparr>en_registry := fold notify_error (en_pending_slots e) (en_registry e),
              en_pending_slots := [], en_pending_batch := []\<rparr>)) e"

definition replicate_if_any :: "('s, 'm) engine_env \<Rightarrow> (unit, 's, 'm) eng" where
  "replicate_if_any V e = (if en_pending_batch e \<noteq> [] then replicate_pending V e else (Some (Inr ()), e))"

text \<open>After inbound frames: advance the commit index, notify, apply, and fail what a lost leadership leaves.\<close>

definition after_frames :: "('s, 'm) engine_env \<Rightarrow> (unit, 's, 'm) eng" where
  "after_frames V =
     eng_bind (on_node V try_advance_commit_index) (\<lambda>_.
     eng_bind (eng_do drain_commit_waiters) (\<lambda>_.
     eng_bind (apply_committed_entries V) (\<lambda>_.
       eng_do (\<lambda>e. if is_leader (en_node e) then e else fail_commit_waiters e))))"

definition handle_one_frame :: "('s, 'm) engine_env \<Rightarrow> bytes option \<Rightarrow> (unit, 's, 'm) eng" where
  "handle_one_frame V frame =
    (case frame of
       None \<Rightarrow> eng_return ()
     | Some frame \<Rightarrow> eng_bind (dispatch_inbound V frame) (\<lambda>_. after_frames V))"

definition leader_heartbeat :: "('s, 'm) engine_env \<Rightarrow> (unit, 's, 'm) eng" where
  "leader_heartbeat V e =
    (if \<not> check_quorum_active (en_now e) (en_node e)
     then eng_bind (on_node V (\<lambda>E n. step_down E (node_term n) n)) (\<lambda>_. eng_do fail_commit_waiters) e
     else eng_bind (node_heartbeat V) (\<lambda>_. eng_do reset_heartbeat_deadline) e)"

text \<open>
  The \<open>select!\<close> between a frame and a proposal: the proposal arm runs when the
  transport gave no answer and the mailbox is not empty.
\<close>

definition leader_select :: "('s, 'm) engine_env \<Rightarrow> (unit, 's, 'm) eng" where
  "leader_select V e =
    (case next_wait e of
       (w, e) \<Rightarrow>
         let e = end_wait w e in
         (case w_events w of
            ev # _ \<Rightarrow>
              (case ev_recv ev of
                 Inr frame \<Rightarrow> handle_one_frame V frame e
               | Inl err \<Rightarrow> if is_fatal err then (Some (Inl err), e) else (Some (Inr ()), e))
          | [] \<Rightarrow>
              (case try_recv (en_mailbox e) of
                 (None, _) \<Rightarrow> (Some (Inr ()), e)
               | (Some p, m) \<Rightarrow>
                   let e = push_proposal p (e\<lparr>en_mailbox := m\<rparr>) in
                   replicate_if_any V (fill_batch (batch_room e) e))))"

definition leader_idle :: "('s, 'm) engine_env \<Rightarrow> bool \<Rightarrow> (unit, 's, 'm) eng" where
  "leader_idle V transferring e =
    (if en_now e \<ge> en_next_heartbeat e then leader_heartbeat V e
     else if transferring then eng_bind recv_inbound (handle_one_frame V) e
     else leader_select V e)"

definition run_leader_once :: "('s, 'm) engine_env \<Rightarrow> (unit, 's, 'm) eng" where
  "run_leader_once V e =
    (case leadership_transfer_in_progress (en_now e) (en_node e) of
       (transferring, n) \<Rightarrow>
         let e = e\<lparr>en_node := snd (evict_stalled_snapshots (en_now e) n)\<rparr> in
         eng_bind (\<lambda>e. if transferring then (Some (Inr ()), e) else replicate_if_any V (fill_batch (batch_room e) e)) (\<lambda>_.
         eng_bind (drain_burst V 128 0) (\<lambda>processed.
           if processed > 0 then after_frames V else leader_idle V transferring)) e)"

section \<open>The follower's tick\<close>

definition raft_send_heartbeat_once :: "('s, 'm) engine_env \<Rightarrow> (unit, 's, 'm) eng" where
  "raft_send_heartbeat_once V =
     eng_match (node_heartbeat V) (\<lambda>r e. (Some r, reset_heartbeat_deadline e))"

definition finalize_joint_if_inherited :: "('s, 'm) engine_env \<Rightarrow> (unit, 's, 'm) eng" where
  "finalize_joint_if_inherited V e =
    (if \<not> is_leader (en_node e) then (Some (Inr ()), e)
     else case n_joint_peers (en_node e) of
       None \<Rightarrow> (Some (Inr ()), e)
     | Some (old_peers, new_peers) \<Rightarrow>
         eng_match (node_propose V (config_change_encode
             \<lparr>cc_phase = Final, cc_old_peers = old_peers, cc_new_peers = new_peers\<rparr>)) (\<lambda>r e.
           case r of
             Inr _ \<Rightarrow> if is_leader (en_node e) then raft_send_heartbeat_once V e else (Some (Inr ()), e)
           | Inl err \<Rightarrow> if is_fatal err then (Some (Inl err), e) else (Some (Inr ()), e)) e)"

definition campaign_and_settle :: "('s, 'm) engine_env \<Rightarrow> (unit, 's, 'm) eng" where
  "campaign_and_settle V =
     eng_match (node_campaign V) (\<lambda>r.
       case r of
         Inr elected \<Rightarrow>
           eng_bind (eng_do reset_election_deadline) (\<lambda>_.
             if elected
             then eng_bind (eng_do reset_heartbeat_deadline) (\<lambda>_.
               eng_bind (node_heartbeat V) (\<lambda>_.
               eng_bind (eng_do reset_heartbeat_deadline) (\<lambda>_.
                 finalize_joint_if_inherited V)))
             else eng_return ())
       | Inl err \<Rightarrow> if err \<noteq> NoQuorum \<and> is_fatal err then eng_throw err else eng_do reset_election_deadline)"

text \<open>Whether a sanctioned campaign is due; the request is consumed.\<close>

definition forced_campaign :: "(bool, 's, 'm) eng" where
  "forced_campaign e = (case take_forced_campaign (en_node e) of (b, n) \<Rightarrow> (Some (Inr b), e\<lparr>en_node := n\<rparr>))"

definition election_timed_out :: "('s, 'm) engine_env \<Rightarrow> (unit, 's, 'm) eng" where
  "election_timed_out V =
     eng_match (node_pre_vote V) (\<lambda>r.
       case r of
         Inr True \<Rightarrow> campaign_and_settle V
       | Inr False \<Rightarrow> eng_do reset_election_deadline
       | Inl err \<Rightarrow> if err \<noteq> NoQuorum \<and> is_fatal err then eng_throw err else eng_do reset_election_deadline)"

definition follower_idle :: "('s, 'm) engine_env \<Rightarrow> (unit, 's, 'm) eng" where
  "follower_idle V =
     eng_bind recv_inbound (\<lambda>frame.
       case frame of
         None \<Rightarrow> election_timed_out V
       | Some frame \<Rightarrow>
           eng_bind (dispatch_inbound V frame) (\<lambda>_.
           eng_bind (apply_committed_entries V) (\<lambda>_.
           eng_bind (eng_do reset_election_deadline) (\<lambda>_.
           eng_bind forced_campaign (\<lambda>forced.
             if forced then campaign_and_settle V
             else eng_do (\<lambda>e. if is_leader (en_node e) then reset_heartbeat_deadline e else e))))))"

definition run_follower_once :: "('s, 'm) engine_env \<Rightarrow> (unit, 's, 'm) eng" where
  "run_follower_once V e =
     eng_bind (drain_burst V 128 0) (\<lambda>processed.
     eng_bind (if processed > 0
        then eng_bind (apply_committed_entries V) (\<lambda>_. eng_do reset_election_deadline) else eng_return ()) (\<lambda>_.
     eng_bind forced_campaign (\<lambda>forced.
       if forced then campaign_and_settle V
       else if processed > 0 then eng_return ()
       else follower_idle V))) (e\<lparr>en_node := snd (evict_stalled_snapshots (en_now e) (en_node e))\<rparr>)"

section \<open>The loop\<close>

definition degrade_on_resource_exhaustion :: "('s, 'm) engine \<Rightarrow> ('s, 'm) engine" where
  "degrade_on_resource_exhaustion e =
    (let e = upd_node inc_resource_exhausted e in
     if is_leader (en_node e) then fail_commit_waiters (upd_node demote_to_follower_keep_term e) else e)"

definition run_once :: "('s, 'm) engine_env \<Rightarrow> (bool, 's, 'm) eng" where
  "run_once V e =
    (if en_stopped e then (Some (Inr False), e)
     else eng_match (if is_leader (en_node e) then run_leader_once V else run_follower_once V) (\<lambda>tick e.
       case tick of
         Inr _ \<Rightarrow> (Some (Inr (\<not> en_stopped e)), e)
       | Inl err \<Rightarrow>
           if is_resource_exhaustion err
           then let e = degrade_on_resource_exhaustion e in (Some (Inr (\<not> en_stopped e)), e)
           else (Some (Inl err), e)) e)"

text \<open>\<open>run\<close> for at most \<open>k\<close> ticks; the flag says that the loop has returned.\<close>

primrec run_ticks :: "('s, 'm) engine_env \<Rightarrow> nat \<Rightarrow> (bool, 's, 'm) eng" where
  "run_ticks V 0 = eng_return False"
| "run_ticks V (Suc k) = eng_bind (run_once V) (\<lambda>more. if more then run_ticks V k else eng_return True)"

definition engine_stop :: "('s, 'm) engine \<Rightarrow> ('s, 'm) engine" where
  "engine_stop e =
    (if en_stopped e then e
     else fail_commit_waiters (e\<lparr>en_stopped := True,
       en_mailbox := (en_mailbox e)\<lparr>mb_closed := True, mb_queue := []\<rparr>,
       en_registry := fold (\<lambda>p. notify_error (cp_slot_id p)) (mb_queue (en_mailbox e)) (en_registry e)\<rparr>))"

section \<open>Operations of the handle\<close>

definition raft_propose_once :: "('s, 'm) engine_env \<Rightarrow> bytes \<Rightarrow> (log_index, 's, 'm) eng" where
  "raft_propose_once V payload =
    (case reject_reserved_prefix payload of Inl err \<Rightarrow> eng_throw err | Inr _ \<Rightarrow> node_propose V payload)"

definition raft_propose_batch_once :: "('s, 'm) engine_env \<Rightarrow> bytes list \<Rightarrow> (log_index list, 's, 'm) eng" where
  "raft_propose_batch_once V payloads =
    (case find (\<lambda>r. \<not> is_ok r) (map reject_reserved_prefix payloads) of
       Some (Inl err) \<Rightarrow> eng_throw err
     | _ \<Rightarrow> node_propose_batch V payloads)"

definition raft_read_index :: "('s, 'm) engine_env \<Rightarrow> (log_index, 's, 'm) eng" where
  "raft_read_index V =
     eng_bind (node_read V) (\<lambda>idx.
     eng_bind (apply_committed_entries V) (\<lambda>_.
     eng_bind (eng_do drain_commit_waiters) (\<lambda>_ e.
       if n_last_applied (en_node e) < idx
       then (Some (Inl (Protocol ''read_index: local apply lagged behind the confirmed read point'')), e)
       else (Some (Inr idx), e))))"

definition raft_transfer_leadership :: "('s, 'm) engine_env \<Rightarrow> peer_id \<Rightarrow> (unit, 's, 'm) eng" where
  "raft_transfer_leadership V target =
     eng_bind (\<lambda>e. if is_leader (en_node e) then replicate_if_any V e else (Some (Inr ()), e)) (\<lambda>_.
       node_transfer V target)"

definition raft_campaign_once :: "('s, 'm) engine_env \<Rightarrow> (bool, 's, 'm) eng" where
  "raft_campaign_once V =
     eng_bind (node_campaign V) (\<lambda>elected.
     eng_bind (eng_do reset_election_deadline) (\<lambda>_.
     eng_bind (eng_do (if elected then reset_heartbeat_deadline else id)) (\<lambda>_. eng_return elected)))"

text \<open>\<open>max_by_key\<close> of the iterator: the last of the greatest elements.\<close>

definition max_by_key :: "('a \<Rightarrow> u64) \<Rightarrow> 'a list \<Rightarrow> 'a option" where
  "max_by_key key xs = fold (\<lambda>x best. case best of None \<Rightarrow> Some x | Some b \<Rightarrow> if key b \<le> key x then Some x else Some b) xs None"

definition most_caught_up :: "'s raft_node \<Rightarrow> peer_id list \<Rightarrow> peer_id option" where
  "most_caught_up n ps =
     max_by_key (\<lambda>p. case pm_get p (n_progress n) of Some q \<Rightarrow> match_index q | None \<Rightarrow> 0) (filter (\<lambda>p. p \<noteq> node_id n) ps)"

text \<open>The wait of a drain, one receive call per iteration, until this node is deposed or the window is over.\<close>

primrec handoff_loop :: "('s, 'm) engine_env \<Rightarrow> nat \<Rightarrow> nat \<Rightarrow> (unit, 's, 'm) eng" where
  "handoff_loop V 0 deadline = eng_return ()"
| "handoff_loop V (Suc k) deadline = (\<lambda>e.
    (if \<not> (is_leader (en_node e) \<and> en_now e < deadline) then (Some (Inr ()), e)
     else eng_bind recv_inbound (\<lambda>frame.
       eng_bind (case frame of
           None \<Rightarrow> eng_return ()
         | Some frame \<Rightarrow>
             eng_bind (dispatch_inbound V frame) (\<lambda>_.
             eng_bind (on_node V try_advance_commit_index) (\<lambda>_. eng_do drain_commit_waiters))) (\<lambda>_.
         handoff_loop V k deadline)) e))"

definition drain_leader_handoff :: "('s, 'm) engine_env \<Rightarrow> (unit, 's, 'm) eng" where
  "drain_leader_handoff V =
     eng_match (replicate_if_any V) (\<lambda>flushed e.
       if (case flushed of Inl err \<Rightarrow> is_fatal err | Inr _ \<Rightarrow> False) then (Some flushed, e)
       else case most_caught_up (en_node e) (peers (en_node e)) of
         None \<Rightarrow> (Some (Inr ()), e)
       | Some target \<Rightarrow>
           eng_match (raft_transfer_leadership V target) (\<lambda>r e.
             case r of
               Inl err \<Rightarrow> if is_fatal err then (Some (Inl err), e) else (Some (Inr ()), e)
             | Inr _ \<Rightarrow> handoff_loop V (length (en_waits e)) (en_now e + election_timeout (en_node e) * 2) e) e)"

definition engine_drain :: "('s, 'm) engine_env \<Rightarrow> (unit, 's, 'm) eng" where
  "engine_drain V e =
    (if en_stopped e then (Some (Inr ()), e)
     else let e = e\<lparr>en_mailbox := (en_mailbox e)\<lparr>mb_closed := True\<rparr>\<rparr> in
       eng_match (\<lambda>e. if is_leader (en_node e) then drain_leader_handoff V e else (Some (Inr ()), e)) (\<lambda>handoff.
         case handoff of
           Inl err \<Rightarrow> \<lambda>e. (Some (Inl err), engine_stop e)
         | Inr _ \<Rightarrow>
             eng_match (apply_committed_entries V) (\<lambda>applied e.
               case applied of
                 Inl err \<Rightarrow> (Some (Inl err), engine_stop e)
               | Inr _ \<Rightarrow> (Some (Inr ()), engine_stop (drain_commit_waiters e)))) e)"

section \<open>Membership changes\<close>

definition drive_config_change :: "('s, 'm) engine_env \<Rightarrow> peer_id list \<Rightarrow> peer_id list \<Rightarrow> (log_index, 's, 'm) eng" where
  "drive_config_change V old_peers new_peers e =
    (let joint = \<lparr>cc_phase = Joint, cc_old_peers = old_peers, cc_new_peers = new_peers\<rparr>;
         final_entry = \<lparr>cc_phase = Final, cc_old_peers = old_peers, cc_new_peers = new_peers\<rparr>;
         tip_before = fst (n_last_log (en_node e)) in
     eng_bind (on_node V (\<lambda>E. apply_config_change E joint)) (\<lambda>_.
     eng_bind (eng_match (node_propose V (config_change_encode joint)) (\<lambda>r e.
        case r of
          Inr idx \<Rightarrow> (Some (Inr idx), e)
        | Inl err \<Rightarrow> (Some (Inl err),
            if fst (n_last_log (en_node e)) = tip_before then upd_node (revert_joint_activation old_peers) e else e))) (\<lambda>_.
     eng_bind (node_propose V (config_change_encode final_entry)) (\<lambda>final_idx.
     eng_bind (\<lambda>e. if is_leader (en_node e) then raft_send_heartbeat_once V e else (Some (Inr ()), e)) (\<lambda>_.
       eng_return final_idx)))) e)"

definition propose_config_change :: "('s, 'm) engine_env \<Rightarrow> peer_id list \<Rightarrow> (log_index, 's, 'm) eng" where
  "propose_config_change V new_peers e =
    (let n = en_node e in
     if \<not> is_leader n then (Some (Inl (not_leader_error n)), e)
     else if n_joint_peers n \<noteq> None then (Some (Inl (InvalidConfig ''config change already in progress'')), e)
     else if new_peers = [] then (Some (Inl (InvalidConfig ''config-change new_peers must be non-empty'')), e)
     else if node_id n \<notin> set new_peers
     then (case most_caught_up n new_peers of
        None \<Rightarrow> (None, e)
      | Some target \<Rightarrow> eng_bind (raft_transfer_leadership V target) (\<lambda>_. eng_throw (NotLeader (Some target))) e)
     else if \<not> list_ex (\<lambda>p. p \<in> set (peers n)) new_peers
     then (Some (Inl (InvalidConfig ''config-change new_peers must overlap current peers'')), e)
     else drive_config_change V (peers n) new_peers e)"

definition propose_learner_change :: "('s, 'm) engine_env \<Rightarrow> peer_id \<Rightarrow> bool \<Rightarrow> (log_index, 's, 'm) eng" where
  "propose_learner_change V peer add e =
    (let n = en_node e in
     if \<not> is_leader n then (Some (Inl (not_leader_error n)), e)
     else if n_joint_peers n \<noteq> None then (Some (Inl (InvalidConfig ''config change already in progress'')), e)
     else if add \<and> peer \<in> set (peers n) then (Some (Inl (InvalidConfig ''add_learner: peer is already a voter'')), e)
     else if add \<and> peer \<in> set (learners n) then (Some (Inl (InvalidConfig ''add_learner: peer is already a learner'')), e)
     else if \<not> add \<and> peer \<notin> set (learners n) then (Some (Inl (InvalidConfig ''remove_learner: peer is not a learner'')), e)
     else let entry = \<lparr>cc_phase = (if add then AddLearner else RemoveLearner), cc_old_peers = [], cc_new_peers = [peer]\<rparr>;
              prev_learners = learners n; tip_before = fst (n_last_log n) in
       eng_bind (on_node V (\<lambda>E. apply_config_change E entry)) (\<lambda>_.
       eng_match (node_propose V (config_change_encode entry)) (\<lambda>r e.
         case r of
           Inr idx \<Rightarrow> (Some (Inr idx), e)
         | Inl err \<Rightarrow> (Some (Inl err),
             if fst (n_last_log (en_node e)) = tip_before then upd_node (revert_learner_activation prev_learners) e else e))) e)"

definition add_learner :: "('s, 'm) engine_env \<Rightarrow> peer_id \<Rightarrow> (log_index, 's, 'm) eng" where
  "add_learner V peer = propose_learner_change V peer True"

definition remove_learner :: "('s, 'm) engine_env \<Rightarrow> peer_id \<Rightarrow> (log_index, 's, 'm) eng" where
  "remove_learner V peer = propose_learner_change V peer False"

definition promote_learner :: "('s, 'm) engine_env \<Rightarrow> peer_id \<Rightarrow> (log_index, 's, 'm) eng" where
  "promote_learner V peer e =
    (let n = en_node e in
     if \<not> is_leader n then (Some (Inl (not_leader_error n)), e)
     else if peer \<notin> set (learners n) then (Some (Inl (InvalidConfig ''promote_learner: peer is not a learner'')), e)
     else case learner_caught_up peer n of
       Inl err \<Rightarrow> (Some (Inl err), e)
     | Inr False \<Rightarrow> (Some (Inl (InvalidConfig
         ''promote_learner: learner not caught up (match_index < commit_index); retry later'')), e)
     | Inr True \<Rightarrow> propose_config_change V (peers n @ [peer]) e)"

text \<open>Streaming the snapshot to every member that has fallen behind it; the result counts the transfers.\<close>

fun install_to_lagging :: "('s, 'm) engine_env \<Rightarrow> peer_id list \<Rightarrow> nat \<Rightarrow> (nat, 's, 'm) eng" where
  "install_to_lagging V [] sent = eng_return sent"
| "install_to_lagging V (p # ps) sent =
     eng_bind (node_snapshot V p) (\<lambda>done. install_to_lagging V ps (if done then sent + 1 else sent))"

definition install_snapshot_to_lagging_peers :: "('s, 'm) engine_env \<Rightarrow> (nat, 's, 'm) eng" where
  "install_snapshot_to_lagging_peers V e =
    (if \<not> is_leader (en_node e) then (Some (Inr 0), e)
     else install_to_lagging V (followers (en_node e)) 0 e)"

end
