(* ===== verification/Engine_Clients.thy ===== *)
theory Engine_Clients
  imports Raft_Engine
begin

text \<open>
  What the execution loop owes its writers.  Every slot that a writer waits on is
  held by the engine - in the mailbox, the batch being replicated or the list of
  commit waiters - so every write is answered at the latest when the engine stops.
  The locale \<open>client_side\<close> is what the loop relies on for such an invariant: it is
  preserved by the few operations that touch the tables of the clients, and does
  not depend on anything else; then every operation of the engine preserves it.
\<close>

section \<open>Preservation by engine operations\<close>

definition keeps :: "('e \<Rightarrow> bool) \<Rightarrow> ('a, 'e) io \<Rightarrow> bool" where
  "keeps P m \<longleftrightarrow> (\<forall>e. P e \<longrightarrow> P (snd (m e)))"

named_theorems keeps_rules

lemma keepsD: "keeps P m \<Longrightarrow> P e \<Longrightarrow> m e = (r, e') \<Longrightarrow> P e'"
  by (metis keeps_def snd_conv)

lemma keeps_return [keeps_rules]: "keeps P (eng_return x)" "keeps P (eng_throw err)"
  by (simp_all add: keeps_def eng_return_def eng_throw_def)

lemma keeps_bind [keeps_rules]:
  assumes "keeps P m" and "\<And>x. keeps P (k x)"
  shows "keeps P (eng_bind m k)"
  unfolding keeps_def
proof (intro allI impI)
  fix e assume "P e"
  obtain r e' where m: "m e = (r, e')" by (cases "m e")
  have P: "P e'" by (rule keepsD [OF assms(1) \<open>P e\<close> m])
  have k: "P (snd (k x e'))" for x using assms(2) [of x] P by (simp add: keeps_def)
  show "P (snd (eng_bind m k e))" by (simp add: eng_bind_def m P k split: option.split sum.split)
qed

lemma keeps_match [keeps_rules]:
  assumes "keeps P m" and "\<And>x. keeps P (k x)"
  shows "keeps P (eng_match m k)"
  unfolding keeps_def
proof (intro allI impI)
  fix e assume "P e"
  obtain r e' where m: "m e = (r, e')" by (cases "m e")
  have P: "P e'" by (rule keepsD [OF assms(1) \<open>P e\<close> m])
  have k: "P (snd (k x e'))" for x using assms(2) [of x] P by (simp add: keeps_def)
  show "P (snd (eng_match m k e))" by (simp add: eng_match_def m P k split: option.split)
qed

lemma keeps_do [keeps_rules]: "(\<And>e. P e \<Longrightarrow> P (f e)) \<Longrightarrow> keeps P (eng_do f)"
  by (simp add: keeps_def eng_do_def)

lemma keeps_if [keeps_rules]: "keeps P m \<Longrightarrow> keeps P m' \<Longrightarrow> keeps P (if b then m else m')"
  by simp

lemma keeps_option [keeps_rules]: "keeps P m \<Longrightarrow> (\<And>x. keeps P (k x)) \<Longrightarrow> keeps P (case y of None \<Rightarrow> m | Some x \<Rightarrow> k x)"
  by (simp split: option.split)

lemma keeps_sum [keeps_rules]: "(\<And>x. keeps P (f x)) \<Longrightarrow> (\<And>x. keeps P (g x)) \<Longrightarrow> keeps P (case y of Inl x \<Rightarrow> f x | Inr x \<Rightarrow> g x)"
  by (simp split: sum.split)

text \<open>An operation that looks at the engine before it chooses what to run.\<close>

lemma keeps_state: "(\<And>e. keeps P (m e)) \<Longrightarrow> keeps P (\<lambda>e. m e e)"
  by (simp add: keeps_def)

lemma keeps_done: "keeps P (\<lambda>e. (r e, e))"
  by (simp add: keeps_def)

section \<open>The loop's side of the interface\<close>

locale client_side =
  fixes P :: "('s, 'm) engine \<Rightarrow> bool" and V :: "('s, 'm) engine_env"
  assumes core [simp]: "P (e\<lparr>en_node := n\<rparr>) = P e" "P (e\<lparr>en_sm := sm\<rparr>) = P e" "P (e\<lparr>en_now := t\<rparr>) = P e"
      "P (e\<lparr>en_abuse := g\<rparr>) = P e" "P (e\<lparr>en_waits := ws\<rparr>) = P e" "P (e\<lparr>en_next_election := t\<rparr>) = P e"
      "P (e\<lparr>en_next_heartbeat := t\<rparr>) = P e" "P (e\<lparr>en_election_state := st\<rparr>) = P e"
    and client: "P e \<Longrightarrow> P (client_step c e)"
    and batch: "P e \<Longrightarrow> P (snd (replicate_if_any V (fill_batch k e)))"
    and batch_from: "P e \<Longrightarrow> try_recv (en_mailbox e) = (Some p, m) \<Longrightarrow>
      P (snd (replicate_if_any V (fill_batch k (push_proposal p (e\<lparr>en_mailbox := m\<rparr>)))))"
    and drained: "P e \<Longrightarrow> P (drain_commit_waiters e)"
    and failed: "P e \<Longrightarrow> P (fail_commit_waiters e)"
    and closed: "P e \<Longrightarrow> P (e\<lparr>en_mailbox := (en_mailbox e)\<lparr>mb_closed := True\<rparr>\<rparr>)"
    and stopped: "P e \<Longrightarrow> P (engine_stop e)"
begin

lemma upd [simp]: "P (upd_node f e) = P e"
  by (simp add: upd_node_def)

lemma deadlines [simp]: "P (reset_heartbeat_deadline e) = P e" "P (reset_election_deadline e) = P e"
proof -
  show "P (reset_heartbeat_deadline e) = P e" by (simp add: reset_heartbeat_deadline_def)
  obtain t st where "next_election_timeout (cfg_timing (n_config (en_node e))) (en_election_state e) = (t, st)" by fastforce
  then show "P (reset_election_deadline e) = P e" by (simp add: reset_election_deadline_def)
qed

lemma on_node_keeps: "keeps P (on_node V f)"
  by (auto simp: keeps_def on_node_def split: prod.splits)

lemma end_wait_keeps: "P e \<Longrightarrow> P (end_wait w e)"
proof -
  have "P e \<Longrightarrow> P (fold client_step cs e)" for cs
    by (induction cs arbitrary: e) (auto intro: client)
  then show "P e \<Longrightarrow> P (end_wait w e)" by (simp add: end_wait_def)
qed

lemma next_wait_keeps: "next_wait e = (w, e') \<Longrightarrow> P e \<Longrightarrow> P e'"
  by (auto simp: next_wait_def split: list.splits)

lemma await_keeps: "keeps P (await V f)"
  using end_wait_keeps next_wait_keeps
  by (auto simp: keeps_def await_def split: prod.splits)

lemma node_calls_keep:
  "keeps P (node_heartbeat V)" "keeps P (node_campaign V)" "keeps P (node_pre_vote V)" "keeps P (node_propose V p)"
  "keeps P (node_propose_batch V ps)" "keeps P (node_transfer V t)" "keeps P (node_read V)" "keeps P (node_snapshot V t)"
  by (simp_all add: node_heartbeat_def node_campaign_def node_pre_vote_def node_propose_def node_propose_batch_def
      node_transfer_def node_read_def node_snapshot_def await_keeps)

lemma transport_recv_keeps: "keeps P transport_recv"
  using end_wait_keeps next_wait_keeps by (auto simp: keeps_def transport_recv_def split: prod.splits)

lemmas rules = keeps_rules on_node_keeps node_calls_keep transport_recv_keeps

lemma recv_inbound_keeps: "keeps P recv_inbound"
  unfolding recv_inbound_def by (intro rules) simp_all

lemma dispatch_inbound_keeps: "keeps P (dispatch_inbound V frame)"
proof -
  let ?h = "\<lambda>m. eng_match (on_node V (\<lambda>E. handle_inbound E (ee_custom V) m)) (\<lambda>r. case r of
        Inl err \<Rightarrow> if is_fatal err then eng_throw err
          else eng_do (upd_node (inc_frames_dropped_nonfatal \<circ> (if is_resource_exhaustion err then inc_resource_exhausted else id)))
      | Inr _ \<Rightarrow> eng_return ())"
  have h: "keeps P (?h m)" for m by (intro rules) simp_all
  show ?thesis
    unfolding keeps_def dispatch_inbound_def Let_def
    using h by (auto simp: keeps_def split: prod.splits bool.splits sum.splits)
qed

lemma drain_burst_keeps: "keeps P (drain_burst V k processed)"
  by (induction k arbitrary: processed) (auto intro!: rules recv_inbound_keeps dispatch_inbound_keeps)

lemma apply_payload_keeps: "keeps P (apply_payload V idx payload)"
  unfolding apply_payload_def by (intro keeps_bind on_node_keeps) (auto simp: keeps_def split: prod.splits)

lemma apply_loop_keeps: "keeps P (apply_loop V k idx)"
  by (induction k arbitrary: idx) (auto intro!: rules apply_payload_keeps)

lemma apply_committed_entries_keeps: "keeps P (apply_committed_entries V)"
proof -
  have "keeps P (restore_from_snapshot V)"
    by (auto simp: keeps_def restore_from_snapshot_def split: prod.splits)
  moreover have "keeps P (\<lambda>e. apply_loop V (k e) (idx e) e)" for k idx
    using apply_loop_keeps by (simp add: keeps_def)
  moreover have "keeps P (\<lambda>e. on_node V (f e) e)" for f :: "('s, 'm) engine \<Rightarrow> _ \<Rightarrow> (snapshot_meta option, _) raft_op"
    by (simp add: keeps_def on_node_keeps [unfolded keeps_def, rule_format])
  ultimately show ?thesis
    unfolding apply_committed_entries_def Let_def by (intro keeps_bind keeps_return)
qed

lemma after_frames_keeps: "keeps P (after_frames V)"
  unfolding after_frames_def by (intro rules apply_committed_entries_keeps) (auto intro: drained failed)

lemma handle_one_frame_keeps: "keeps P (handle_one_frame V frame)"
  unfolding handle_one_frame_def by (intro rules dispatch_inbound_keeps after_frames_keeps)

lemma replicate_keeps: "keeps P (replicate_if_any V)"
  using batch [of _ 0] by (simp add: keeps_def)

lemma fill_keeps: "keeps P (\<lambda>e. if b then (Some (Inr ()), e) else replicate_if_any V (fill_batch (k e) e))"
  using batch by (simp add: keeps_def)

lemma leader_heartbeat_keeps: "keeps P (leader_heartbeat V)"
proof -
  have "keeps P (eng_bind (on_node V (\<lambda>E n. step_down E (node_term n) n)) (\<lambda>_. eng_do fail_commit_waiters))"
    by (intro rules) (auto intro: failed)
  moreover have "keeps P (eng_bind (node_heartbeat V) (\<lambda>_. eng_do reset_heartbeat_deadline))" by (intro rules) simp
  ultimately show ?thesis by (simp add: leader_heartbeat_def keeps_def)
qed

lemma leader_select_keeps: "keeps P (leader_select V)"
  unfolding keeps_def
proof (intro allI impI)
  fix e assume "P e"
  obtain w e' where w: "next_wait e = (w, e')" by fastforce
  let ?e = "end_wait w e'"
  have P: "P ?e" using next_wait_keeps [OF w \<open>P e\<close>] end_wait_keeps by blast
  show "P (snd (leader_select V e))"
  proof (cases "w_events w")
    case Nil
    then show ?thesis using w P batch_from [OF P]
      by (auto simp: leader_select_def Let_def simp del: try_recv.simps split: prod.splits option.splits)
  next
    case (Cons ev evs)
    then show ?thesis using w P keepsD [OF handle_one_frame_keeps P]
      by (auto simp: leader_select_def Let_def split: sum.splits) (metis prod.collapse)
  qed
qed

lemma leader_idle_keeps: "keeps P (leader_idle V transferring)"
proof -
  have "keeps P (eng_bind recv_inbound (handle_one_frame V))" by (intro rules recv_inbound_keeps handle_one_frame_keeps)
  then show ?thesis using leader_heartbeat_keeps leader_select_keeps by (simp add: leader_idle_def keeps_def)
qed

lemma run_leader_once_keeps: "keeps P (run_leader_once V)"
proof -
  have "keeps P (eng_bind (\<lambda>e. if transferring then (Some (Inr ()), e) else replicate_if_any V (fill_batch (batch_room e) e)) (\<lambda>_.
      eng_bind (drain_burst V 128 0) (\<lambda>processed. if processed > 0 then after_frames V else leader_idle V transferring)))"
    for transferring
    by (intro keeps_bind keeps_if fill_keeps drain_burst_keeps after_frames_keeps leader_idle_keeps)
  then show ?thesis by (auto simp: run_leader_once_def keeps_def Let_def split: prod.splits)
qed

lemma raft_send_heartbeat_once_keeps: "keeps P (raft_send_heartbeat_once V)"
  unfolding raft_send_heartbeat_once_def by (intro keeps_match node_calls_keep) (simp add: keeps_def)

lemma finalize_joint_keeps: "keeps P (finalize_joint_if_inherited V)"
proof -
  have "keeps P (eng_match (node_propose V p) (\<lambda>r e. case r of
      Inr _ \<Rightarrow> if is_leader (en_node e) then raft_send_heartbeat_once V e else (Some (Inr ()), e)
    | Inl err \<Rightarrow> if is_fatal err then (Some (Inl err), e) else (Some (Inr ()), e)))" for p
    using raft_send_heartbeat_once_keeps
    by (intro keeps_match node_calls_keep) (auto simp: keeps_def split: sum.splits)
  then show ?thesis by (auto simp: finalize_joint_if_inherited_def keeps_def split: option.splits)
qed

lemma campaign_and_settle_keeps: "keeps P (campaign_and_settle V)"
  unfolding campaign_and_settle_def by (intro rules finalize_joint_keeps) simp_all

lemma forced_campaign_keeps: "keeps P forced_campaign"
  by (auto simp: keeps_def forced_campaign_def split: prod.splits)

lemma election_timed_out_keeps: "keeps P (election_timed_out V)"
proof -
  have "keeps P (if b then campaign_and_settle V else eng_do reset_election_deadline)" for b
    by (intro rules campaign_and_settle_keeps) simp
  then show ?thesis
    unfolding election_timed_out_def
    by (intro keeps_match node_calls_keep) (auto intro!: rules campaign_and_settle_keeps split: bool.splits)
qed

lemma run_follower_once_keeps: "keeps P (run_follower_once V)"
proof -
  have "keeps P (follower_idle V)"
    unfolding follower_idle_def
    by (intro rules recv_inbound_keeps election_timed_out_keeps dispatch_inbound_keeps apply_committed_entries_keeps
        forced_campaign_keeps campaign_and_settle_keeps) auto
  then have "keeps P (eng_bind (drain_burst V 128 0) (\<lambda>processed.
     eng_bind (if processed > 0
        then eng_bind (apply_committed_entries V) (\<lambda>_. eng_do reset_election_deadline) else eng_return ()) (\<lambda>_.
     eng_bind forced_campaign (\<lambda>forced.
       if forced then campaign_and_settle V else if processed > 0 then eng_return () else follower_idle V))))"
    by (intro rules drain_burst_keeps apply_committed_entries_keeps forced_campaign_keeps campaign_and_settle_keeps) simp_all
  then show ?thesis by (simp add: run_follower_once_def keeps_def)
qed

lemma run_once_keeps: "keeps P (run_once V)"
proof -
  have "P (degrade_on_resource_exhaustion e)" if "P e" for e
    using that by (simp add: degrade_on_resource_exhaustion_def Let_def failed)
  then have "keeps P (eng_match (if b then run_leader_once V else run_follower_once V) (\<lambda>tick e. case tick of
      Inr _ \<Rightarrow> (Some (Inr (\<not> en_stopped e)), e)
    | Inl err \<Rightarrow> if is_resource_exhaustion err
        then let e = degrade_on_resource_exhaustion e in (Some (Inr (\<not> en_stopped e)), e) else (Some (Inl err), e)))" for b
    by (intro keeps_match keeps_if run_leader_once_keeps run_follower_once_keeps)
      (auto simp: keeps_def Let_def split: sum.splits)
  then show ?thesis by (simp add: run_once_def keeps_def)
qed

lemma raft_transfer_leadership_keeps: "keeps P (raft_transfer_leadership V target)"
proof -
  have "keeps P (\<lambda>e. if is_leader (en_node e) then replicate_if_any V e else (Some (Inr ()), e))"
    using replicate_keeps by (simp add: keeps_def)
  then show ?thesis unfolding raft_transfer_leadership_def by (intro keeps_bind node_calls_keep)
qed

lemma handoff_loop_keeps: "keeps P (handoff_loop V k deadline)"
proof (induction k)
  case (Suc k)
  have "keeps P (eng_bind recv_inbound (\<lambda>frame. eng_bind (case frame of None \<Rightarrow> eng_return ()
      | Some frame \<Rightarrow> eng_bind (dispatch_inbound V frame) (\<lambda>_.
          eng_bind (on_node V try_advance_commit_index) (\<lambda>_. eng_do drain_commit_waiters))) (\<lambda>_. handoff_loop V k deadline)))"
    by (intro rules recv_inbound_keeps dispatch_inbound_keeps Suc.IH drained)
  then show ?case by (simp add: keeps_def)
qed (simp add: keeps_return)

lemma engine_drain_keeps: "keeps P (engine_drain V)"
proof -
  have transfer: "keeps P (eng_match (raft_transfer_leadership V target) (\<lambda>r e. case r of
        Inl err \<Rightarrow> if is_fatal err then (Some (Inl err), e) else (Some (Inr ()), e)
      | Inr _ \<Rightarrow> handoff_loop V (length (en_waits e)) (en_now e + election_timeout (en_node e) * 2) e))" for target
    using handoff_loop_keeps
    by (intro keeps_match raft_transfer_leadership_keeps) (auto simp: keeps_def split: sum.splits)
  have "keeps P (drain_leader_handoff V)"
    unfolding drain_leader_handoff_def
    using transfer by (intro keeps_match replicate_keeps) (auto simp: keeps_def split: sum.splits option.splits)
  then have lead: "keeps P (\<lambda>e. if is_leader (en_node e) then drain_leader_handoff V e else (Some (Inr ()), e))"
    by (simp add: keeps_def)
  have settle: "keeps P (eng_match (apply_committed_entries V) (\<lambda>applied e. case applied of
        Inl err \<Rightarrow> (Some (Inl err), engine_stop e)
      | Inr _ \<Rightarrow> (Some (Inr ()), engine_stop (drain_commit_waiters e))))"
    by (intro keeps_match apply_committed_entries_keeps) (auto simp: keeps_def stopped drained split: sum.splits)
  have halt: "keeps P (\<lambda>e. (Some (Inl err), engine_stop e))" for err by (simp add: keeps_def stopped)
  have "keeps P (eng_match (\<lambda>e. if is_leader (en_node e) then drain_leader_handoff V e else (Some (Inr ()), e))
      (\<lambda>handoff. case handoff of Inl err \<Rightarrow> \<lambda>e. (Some (Inl err), engine_stop e)
        | Inr _ \<Rightarrow> eng_match (apply_committed_entries V) (\<lambda>applied e. case applied of
              Inl err \<Rightarrow> (Some (Inl err), engine_stop e)
            | Inr _ \<Rightarrow> (Some (Inr ()), engine_stop (drain_commit_waiters e)))))"
    by (rule keeps_match [OF lead], rule keeps_sum, rule halt, rule settle)
  then show ?thesis by (simp add: engine_drain_def keeps_def closed Let_def)
qed

lemma proposals_keep: "keeps P (raft_propose_once V payload)" "keeps P (raft_propose_batch_once V payloads)"
  unfolding raft_propose_once_def raft_propose_batch_once_def
  by (auto intro!: rules split: option.splits sum.splits)

lemma raft_read_index_keeps: "keeps P (raft_read_index V)"
  unfolding raft_read_index_def
  by (intro keeps_bind node_calls_keep apply_committed_entries_keeps keeps_do drained) (auto simp: keeps_def)

lemma raft_campaign_once_keeps: "keeps P (raft_campaign_once V)"
  unfolding raft_campaign_once_def by (intro rules) (auto simp: split: if_splits)

lemma propose_or_revert:
  "keeps P (eng_match (node_propose V p) (\<lambda>r e. case r of Inr idx \<Rightarrow> (Some (Inr idx), e)
     | Inl err \<Rightarrow> (Some (Inl err), if fst (n_last_log (en_node e)) = tip then upd_node f e else e)))"
  by (intro keeps_match node_calls_keep) (auto simp: keeps_def split: sum.splits)

lemma propose_config_change_keeps: "keeps P (propose_config_change V new_peers)"
proof -
  have beat: "keeps P (\<lambda>e. if is_leader (en_node e) then raft_send_heartbeat_once V e else (Some (Inr ()), e))"
    using raft_send_heartbeat_once_keeps by (simp add: keeps_def)
  have "keeps P (eng_bind (on_node V f) (\<lambda>_. eng_bind (eng_match (node_propose V p) (\<lambda>r e. case r of
        Inr idx \<Rightarrow> (Some (Inr idx), e)
      | Inl err \<Rightarrow> (Some (Inl err), if fst (n_last_log (en_node e)) = tip then upd_node g e else e))) (\<lambda>_.
      eng_bind (node_propose V q) (\<lambda>i. eng_bind
        (\<lambda>e. if is_leader (en_node e) then raft_send_heartbeat_once V e else (Some (Inr ()), e)) (\<lambda>_. eng_return i)))))"
    for f :: "_ \<Rightarrow> (unit, _) raft_op" and p q tip g
    by (intro keeps_bind on_node_keeps propose_or_revert node_calls_keep beat keeps_return)
  then have "P (snd (drive_config_change V old new_peers e))" if "P e" for old e
    using that by (simp add: drive_config_change_def Let_def keeps_def)
  moreover have "keeps P (eng_bind (raft_transfer_leadership V t) (\<lambda>_. eng_throw err :: (log_index, 's, 'm) eng))" for t err
    by (intro rules raft_transfer_leadership_keeps)
  ultimately show ?thesis by (auto simp: propose_config_change_def keeps_def Let_def split: option.splits)
qed

lemma learner_changes_keep: "keeps P (propose_learner_change V peer add)" "keeps P (promote_learner V peer)"
proof -
  have "keeps P (eng_bind (on_node V f) (\<lambda>_. eng_match (node_propose V p) (\<lambda>r e. case r of Inr idx \<Rightarrow> (Some (Inr idx), e)
     | Inl err \<Rightarrow> (Some (Inl err), if fst (n_last_log (en_node e)) = tip then upd_node g e else e))))"
    for f :: "_ \<Rightarrow> (unit, _) raft_op" and p tip g
    by (intro keeps_bind on_node_keeps propose_or_revert)
  then show "keeps P (propose_learner_change V peer add)" by (simp add: propose_learner_change_def keeps_def Let_def)
  show "keeps P (promote_learner V peer)"
    using propose_config_change_keeps
    by (auto simp: promote_learner_def keeps_def Let_def split: sum.splits bool.splits)
qed

lemma install_snapshots_keeps: "keeps P (install_snapshot_to_lagging_peers V)"
proof -
  have "keeps P (install_to_lagging V ps sent)" for ps sent
    by (induction ps arbitrary: sent) (auto intro!: rules)
  then show ?thesis by (simp add: install_snapshot_to_lagging_peers_def keeps_def)
qed

end

section \<open>Which slots are waited on\<close>

lemma waiting_stored:
  assumes "slot_state (f (arena r ! slot_index sid)) \<noteq> SLOT_PENDING"
  shows "waiting s (if is_current sid r then on_slot (slot_index sid) f r else r) \<longleftrightarrow> waiting s r \<and> s \<noteq> sid"
  unfolding slot_id_eq_iff [of s sid] using assms
  by (cases "slot_index s = slot_index sid"; cases "slot_index sid < length (arena r)")
    (auto simp: waiting_def is_current_def)

lemma waiting_notify [simp]:
  "waiting s (notify_error sid r) \<longleftrightarrow> waiting s r \<and> s \<noteq> sid"
  "waiting s (notify_committed sid i r) \<longleftrightarrow> waiting s r \<and> s \<noteq> sid"
  unfolding notify_error_def notify_committed_def
  by (rule waiting_stored; simp add: store_error_def store_committed_def wake_def)+

lemma waiting_notify_all [simp]:
  "waiting s (fold (\<lambda>x. notify_error (f x)) xs r) \<longleftrightarrow> waiting s r \<and> s \<notin> f ` set xs"
  "waiting s (fold (\<lambda>x. notify_committed (f x) (g x)) xs r) \<longleftrightarrow> waiting s r \<and> s \<notin> f ` set xs"
  by (induction xs arbitrary: r) auto

lemma waiting_release: "waiting s (release sid r) \<Longrightarrow> waiting s r \<and> slot_index s \<noteq> slot_index sid"
  by (cases "slot_index s = slot_index sid") (auto simp: waiting_def is_current_def release_def split: if_splits)

lemma arena_lengths [simp]:
  "length (arena (notify_error sid r)) = length (arena r)"
  "length (arena (notify_committed sid i r)) = length (arena r)"
  "length (arena (release sid r)) = length (arena r)"
  by (simp_all add: notify_error_def notify_committed_def release_def)

lemma arena_lengths_all [simp]:
  "length (arena (fold (\<lambda>x. notify_error (f x)) xs r)) = length (arena r)"
  "length (arena (fold (\<lambda>x. notify_committed (f x) (g x)) xs r)) = length (arena r)"
  by (induction xs arbitrary: r) auto

lemma waiting_lease:
  assumes "lease r = (x, r')" and "length (arena r) \<le> 2 ^ 32"
  shows "length (arena r') = length (arena r) \<and> (waiting s r' \<longrightarrow> waiting s r \<or> x = Some s)"
  using assms(1)
proof (rule lease_cases)
  fix i
  assume i: "i < length (arena r)" and x: "x = Some (slot_id_new (word_of_nat i) (ucast (slot_generation (arena r ! i) + 1)))"
    and r': "arena r' = (arena r)[i := (arena r ! i)\<lparr>slot_state := SLOT_PENDING, slot_generation := slot_generation (arena r ! i) + 1\<rparr>]"
  have "unat (word_of_nat i :: u32) = i" using i assms(2) by (simp add: unsigned_of_nat take_bit_nat_eq_self_iff)
  then show ?thesis using i x r'
    by (cases "slot_index s = i") (auto simp: waiting_def is_current_def slot_id_eq_iff [of _ s])
qed (auto simp: waiting_def is_current_def)

section \<open>Every waiting writer is held\<close>

definition held :: "('s, 'm) engine \<Rightarrow> slot_id set" where
  "held e = cp_slot_id ` set (mb_queue (en_mailbox e)) \<union> set (en_pending_slots e) \<union> cw_slot_id ` set (en_commit_waiters e)"

text \<open>
  The tables of the clients: a slot that is waited on is held, the mailbox is within
  its capacity and carries only payloads that passed the check, the batch and its
  slots have the same length, and a stopped engine accepts and holds nothing.
\<close>

definition tables_ok :: "('s, 'm) engine \<Rightarrow> bool" where
  "tables_ok e \<longleftrightarrow> length (arena (en_registry e)) \<le> 2 ^ 32 \<and>
     (\<forall>sid. waiting sid (en_registry e) \<longrightarrow> sid \<in> held e) \<and>
     length (mb_queue (en_mailbox e)) \<le> mb_capacity (en_mailbox e) \<and>
     (\<forall>p\<in>set (mb_queue (en_mailbox e)). reject_reserved_prefix (cp_payload p) = Inr ()) \<and>
     (\<forall>p\<in>set (en_pending_batch e). reject_reserved_prefix p = Inr ()) \<and>
     length (en_pending_slots e) = length (en_pending_batch e) \<and>
     (en_stopped e \<longrightarrow> mb_closed (en_mailbox e) \<and> mb_queue (en_mailbox e) = [] \<and> en_commit_waiters e = [] \<and> en_pending_slots e = [])"

definition clients_ok :: "('s, 'm) engine \<Rightarrow> bool" where
  "clients_ok e \<longleftrightarrow> tables_ok e \<and> en_pending_slots e = []"

lemma tables_ok_released:
  assumes "tables_ok e" and "length (arena r) = length (arena (en_registry e))"
    and "\<And>s. waiting s r \<Longrightarrow> waiting s (en_registry e)"
  shows "tables_ok (e\<lparr>en_registry := r\<rparr>)"
  using assms by (auto simp: tables_ok_def held_def)

lemma tables_ok_submitted:
  assumes "tables_ok e" and "length (arena r) = length (arena (en_registry e))"
    and "\<And>s. waiting s r \<Longrightarrow> waiting s (en_registry e) \<or> cp_slot_id p = s"
    and "try_send p (en_mailbox e) = (Inr (), m)" and "reject_reserved_prefix (cp_payload p) = Inr ()"
  shows "tables_ok (e\<lparr>en_registry := r, en_mailbox := m\<rparr>)"
proof -
  have m: "\<not> mb_closed (en_mailbox e)" "length (mb_queue (en_mailbox e)) < mb_capacity (en_mailbox e)"
      "m = (en_mailbox e)\<lparr>mb_queue := mb_queue (en_mailbox e) @ [p]\<rparr>"
    using assms(4) by (auto simp: try_send_def split: if_splits)
  then show ?thesis using assms(1,2,3,5) by (auto simp: tables_ok_def held_def)
qed

lemma client_step_ok: "tables_ok e \<Longrightarrow> tables_ok (client_step c e) \<and> en_pending_slots (client_step c e) = en_pending_slots e"
proof (cases c)
  case (Write payload)
  assume ok: "tables_ok e"
  obtain y r1 where l: "lease (en_registry e) = (y, r1)" by fastforce
  have le: "length (arena r1) = length (arena (en_registry e))"
      "\<And>s. waiting s r1 \<Longrightarrow> waiting s (en_registry e) \<or> y = Some s"
    using waiting_lease [OF l] ok by (auto simp: tables_ok_def)
  show ?thesis
  proof (cases "reject_reserved_prefix payload")
    case (Inl err)
    then show ?thesis using ok Write by (simp add: write_bytes_def)
  next
    case (Inr u)
    show ?thesis
    proof (cases y)
      case None
      then show ?thesis using Inr Write l ok le tables_ok_released [OF ok le(1)] by (simp add: write_bytes_def)
    next
      case (Some sid)
      let ?p = "\<lparr>cp_payload = payload, cp_slot_id = sid\<rparr>"
      obtain z m where s: "try_send ?p (en_mailbox e) = (z, m)" by fastforce
      show ?thesis
      proof (cases z)
        case (Inl err)
        then have "m = en_mailbox e" using s by (auto simp: try_send_def split: if_splits)
        moreover have "waiting s (en_registry e)" if "waiting s (release sid r1)" for s
          using waiting_release [OF that] le(2) Some by fastforce
        ultimately show ?thesis using Inr Inl Some Write l s tables_ok_released [OF ok, of "release sid r1"] le(1)
          by (simp add: write_bytes_def)
      next
        case (Inr v)
        then show ?thesis using \<open>reject_reserved_prefix payload = Inr u\<close> Some Write l s
            tables_ok_submitted [OF ok le(1), of ?p m] le(2) by (simp add: write_bytes_def)
      qed
    qed
  qed
next
  case (Cancel sid)
  assume "tables_ok e"
  then show ?thesis using Cancel waiting_release tables_ok_released [of e "release sid (en_registry e)"] by simp
qed

lemma new_waiters_slots [simp]: "cw_slot_id ` set (new_waiters idx sids) = set sids"
  by (induction sids arbitrary: idx) auto

lemma push_proposal_ok:
  "tables_ok e \<Longrightarrow> try_recv (en_mailbox e) = (Some p, m) \<Longrightarrow> tables_ok (push_proposal p (e\<lparr>en_mailbox := m\<rparr>))"
  by (cases "mb_queue (en_mailbox e)") (auto simp: tables_ok_def push_proposal_def held_def)

lemma fill_batch_ok: "tables_ok e \<Longrightarrow> tables_ok (fill_batch k e)"
  by (induction k arbitrary: e)
    (auto simp del: try_recv.simps split: prod.splits option.splits intro: push_proposal_ok)

lemma replicate_ok:
  assumes "tables_ok e"
  shows "clients_ok (snd (replicate_if_any V e))"
proof (cases "en_pending_batch e = []")
  case True
  then show ?thesis using assms by (auto simp: replicate_if_any_def clients_ok_def tables_ok_def)
next
  case False
  obtain r n where r: "replicate_batch_async ((ee_node V)\<lparr>e_now := en_now e\<rparr>) (ee_tuning V) (en_pending_batch e) (en_node e) = (r, n)"
    by fastforce
  have "en_pending_slots e \<noteq> []" using False assms by (auto simp: tables_ok_def)
  then show ?thesis using False assms waiting_notify_all(1) [of _ "\<lambda>x. x" "en_pending_slots e" "en_registry e"]
      arena_lengths_all(1) [of "\<lambda>x. x" "en_pending_slots e" "en_registry e"]
    by (auto simp: replicate_if_any_def replicate_pending_def eng_match_def on_node_def r clients_ok_def tables_ok_def held_def
        image_Un split: sum.splits prod.splits)
qed

lemma drain_partial_ok:
  assumes "drain_partial commit i ws r = (ws', r')"
  shows "length (arena r') = length (arena r) \<and>
    (\<forall>s. waiting s r' \<longrightarrow> waiting s r \<and> (s \<in> cw_slot_id ` set ws \<longrightarrow> s \<in> cw_slot_id ` set ws'))"
  using assms
proof (induction commit i ws r rule: drain_partial.induct)
  case (1 commit i ws r)
  show ?case
  proof (cases "i < length ws \<and> cw_index (ws ! i) \<le> commit")
    case True
    have "set (take i ws @ ws ! i # drop (Suc i) ws) = insert (ws ! i) (set (take i ws @ drop (Suc i) ws))" by auto
    then have ws: "set ws = insert (ws ! i) (set (swap_remove i ws))"
      using mset_eq_setD [OF mset_swap_remove [of i ws]] id_take_nth_drop [of i ws] True by simp
    have step: "drain_partial commit i (swap_remove i ws) (resolve_committed (ws ! i) r) = (ws', r')"
      using 1(3) True by (simp add: drain_partial.simps [of commit i ws])
    have "i < length ws" "cw_index (ws ! i) \<le> commit" using True by auto
    from 1(1) [OF this step] show ?thesis by (simp add: ws resolve_committed_def)
  next
    case False
    show ?thesis
    proof (cases "i < length ws")
      case True
      with False have "\<not> cw_index (ws ! i) \<le> commit" by simp
      moreover from this True have "drain_partial commit (i + 1) ws r = (ws', r')"
        using 1(3) by (simp add: drain_partial.simps [of commit i ws])
      ultimately show ?thesis using 1(2) [OF True] by blast
    qed (use 1(3) in \<open>simp add: drain_partial.simps [of commit i ws]\<close>)
  qed
qed

lemma drain_commit_waiters_ok:
  assumes "tables_ok e"
  shows "tables_ok (drain_commit_waiters e)" and "en_pending_slots (drain_commit_waiters e) = en_pending_slots e"
proof -
  obtain ws r where p: "drain_partial (commit_index (en_node e)) 0 (en_commit_waiters e) (en_registry e) = (ws, r)" by fastforce
  have "tables_ok (e\<lparr>en_registry := r, en_commit_waiters := ws\<rparr>)" if "en_commit_waiters e \<noteq> []"
    using assms drain_partial_ok [OF p] that by (auto simp: tables_ok_def held_def)
  moreover have "tables_ok (e\<lparr>en_registry := fold resolve_committed (en_commit_waiters e) (en_registry e), en_commit_waiters := []\<rparr>)"
    using assms by (auto simp: tables_ok_def held_def resolve_committed_def [abs_def])
  ultimately show "tables_ok (drain_commit_waiters e)"
    using assms p by (simp add: drain_commit_waiters_def Let_def)
  show "en_pending_slots (drain_commit_waiters e) = en_pending_slots e"
    using p by (simp add: drain_commit_waiters_def Let_def)
qed

lemma fail_commit_waiters_ok: "tables_ok e \<Longrightarrow> tables_ok (fail_commit_waiters e)"
  by (auto simp: tables_ok_def held_def fail_commit_waiters_def)

lemma engine_stop_ok: "clients_ok e \<Longrightarrow> clients_ok (engine_stop e)"
  by (auto simp: clients_ok_def tables_ok_def held_def engine_stop_def fail_commit_waiters_def)

lemma clients_ok_core:
  "clients_ok (e\<lparr>en_node := n\<rparr>) = clients_ok e" "clients_ok (e\<lparr>en_sm := sm\<rparr>) = clients_ok e"
  "clients_ok (e\<lparr>en_now := t\<rparr>) = clients_ok e" "clients_ok (e\<lparr>en_abuse := g\<rparr>) = clients_ok e"
  "clients_ok (e\<lparr>en_waits := ws\<rparr>) = clients_ok e" "clients_ok (e\<lparr>en_next_election := t\<rparr>) = clients_ok e"
  "clients_ok (e\<lparr>en_next_heartbeat := t\<rparr>) = clients_ok e" "clients_ok (e\<lparr>en_election_state := st\<rparr>) = clients_ok e"
  by (simp_all add: clients_ok_def tables_ok_def held_def)

lemma clients_ok_tables:
  "clients_ok e \<Longrightarrow> clients_ok (client_step c e)" "clients_ok e \<Longrightarrow> clients_ok (drain_commit_waiters e)"
  "clients_ok e \<Longrightarrow> clients_ok (fail_commit_waiters e)"
  by (simp_all add: clients_ok_def client_step_ok drain_commit_waiters_ok fail_commit_waiters_ok)
    (simp add: fail_commit_waiters_def)

lemma clients_ok_closed: "clients_ok e \<Longrightarrow> clients_ok (e\<lparr>en_mailbox := (en_mailbox e)\<lparr>mb_closed := True\<rparr>\<rparr>)"
  by (auto simp: clients_ok_def tables_ok_def held_def)

interpretation writers: client_side clients_ok V for V :: "('s, 'm) engine_env"
proof
  fix e :: "('s, 'm) engine" and p m k
  show "clients_ok e \<Longrightarrow> clients_ok (snd (replicate_if_any V (fill_batch k e)))"
    by (intro replicate_ok fill_batch_ok) (simp add: clients_ok_def)
  show "clients_ok e \<Longrightarrow> try_recv (en_mailbox e) = (Some p, m) \<Longrightarrow>
      clients_ok (snd (replicate_if_any V (fill_batch k (push_proposal p (e\<lparr>en_mailbox := m\<rparr>)))))"
    by (intro replicate_ok fill_batch_ok push_proposal_ok) (simp_all add: clients_ok_def)
qed (fact clients_ok_core clients_ok_tables clients_ok_closed engine_stop_ok)+

section \<open>The life of an engine\<close>

text \<open>
  Any sequence of ticks, client calls and operations of the handle, with any answers
  of the transport; the clock and the answers to come may change between them.
\<close>

inductive engine_life :: "('s, 'm) engine_env \<Rightarrow> ('s, 'm) engine \<Rightarrow> bool" for V where
  start: "engine_life V (engine_new now n sm waits)"
| tick: "engine_life V e \<Longrightarrow> engine_life V (snd (run_once V e))"
| time: "engine_life V e \<Longrightarrow> engine_life V (e\<lparr>en_now := now, en_waits := waits\<rparr>)"
| client: "engine_life V e \<Longrightarrow> engine_life V (client_step c e)"
| propose: "engine_life V e \<Longrightarrow> engine_life V (snd (raft_propose_once V payload e))"
| propose_batch: "engine_life V e \<Longrightarrow> engine_life V (snd (raft_propose_batch_once V payloads e))"
| read: "engine_life V e \<Longrightarrow> engine_life V (snd (raft_read_index V e))"
| transfer: "engine_life V e \<Longrightarrow> engine_life V (snd (raft_transfer_leadership V target e))"
| campaign: "engine_life V e \<Longrightarrow> engine_life V (snd (raft_campaign_once V e))"
| heartbeat: "engine_life V e \<Longrightarrow> engine_life V (snd (raft_send_heartbeat_once V e))"
| reconfigure: "engine_life V e \<Longrightarrow> engine_life V (snd (propose_config_change V new_peers e))"
| learner: "engine_life V e \<Longrightarrow> engine_life V (snd (propose_learner_change V peer add e))"
| promote: "engine_life V e \<Longrightarrow> engine_life V (snd (promote_learner V peer e))"
| install: "engine_life V e \<Longrightarrow> engine_life V (snd (install_snapshot_to_lagging_peers V e))"
| drain: "engine_life V e \<Longrightarrow> engine_life V (snd (engine_drain V e))"
| stop: "engine_life V e \<Longrightarrow> engine_life V (engine_stop e)"

lemma engine_new_clients_ok: "clients_ok (engine_new now n sm waits)"
proof -
  have "\<not> waiting sid (slot_registry_new 65536)" for sid by (auto simp: waiting_def slot_registry_new_def)
  moreover have "length (arena (slot_registry_new 65536)) \<le> 2 ^ 32" by (simp add: slot_registry_new_def)
  ultimately show ?thesis
    by (simp add: engine_new_def clients_ok_def tables_ok_def held_def reset_heartbeat_deadline_def
        reset_election_deadline_def split: prod.split)
qed

lemma engine_life_clients_ok: "engine_life V e \<Longrightarrow> clients_ok e"
proof (induction rule: engine_life.induct)
  case (time e now waits)
  then show ?case by (simp add: clients_ok_core)
qed (auto intro: engine_new_clients_ok clients_ok_tables engine_stop_ok
    writers.run_once_keeps [unfolded keeps_def, rule_format]
    writers.proposals_keep [unfolded keeps_def, rule_format] writers.raft_read_index_keeps [unfolded keeps_def, rule_format]
    writers.raft_transfer_leadership_keeps [unfolded keeps_def, rule_format]
    writers.raft_campaign_once_keeps [unfolded keeps_def, rule_format]
    writers.raft_send_heartbeat_once_keeps [unfolded keeps_def, rule_format]
    writers.propose_config_change_keeps [unfolded keeps_def, rule_format]
    writers.learner_changes_keep [unfolded keeps_def, rule_format]
    writers.install_snapshots_keeps [unfolded keeps_def, rule_format] writers.engine_drain_keeps [unfolded keeps_def, rule_format])

lemma engine_drain_stops:
  assumes "engine_drain V e = (Some r, e')"
  shows "en_stopped e'"
proof -
  have stop: "en_stopped (engine_stop e)" for e :: "('a, 'b) engine"
    by (simp add: engine_stop_def fail_commit_waiters_def)
  show ?thesis
    using assms stop
    by (auto simp: engine_drain_def eng_match_def Let_def split: if_splits prod.splits option.splits sum.splits)
qed

text \<open>
  (C12) No writer is left waiting.  Through any life of an engine - ticks, client
  calls, proposals, reads, membership changes, transfers, with any answers of the
  transport - every slot that a writer waits on is queued in the mailbox or held as
  a commit waiter, so it will be answered; and once the engine is stopped, or has
  been drained without a panic, nobody waits any more.  The mailbox never exceeds
  its capacity.
\<close>

theorem every_writer_is_answered:
  assumes "engine_life V e"
  shows "(\<forall>sid. waiting sid (en_registry e) \<longrightarrow>
      sid \<in> cp_slot_id ` set (mb_queue (en_mailbox e)) \<union> cw_slot_id ` set (en_commit_waiters e)) \<and>
    length (mb_queue (en_mailbox e)) \<le> mb_capacity (en_mailbox e) \<and>
    (\<forall>sid. \<not> waiting sid (en_registry (engine_stop e))) \<and>
    (fst (engine_drain V e) = None \<or> (\<forall>sid. \<not> waiting sid (en_registry (snd (engine_drain V e)))))"
proof -
  have ok: "clients_ok e" by (rule engine_life_clients_ok [OF assms])
  have halted: "\<not> waiting sid (en_registry e)" if "clients_ok e" "en_stopped e" for sid and e :: "('a, 'b) engine"
    using that by (auto simp: clients_ok_def tables_ok_def held_def)
  have "\<forall>sid. \<not> waiting sid (en_registry (engine_stop e))"
    using halted engine_stop_ok [OF ok] by (simp add: engine_stop_def fail_commit_waiters_def)
  moreover have "\<forall>sid. \<not> waiting sid (en_registry (snd (engine_drain V e)))" if "fst (engine_drain V e) \<noteq> None"
    using that halted engine_drain_stops [of V e] writers.engine_drain_keeps [unfolded keeps_def, rule_format, OF ok]
    by (metis not_None_eq prod.collapse)
  ultimately show ?thesis using ok by (auto simp: clients_ok_def tables_ok_def held_def)
qed

text \<open>A state machine that remembers what it was given.\<close>

definition sample_sm :: "(log_index \<times> bytes) list sm_ops" where
  "sample_sm = \<lparr>sm_apply_at = (\<lambda>i b seen. (Inr (), seen @ [(i, b)])), sm_snapshot = (\<lambda>_. Inr []),
     sm_restore = (\<lambda>_ _. (Inr (), []))\<rparr>"

definition sample_engine_env :: "(mem_storage, (log_index \<times> bytes) list) engine_env" where
  "sample_engine_env = \<lparr>ee_node = sample_env, ee_custom = \<lparr>ce_registry = custom_registry_new, ce_response = (\<lambda>_ _ _. (Inr (), False))\<rparr>,
     ee_tuning = default_vec_tuning, ee_sm = sample_sm\<rparr>"

definition sample_engine :: "(mem_storage, (log_index \<times> bytes) list) engine" where
  "sample_engine = engine_new 0 (sample_node 1) [] []"

theorem every_writer_is_answered_witness:
  "\<forall>sid. \<not> waiting sid (en_registry (engine_stop (client_step (Write [7]) sample_engine)))"
  using every_writer_is_answered [OF engine_life.client [OF engine_life.start [of sample_engine_env]]]
  unfolding sample_engine_def by blast

end
