(* ===== verification/Engine_Apply.thy ===== *)
theory Engine_Apply
  imports Engine_Clients
begin

text \<open>
  Applying committed entries (\<open>apply_committed_entries\<close> of
  \<open>src/api/arbitro_raft/run.rs\<close>).  The locale \<open>log_reader\<close> adds to the contract of the
  storage what the apply loop needs of it: reading an entry returns the entry of the
  durable log.  The lemmas show that the state machine is given the user's entries
  in log order, each once, and never an entry of the membership layer.
\<close>

section \<open>Reading entries\<close>

locale log_reader = raft_storage +
  assumes entry_at: "invar s \<Longrightarrow> so_entry_at S i room s = (re, t) \<Longrightarrow>
      invar t \<and> hs t = hs s \<and> log t = log s \<and> (\<forall>v. re = Inr v \<longrightarrow> v = log s i)"

interpretation mem_reader: log_reader mem_ops mem_hs mem_log mem_ok
proof unfold_locales
  fix s t :: mem_storage and i room re
  assume ok: "mem_ok s" and "so_entry_at mem_ops i room s = (re, t)"
  then show "mem_ok t \<and> mem_hs t = mem_hs s \<and> mem_log t = mem_log s \<and> (\<forall>v. re = Inr v \<longrightarrow> v = mem_log s i)"
    using find_entry_map [OF ok [unfolded mem_ok_def], of i]
    by (auto simp: mem_ops_def mem_entry_at_def mem_log_def split: option.splits if_splits)
qed

section \<open>The reference: replaying the log\<close>

text \<open>An entry for the user's state machine: neither the internal no-op nor a membership change.\<close>

definition user_payload :: "bytes \<Rightarrow> bool" where
  "user_payload p \<longleftrightarrow> \<not> is_noop_entry p \<and> config_change_decode p = None"

fun replay :: "'m sm_ops \<Rightarrow> (log_index \<times> bytes) list \<Rightarrow> (unit, 'm) raft_op" where
  "replay A [] sm = (Inr (), sm)"
| "replay A ((i, p) # es) sm =
    (if user_payload p then bind_op (sm_apply_at A i p sm) (\<lambda>_. replay A es) else replay A es sm)"

definition indexes_from :: "log_index \<Rightarrow> nat \<Rightarrow> log_index list" where
  "indexes_from idx k = map (\<lambda>i. idx + word_of_nat i) [0..<k]"

definition payloads_at :: "(log_index \<rightharpoonup> log_entry) \<Rightarrow> log_index list \<Rightarrow> (log_index \<times> bytes) list" where
  "payloads_at log is = map (\<lambda>i. (i, entry_payload (the (log i)))) is"

lemma indexes_from_Suc: "indexes_from idx (Suc k) = idx # indexes_from (idx + 1) k"
  unfolding indexes_from_def map_upt_Suc by (simp add: add.assoc)

section \<open>One call\<close>

lemma apply_config_change_applied:
  "n_last_applied (snd (apply_config_change E entry n)) = n_last_applied n \<and>
   commit_index (snd (apply_config_change E entry n)) = commit_index n"
proof -
  have m: "n_last_applied (snd (config_members entry n)) = n_last_applied n \<and>
      n_soft (snd (config_members entry n)) = n_soft n" for n :: "'a raft_node"
    by (auto simp: config_members_def set_members_def Let_def split: config_change_phase.split)
  have d: "n_last_applied (snd (step_down E t n)) = n_last_applied n \<and> commit_index (snd (step_down E t n)) = commit_index n"
    for t and n :: "'a raft_node"
    by (auto simp: step_down_def bind_op_def with_storage_def demote_to_follower_keep_term_def inc_step_downs_def Let_def
        split: prod.splits sum.splits)
  have r: "n_last_applied (reconcile_leader_progress_with_config n) = n_last_applied n \<and>
      n_soft (reconcile_leader_progress_with_config n) = n_soft n" for n :: "'a raft_node"
    by (simp add: reconcile_leader_progress_with_config_def Let_def)
  obtain x n1 where c: "config_members entry (inc_config_changes_applied n) = (x, n1)" by fastforce
  have "n_last_applied n1 = n_last_applied n" "commit_index n1 = commit_index n"
    using m [of "inc_config_changes_applied n"] unfolding c by (simp_all add: inc_config_changes_applied_def)
  then show ?thesis
    using d [of _ n1] d [of _ "reconcile_leader_progress_with_config n1"] r [of n1]
    by (simp add: apply_config_change_def c bind_op_def Let_def split: sum.splits)
qed

context log_reader
begin

lemma apply_config_change_log:
  assumes "e_store E = S" and "invar (n_storage n)" and "apply_config_change E entry n = (r, n')"
  shows "invar (n_storage n') \<and> log (n_storage n') = log (n_storage n)"
proof -
  obtain r1 n1 where m: "config_members entry (inc_config_changes_applied n) = (r1, n1)" by fastforce
  have n1: "n_storage n1 = n_storage n"
    using config_members_fields [of entry "inc_config_changes_applied n"] unfolding m
    by (simp add: inc_config_changes_applied_def)
  have down: "invar (n_storage n'') \<and> log (n_storage n'') = log (n_storage n)"
    if "step_down E t m = (r', n'')" "n_storage m = n_storage n" for t m r' n''
  proof -
    obtain x s where s: "so_save_hard_state S \<lparr>current_term = t, voted_for = None\<rparr> (n_storage n) = (x, s)" by fastforce
    from save_hs [OF assms(2) s] that s assms(1) show ?thesis
      by (auto simp: step_down_def bind_op_def with_storage_def Let_def demote_to_follower_keep_term_def
          inc_step_downs_def split: sum.splits if_splits)
  qed
  have rec: "n_storage (reconcile_leader_progress_with_config m) = n_storage m" for m :: "'a raft_node"
    by (simp add: reconcile_leader_progress_with_config_def Let_def)
  show ?thesis
    using assms(2,3) m n1 down [of _ "reconcile_leader_progress_with_config n1"] rec
    by (auto simp: apply_config_change_def bind_op_def Let_def split: sum.splits if_splits)
qed

lemma apply_payload_spec:
  assumes "e_store (ee_node V) = S" and "invar (n_storage (en_node e))"
    and "apply_payload V idx p e = (Some (Inr ()), e')"
  shows "invar (n_storage (en_node e')) \<and> log (n_storage (en_node e')) = log (n_storage (en_node e)) \<and>
    n_last_applied (en_node e') = n_last_applied (en_node e) \<and> commit_index (en_node e') = commit_index (en_node e) \<and>
    replay (ee_sm V) [(idx, p)] (en_sm e) = (Inr (), en_sm e')"
proof (cases "user_payload p")
  case True
  then show ?thesis using assms
    by (auto simp: apply_payload_def user_payload_def eng_bind_def on_node_def apply_if_config_change_def bind_op_def
        split: prod.splits)
next
  case False
  let ?E = "(ee_node V)\<lparr>e_now := en_now e\<rparr>"
  show ?thesis
  proof (cases "is_noop_entry p")
    case True
    then show ?thesis using assms False by (simp add: apply_payload_def eng_bind_def on_node_def apply_if_config_change_def)
  next
    case noop: False
    then obtain entry where entry: "config_change_decode p = Some entry" using False by (auto simp: user_payload_def)
    obtain r n' where c: "apply_config_change ?E entry (en_node e) = (r, n')" by fastforce
    have e': "e' = e\<lparr>en_node := n'\<rparr>"
      using assms(3) noop entry c
      by (cases r) (auto simp: apply_payload_def eng_bind_def on_node_def apply_if_config_change_def bind_op_def)
    then show ?thesis
      using False apply_config_change_log [OF _ assms(2) c] apply_config_change_applied [of ?E entry "en_node e"] assms(1) c
      by simp
  qed
qed

lemma apply_loop_spec:
  assumes "e_store (ee_node V) = S" and "invar (n_storage (en_node e))"
    and "apply_loop V k idx e = (Some (Inr ()), e')" and "n_last_applied (en_node e) + 1 = idx"
  shows "\<exists>j\<le>k. n_last_applied (en_node e') = n_last_applied (en_node e) + word_of_nat j \<and>
    commit_index (en_node e') = commit_index (en_node e) \<and> log (n_storage (en_node e')) = log (n_storage (en_node e)) \<and>
    invar (n_storage (en_node e')) \<and>
    (\<forall>i\<in>set (indexes_from idx j). log (n_storage (en_node e)) i \<noteq> None) \<and>
    replay (ee_sm V) (payloads_at (log (n_storage (en_node e))) (indexes_from idx j)) (en_sm e) = (Inr (), en_sm e') \<and>
    (j = k \<or> log (n_storage (en_node e)) (idx + word_of_nat j) = None)"
  using assms(2,3,4)
proof (induction k arbitrary: idx e)
  case 0
  then show ?case by (simp add: eng_return_def indexes_from_def payloads_at_def)
next
  case (Suc k)
  obtain x s where rd: "so_entry_at S idx APPLY_BUF_LEN (n_storage (en_node e)) = (x, s)" by fastforce
  note s = entry_at [OF Suc.prems(1) rd]
  let ?e = "e\<lparr>en_node := (en_node e)\<lparr>n_storage := s\<rparr>\<rparr>"
  have rd': "on_node V (\<lambda>E. with_storage (so_entry_at (e_store E) idx APPLY_BUF_LEN)) e = (Some x, ?e)"
    using rd assms(1) by (simp add: on_node_def with_storage_def)
  obtain v where v: "x = Inr v" using Suc.prems(2) rd' by (cases x) (auto simp: eng_bind_def)
  show ?case
  proof (cases v)
    case None
    then have "e' = ?e" using Suc.prems(2) rd' v by (simp add: eng_bind_def eng_return_def)
    then show ?thesis using s v None by (intro exI [of _ 0]) (auto simp: indexes_from_def payloads_at_def)
  next
    case (Some entry)
    let ?p = "entry_payload entry"
    obtain r e1 where p: "apply_payload V idx ?p ?e = (r, e1)" by fastforce
    let ?e2 = "upd_node (mark_applied idx (length ?p)) e1"
    have r: "r = Some (Inr ())" and rest: "apply_loop V k (idx + 1) ?e2 = (Some (Inr ()), e')"
      using Suc.prems(2) rd' v Some p by (auto simp: eng_bind_def eng_do_def split: option.splits sum.splits)
    have e1: "invar (n_storage (en_node e1))" "log (n_storage (en_node e1)) = log (n_storage (en_node e))"
        "commit_index (en_node e1) = commit_index (en_node e)"
        "replay (ee_sm V) [(idx, ?p)] (en_sm e) = (Inr (), en_sm e1)"
      using apply_payload_spec [OF assms(1) _ p [unfolded r]] s by auto
    have e2: "n_last_applied (en_node ?e2) = idx" "n_storage (en_node ?e2) = n_storage (en_node e1)"
        "commit_index (en_node ?e2) = commit_index (en_node e1)" "en_sm ?e2 = en_sm e1"
      by (simp_all add: upd_node_def mark_applied_def set_last_applied_def Let_def)
    obtain j where j: "j \<le> k" "n_last_applied (en_node e') = idx + word_of_nat j"
        "commit_index (en_node e') = commit_index (en_node e)" "log (n_storage (en_node e')) = log (n_storage (en_node e))"
        "invar (n_storage (en_node e'))" "\<forall>i\<in>set (indexes_from (idx + 1) j). log (n_storage (en_node e)) i \<noteq> None"
        "replay (ee_sm V) (payloads_at (log (n_storage (en_node e))) (indexes_from (idx + 1) j)) (en_sm e1) = (Inr (), en_sm e')"
        "j = k \<or> log (n_storage (en_node e)) (idx + 1 + word_of_nat j) = None"
      using Suc.IH [OF _ rest] e1 e2 by auto
    have log: "log (n_storage (en_node e)) idx = Some entry" using s v Some by simp
    have "replay (ee_sm V) (payloads_at (log (n_storage (en_node e))) (indexes_from idx (Suc j))) (en_sm e) = (Inr (), en_sm e')"
      using e1(4) j(7) log
      by (auto simp: indexes_from_Suc payloads_at_def bind_op_def split: if_splits prod.splits sum.splits)
    then show ?thesis using j log Suc.prems(3)
      by (intro exI [of _ "Suc j"]) (auto simp: indexes_from_Suc add.assoc add.commute add.left_commute)
  qed
qed

end

section \<open>The apply step of a tick\<close>

lemma bind_applied:
  assumes "n_last_applied (snd m) = a" and "\<And>x n. n_last_applied n = a \<Longrightarrow> n_last_applied (snd (k x n)) = a"
  shows "n_last_applied (snd (bind_op m k)) = a"
  using assms by (cases m; cases "fst m") (auto simp: bind_op_def)

lemma with_storage_applied: "n_last_applied n = a \<Longrightarrow> n_last_applied (snd (with_storage f n)) = a"
  by (simp add: with_storage_def split: prod.split)

lemma term_at_applied: "n_last_applied n = a \<Longrightarrow> n_last_applied (snd (term_at E i n)) = a"
  unfolding term_at_def local_term_at_def Let_def
  by (auto intro!: bind_applied with_storage_applied split: option.split)

lemma maybe_compact_applied: "n_last_applied (snd (maybe_compact E b n)) = n_last_applied n"
proof -
  have "n_last_applied (snd (compact_with_horizon E b i m)) = a" if "n_last_applied m = a" for i a and m :: "'a raft_node"
    unfolding compact_with_horizon_def Let_def using that
    by (auto intro!: bind_applied with_storage_applied term_at_applied simp: inc_log_compactions_def split: sum.split)
  then show ?thesis
    unfolding maybe_compact_def Let_def
    by (auto intro!: bind_applied with_storage_applied)
qed


text \<open>A log whose second entry is the internal no-op, all of it committed.\<close>

definition apply_node :: "mem_storage raft_node" where
  "apply_node = set_commit_index 3 ((sample_node 1)\<lparr>n_storage := mem_empty\<lparr>ms_entries :=
     [\<lparr>entry_term = 1, entry_index = 1, entry_payload = [5]\<rparr>,
      \<lparr>entry_term = 1, entry_index = 2, entry_payload = noop_entry\<rparr>,
      \<lparr>entry_term = 1, entry_index = 3, entry_payload = [9]\<rparr>]\<rparr>, n_last_log := (3, 1)\<rparr>)"

definition apply_engine :: "(mem_storage, (log_index \<times> bytes) list) engine" where
  "apply_engine = engine_new 0 apply_node [] []"

lemma apply_engine_fields:
  "en_node apply_engine = apply_node" "en_sm apply_engine = []" "en_now apply_engine = 0"
  "n_last_applied apply_node = 0" "commit_index apply_node = 3" "mem_ok (n_storage apply_node)"
  by (simp_all add: apply_engine_def engine_new_def reset_heartbeat_deadline_def reset_election_deadline_def apply_node_def
      set_commit_index_def sample_node_def fresh_node_def mem_ok_def split: prod.split)

lemma apply_engine_restore: "restore_from_snapshot sample_engine_env apply_engine = (Some (Inr ()), apply_engine)"
proof -
  have "apply_engine\<lparr>en_sm := en_sm apply_engine, en_node := en_node apply_engine\<rparr> = apply_engine" by simp
  moreover have "so_load_snapshot_meta mem_ops (n_storage apply_node) = (Inr None, n_storage apply_node)"
    by (simp add: mem_ops_def default_load_snapshot_meta_def mem_load_snapshot_def apply_node_def set_commit_index_def mem_empty_def)
  ultimately show ?thesis
    by (simp add: restore_from_snapshot_def restore_state_machine_from_snapshot_def sample_engine_env_def sample_env_def
        apply_engine_fields with_storage_def)
qed

lemma apply_loop_step:
  assumes "so_entry_at (e_store (ee_node V)) idx APPLY_BUF_LEN (n_storage (en_node e)) = (Inr (Some entry), n_storage (en_node e))"
  shows "user_payload (entry_payload entry) \<Longrightarrow> sm_apply_at (ee_sm V) idx (entry_payload entry) (en_sm e) = (Inr (), sm) \<Longrightarrow>
      apply_loop V (Suc k) idx e = apply_loop V k (idx + 1) (upd_node (mark_applied idx (length (entry_payload entry))) (e\<lparr>en_sm := sm\<rparr>))"
    and "is_noop_entry (entry_payload entry) \<Longrightarrow>
      apply_loop V (Suc k) idx e = apply_loop V k (idx + 1) (upd_node (mark_applied idx (length (entry_payload entry))) e)"
  using assms
  by (simp_all add: eng_bind_def on_node_def with_storage_def apply_payload_def apply_if_config_change_def user_payload_def eng_do_def)

lemma apply_engine_runs:
  "\<exists>e'. apply_committed_entries sample_engine_env apply_engine = (Some (Inr ()), e') \<and> en_sm e' = [(1, [5]), (3, [9])]"
proof -
  have k: "(if (1 :: u64) \<le> 3 then unat (3 :: u64) - unat (1 :: u64) + 1 else 0) = Suc (Suc (Suc 0))" by simp
  have store: "e_store (ee_node sample_engine_env) = mem_ops" by (simp add: sample_engine_env_def sample_env_def)
  have rd: "so_entry_at mem_ops 1 APPLY_BUF_LEN (n_storage apply_node) = (Inr (Some \<lparr>entry_term = 1, entry_index = 1, entry_payload = [5]\<rparr>), n_storage apply_node)"
      "so_entry_at mem_ops 2 APPLY_BUF_LEN (n_storage apply_node) = (Inr (Some \<lparr>entry_term = 1, entry_index = 2, entry_payload = noop_entry\<rparr>), n_storage apply_node)"
      "so_entry_at mem_ops 3 APPLY_BUF_LEN (n_storage apply_node) = (Inr (Some \<lparr>entry_term = 1, entry_index = 3, entry_payload = [9]\<rparr>), n_storage apply_node)"
    by (simp_all add: mem_ops_def mem_entry_at_def APPLY_BUF_LEN_def apply_node_def set_commit_index_def noop_entry_def)
  have payloads: "user_payload [5]" "user_payload [9]" "is_noop_entry noop_entry"
    by (simp_all add: user_payload_def is_noop_entry_def noop_entry_def config_change_decode_def)
  let ?e = "upd_node (mark_applied 3 1) (upd_node (mark_applied 2 (length noop_entry))
      (upd_node (mark_applied 1 1) (apply_engine\<lparr>en_sm := [(1, [5])]\<rparr>))\<lparr>en_sm := [(1, [5]), (3, [9])]\<rparr>)"
  have keep: "n_storage (mark_applied i l n) = n_storage n" for i l and n :: "mem_storage raft_node"
    by (simp add: mark_applied_def set_last_applied_def Let_def)
  have sm: "sm_apply_at (ee_sm sample_engine_env) i b seen = (Inr (), seen @ [(i, b)])" for i b seen
    by (simp add: sample_engine_env_def sample_sm_def)
  note step = apply_loop_step [of sample_engine_env, unfolded store sm]
  let ?e1 = "upd_node (mark_applied 1 1) (apply_engine\<lparr>en_sm := [(1, [5])]\<rparr>)"
  let ?e2 = "upd_node (mark_applied 2 (length noop_entry)) ?e1"
  have "apply_loop sample_engine_env (Suc (Suc (Suc 0))) 1 apply_engine = apply_loop sample_engine_env (Suc (Suc 0)) 2 ?e1"
    using step(1) [of 1 apply_engine, OF _ _ refl] apply_engine_fields rd payloads by simp
  also have "\<dots> = apply_loop sample_engine_env (Suc 0) 3 ?e2"
    using step(2) [of 2 ?e1] apply_engine_fields rd payloads by (simp add: upd_node_def keep)
  also have "\<dots> = (Some (Inr ()), ?e)"
    using step(1) [of 3 ?e2, OF _ _ refl] apply_engine_fields rd payloads by (simp add: upd_node_def keep eng_return_def)
  finally have loop: "apply_loop sample_engine_env (Suc (Suc (Suc 0))) 1 apply_engine = (Some (Inr ()), ?e)" .
  have "maybe_compact E b (en_node ?e) = (Inr None, en_node ?e)" for E :: "mem_storage raft_env" and b
    by (simp add: maybe_compact_def upd_node_def mark_applied_def set_last_applied_def apply_engine_fields apply_node_def
        set_commit_index_def sample_node_def fresh_node_def sample_config_def default_limits_def noop_entry_def Let_def)
  then show ?thesis
    using apply_engine_fields loop k
    by (simp add: apply_committed_entries_def eng_bind_def apply_engine_restore on_node_def eng_return_def
        upd_node_def numeral_3_eq_3 del: apply_loop.simps(2))
qed


end
