(* ===== verification/Multiplex.thy ===== *)
theory Multiplex
  imports Raft_Inbound Wire_Props
begin

text \<open>
  Many Raft groups over one transport, \<open>src/api/transport/multiplex.rs\<close>.  Outbound
  frames are stamped with the group in header bytes 24 to 31.  On receive, the
  wrapper of a group returns its own frames and parks the frames of its siblings in
  their inboxes, from where they or the driver take them.  The state under the mutex
  and the atomic counters are one record; a parked frame is its live bytes, and of
  the recycled buffers only their number is kept.
\<close>

definition MAX_INBOX_FRAMES :: nat where
  "MAX_INBOX_FRAMES = 1024"

definition MAX_POOL_BUFS :: nat where
  "MAX_POOL_BUFS = 64"

section \<open>Stamping\<close>

definition frame_group :: "bytes \<Rightarrow> u64 option" where
  "frame_group buf = (if length buf \<ge> 32 then Some (le_word (fld 24 8 buf)) else None)"

definition stamp_vectored :: "group_id \<Rightarrow> bytes list \<Rightarrow> bytes list result" where
  "stamp_vectored gid slices =
    (case slices of
       [] \<Rightarrow> Inl (Protocol ''multiplex: frame too small to stamp group_id'')
     | first # rest \<Rightarrow>
         if length first < RAFT_FRAME_HEADER_SIZE then Inl (Protocol ''multiplex: frame too small to stamp group_id'')
         else let header = take 24 first @ le_bytes 8 gid in
           Inr (header # drop RAFT_FRAME_HEADER_SIZE first # rest))"

definition stamp_owned :: "group_id \<Rightarrow> bytes \<Rightarrow> bytes result" where
  "stamp_owned gid frame =
    (if length frame < RAFT_FRAME_HEADER_SIZE then Inl (Protocol ''multiplex: frame too short to stamp group_id'')
     else Inr (take 24 frame @ le_bytes 8 gid @ drop 32 frame))"

section \<open>The routing table\<close>

record demux =
  dx_pending :: nat
  dx_unknown_group :: u64
  dx_overflow_dropped :: u64
  dx_inboxes :: "u64 \<rightharpoonup> bytes list"
  dx_ready :: "u64 list"
  dx_pool :: nat

definition demux_new :: demux where
  "demux_new = \<lparr>dx_pending = 0, dx_unknown_group = 0, dx_overflow_dropped = 0, dx_inboxes = Map.empty,
     dx_ready = [], dx_pool = 0\<rparr>"

definition demux_register :: "u64 \<Rightarrow> demux \<Rightarrow> demux" where
  "demux_register gid d = (case dx_inboxes d gid of Some _ \<Rightarrow> d | None \<Rightarrow> d\<lparr>dx_inboxes := (dx_inboxes d)(gid \<mapsto> [])\<rparr>)"

definition demux_unregister :: "u64 \<Rightarrow> demux \<Rightarrow> demux" where
  "demux_unregister gid d =
    (case dx_inboxes d gid of
       Some inbox \<Rightarrow> d\<lparr>dx_inboxes := (dx_inboxes d)(gid := None), dx_pending := dx_pending d - length inbox\<rparr>
     | None \<Rightarrow> d)"

definition recycle :: "demux \<Rightarrow> demux" where
  "recycle d = (if dx_pool d < MAX_POOL_BUFS then d\<lparr>dx_pool := dx_pool d + 1\<rparr> else d)"

definition too_small :: raft_error where
  "too_small = Transport ''multiplex: recv buffer smaller than parked frame''"

definition has_frames :: "demux \<Rightarrow> u64 \<Rightarrow> bool" where
  "has_frames d gid \<longleftrightarrow> (case dx_inboxes d gid of Some (_ # _) \<Rightarrow> True | _ \<Rightarrow> False)"

definition try_pop_into :: "u64 \<Rightarrow> nat \<Rightarrow> (bytes option, demux) raft_op" where
  "try_pop_into gid room d =
    (if dx_pending d = 0 then (Inr None, d)
     else let d = d\<lparr>dx_ready := dropWhile (\<lambda>g. \<not> has_frames d g) (dx_ready d)\<rparr> in
       case dx_inboxes d gid of
         None \<Rightarrow> (Inr None, d)
       | Some [] \<Rightarrow> (Inr None, d)
       | Some (frame # inbox) \<Rightarrow>
           let d = recycle (d\<lparr>dx_inboxes := (dx_inboxes d)(gid \<mapsto> inbox), dx_pending := dx_pending d - 1\<rparr>) in
           (if room < length frame then Inl too_small else Inr (Some frame), d))"

definition park :: "u64 \<Rightarrow> bytes \<Rightarrow> demux \<Rightarrow> demux" where
  "park gid frame d =
    (if length frame > MAX_FRAME_SIZE then d\<lparr>dx_unknown_group := dx_unknown_group d + 1\<rparr>
     else case dx_inboxes d gid of
       None \<Rightarrow> d\<lparr>dx_unknown_group := dx_unknown_group d + 1\<rparr>
     | Some inbox \<Rightarrow>
         let d = d\<lparr>dx_pool := dx_pool d - 1\<rparr> in
         if length inbox \<ge> MAX_INBOX_FRAMES
         then (recycle d)\<lparr>dx_overflow_dropped := dx_overflow_dropped d + 1\<rparr>
         else d\<lparr>dx_inboxes := (dx_inboxes d)(gid \<mapsto> inbox @ [frame]),
                dx_ready := (if inbox = [] then dx_ready d @ [gid] else dx_ready d),
                dx_pending := dx_pending d + 1\<rparr>)"

text \<open>The loop of \<open>pop_parked_into\<close> over the queue of groups with frames; entries of drained groups are skipped.\<close>

fun pop_ready :: "u64 list \<Rightarrow> demux \<Rightarrow> (u64 \<times> bytes) option \<times> demux" where
  "pop_ready [] d = (None, d\<lparr>dx_ready := []\<rparr>)"
| "pop_ready (gid # ready) d =
    (case dx_inboxes d gid of
       Some (frame # inbox) \<Rightarrow>
         (Some (gid, frame), d\<lparr>dx_inboxes := (dx_inboxes d)(gid \<mapsto> inbox),
            dx_ready := (if inbox \<noteq> [] then ready @ [gid] else ready), dx_pending := dx_pending d - 1\<rparr>)
     | _ \<Rightarrow> pop_ready ready d)"

definition pop_parked_into :: "nat \<Rightarrow> ((u64 \<times> bytes) option, demux) raft_op" where
  "pop_parked_into room d =
    (if dx_pending d = 0 then (Inr None, d)
     else case pop_ready (dx_ready d) d of
       (None, d) \<Rightarrow> (Inr None, d)
     | (Some (gid, frame), d) \<Rightarrow>
         (if room < length frame then Inl too_small else Inr (Some (gid, frame)), recycle d))"

section \<open>Receiving through a wrapper\<close>

text \<open>Where one frame of the shared transport goes: back to the caller, or aside.\<close>

definition route_frame :: "u64 \<Rightarrow> bytes \<Rightarrow> demux \<Rightarrow> bool \<times> demux" where
  "route_frame gid frame d =
    (case frame_group frame of
       Some g \<Rightarrow> if g = gid then (True, d) else (False, park g frame d)
     | None \<Rightarrow> (False, d\<lparr>dx_unknown_group := dx_unknown_group d + 1\<rparr>))"

fun mux_recv_timeout :: "u64 \<Rightarrow> nat \<Rightarrow> nat \<Rightarrow> recv_event list \<Rightarrow> demux \<Rightarrow> bytes option result \<times> demux \<times> recv_event list" where
  "mux_recv_timeout gid deadline room [] d =
    (case try_pop_into gid room d of (r, d) \<Rightarrow> (r, d, []))"
| "mux_recv_timeout gid deadline room (ev # evs) d =
    (case try_pop_into gid room d of
       (Inl e, d) \<Rightarrow> (Inl e, d, ev # evs)
     | (Inr (Some frame), d) \<Rightarrow> (Inr (Some frame), d, ev # evs)
     | (Inr None, d) \<Rightarrow>
         if ev_now ev \<ge> deadline then (Inr None, d, ev # evs)
         else case ev_recv ev of
           Inl e \<Rightarrow> (Inl e, d, evs)
         | Inr None \<Rightarrow> (Inr None, d, evs)
         | Inr (Some frame) \<Rightarrow>
             (case route_frame gid frame d of
                (True, d) \<Rightarrow> (Inr (Some frame), d, evs)
              | (False, d) \<Rightarrow> mux_recv_timeout gid deadline room evs d))"

text \<open>Without a timeout the call returns only with a frame or an error; \<open>None\<close> is a call that is still waiting.\<close>

fun mux_recv :: "u64 \<Rightarrow> nat \<Rightarrow> bytes result list \<Rightarrow> demux \<Rightarrow> bytes result option \<times> demux \<times> bytes result list" where
  "mux_recv gid room [] d =
    (case try_pop_into gid room d of
       (Inl e, d) \<Rightarrow> (Some (Inl e), d, [])
     | (Inr (Some frame), d) \<Rightarrow> (Some (Inr frame), d, [])
     | (Inr None, d) \<Rightarrow> (None, d, []))"
| "mux_recv gid room (a # as) d =
    (case try_pop_into gid room d of
       (Inl e, d) \<Rightarrow> (Some (Inl e), d, a # as)
     | (Inr (Some frame), d) \<Rightarrow> (Some (Inr frame), d, a # as)
     | (Inr None, d) \<Rightarrow>
         (case a of
            Inl e \<Rightarrow> (Some (Inl e), d, as)
          | Inr frame \<Rightarrow>
              (case route_frame gid frame d of
                 (True, d) \<Rightarrow> (Some (Inr frame), d, as)
               | (False, d) \<Rightarrow> mux_recv gid room as d)))"

section \<open>The table is consistent\<close>

definition inbox :: "demux \<Rightarrow> u64 \<Rightarrow> bytes list" where
  "inbox d gid = (case dx_inboxes d gid of Some q \<Rightarrow> q | None \<Rightarrow> [])"

text \<open>
  The counter of parked frames is exact, every group with frames is queued for the
  driver, inboxes and the buffer pool are within their bounds, and a parked frame
  names the group of its inbox.
\<close>

definition dx_ok :: "demux \<Rightarrow> bool" where
  "dx_ok d \<longleftrightarrow> finite (dom (dx_inboxes d)) \<and> dx_pending d = (\<Sum>g\<in>dom (dx_inboxes d). length (inbox d g)) \<and>
     (\<forall>g. inbox d g \<noteq> [] \<longrightarrow> g \<in> set (dx_ready d)) \<and>
     (\<forall>g. length (inbox d g) \<le> MAX_INBOX_FRAMES \<and>
        (\<forall>f\<in>set (inbox d g). frame_group f = Some g \<and> length f \<le> MAX_FRAME_SIZE)) \<and>
     dx_pool d \<le> MAX_POOL_BUFS"

lemma inbox_outside: "g \<notin> dom (dx_inboxes d) \<Longrightarrow> inbox d g = []"
  by (auto simp: inbox_def dom_def split: option.splits)

lemma has_frames_inbox: "has_frames d g \<longleftrightarrow> inbox d g \<noteq> []"
  by (auto simp: has_frames_def inbox_def split: option.splits list.splits)

lemma recycle_fields [simp]:
  "dx_inboxes (recycle d) = dx_inboxes d" "dx_ready (recycle d) = dx_ready d" "dx_pending (recycle d) = dx_pending d"
  "dx_overflow_dropped (recycle d) = dx_overflow_dropped d" "inbox (recycle d) = inbox d"
  by (auto simp: recycle_def inbox_def)

lemma recycle_pool: "dx_pool d \<le> MAX_POOL_BUFS \<Longrightarrow> dx_pool (recycle d) \<le> MAX_POOL_BUFS"
  by (simp add: recycle_def)

lemma pending_zero: "dx_ok d \<Longrightarrow> dx_pending d = 0 \<longleftrightarrow> (\<forall>g. inbox d g = [])"
  using inbox_outside [of _ d] unfolding dx_ok_def by (metis (no_types, lifting) length_0_conv sum_eq_0_iff)

lemma dx_ok_inbox:
  "dx_ok d \<Longrightarrow> length (inbox d g) \<le> MAX_INBOX_FRAMES"
  "dx_ok d \<Longrightarrow> f \<in> set (inbox d g) \<Longrightarrow> frame_group f = Some g \<and> length f \<le> MAX_FRAME_SIZE"
  by (auto simp: dx_ok_def)

lemma inbox_cong: "dx_inboxes d' = dx_inboxes d \<Longrightarrow> inbox d' = inbox d"
  by (rule ext) (simp add: inbox_def)

lemma dx_ok_cong:
  assumes "dx_ok d" and "dx_inboxes d' = dx_inboxes d" "dx_ready d' = dx_ready d" "dx_pending d' = dx_pending d"
    and "dx_pool d' \<le> MAX_POOL_BUFS"
  shows "dx_ok d'"
  using assms inbox_cong [OF assms(2)] by (simp add: dx_ok_def)

lemma in_dropWhile: "x \<in> set xs \<Longrightarrow> \<not> P x \<Longrightarrow> x \<in> set (dropWhile P xs)"
  by (induction xs) auto

text \<open>Replacing one inbox changes the sum by the change of its length.\<close>

lemma sum_inbox_update:
  assumes "finite (dom m)" and "g \<in> dom m"
  shows "(\<Sum>h\<in>dom m. length (if h = g then q else p h)) + length (p g) = (\<Sum>h\<in>dom m. length (p h)) + length q"
proof -
  have "(\<Sum>h\<in>dom m. length (if h = g then q else p h)) = length q + (\<Sum>h\<in>dom m - {g}. length (p h))"
    using assms by (simp add: sum.remove [of "dom m" g])
  moreover have "(\<Sum>h\<in>dom m. length (p h)) = length (p g) + (\<Sum>h\<in>dom m - {g}. length (p h))"
    using assms by (simp add: sum.remove [of "dom m" g])
  ultimately show ?thesis by simp
qed

text \<open>A table whose inbox of one group has been replaced.\<close>

lemma dx_ok_update:
  assumes "dx_ok d" and "g \<in> dom (dx_inboxes d)"
    and m: "dx_inboxes d' = (dx_inboxes d)(g \<mapsto> q)"
    and p: "dx_pending d' + length (inbox d g) = dx_pending d + length q"
    and r: "\<forall>h. h \<noteq> g \<longrightarrow> inbox d h \<noteq> [] \<longrightarrow> h \<in> set (dx_ready d')" and rg: "q \<noteq> [] \<longrightarrow> g \<in> set (dx_ready d')"
    and q: "length q \<le> MAX_INBOX_FRAMES" "\<forall>f\<in>set q. frame_group f = Some g \<and> length f \<le> MAX_FRAME_SIZE"
    and "dx_pool d' \<le> MAX_POOL_BUFS"
  shows "dx_ok d' \<and> inbox d' = (inbox d)(g := q) \<and> dom (dx_inboxes d') = dom (dx_inboxes d)"
proof -
  have i: "inbox d' = (inbox d)(g := q)" using m by (auto simp: inbox_def)
  have dm: "dom (dx_inboxes d') = dom (dx_inboxes d)" using m assms(2) by auto
  have "(\<Sum>h\<in>dom (dx_inboxes d). length (inbox d' h)) + length (inbox d g) =
      (\<Sum>h\<in>dom (dx_inboxes d). length (inbox d h)) + length q"
    using sum_inbox_update [OF _ assms(2), of q "inbox d"] assms(1) by (simp add: i dx_ok_def)
  then show ?thesis using assms i dm by (auto simp: dx_ok_def)
qed

lemma try_pop_spec:
  assumes "dx_ok d" and "MAX_FRAME_SIZE \<le> room" and "try_pop_into gid room d = (r, d')"
  shows "dx_ok d' \<and> dom (dx_inboxes d') = dom (dx_inboxes d) \<and> dx_overflow_dropped d' = dx_overflow_dropped d \<and>
    (case inbox d gid of [] \<Rightarrow> r = Inr None \<and> inbox d' = inbox d
     | f # q \<Rightarrow> r = Inr (Some f) \<and> inbox d' = (inbox d)(gid := q))"
proof (cases "dx_pending d = 0")
  case True
  then show ?thesis using assms pending_zero [OF assms(1)] by (simp add: try_pop_into_def)
next
  case False
  let ?d = "d\<lparr>dx_ready := dropWhile (\<lambda>g. \<not> has_frames d g) (dx_ready d)\<rparr>"
  have same: "inbox ?d = inbox d" by (auto simp: inbox_def)
  have ready: "\<forall>h. inbox d h \<noteq> [] \<longrightarrow> h \<in> set (dx_ready ?d)"
    using assms(1) by (auto simp: dx_ok_def has_frames_inbox intro: in_dropWhile)
  then have ok: "dx_ok ?d" using assms(1) by (simp add: dx_ok_def same)
  show ?thesis
  proof (cases "inbox d gid")
    case Nil
    then have "dx_inboxes d gid = None \<or> dx_inboxes d gid = Some []"
      by (auto simp: inbox_def split: option.splits)
    then show ?thesis using False Nil assms(3) ok same by (auto simp: try_pop_into_def)
  next
    case (Cons f q)
    then have m: "dx_inboxes d gid = Some (f # q)" by (auto simp: inbox_def split: option.splits)
    let ?e = "recycle (?d\<lparr>dx_inboxes := (dx_inboxes ?d)(gid \<mapsto> q), dx_pending := dx_pending ?d - 1\<rparr>)"
    have f: "length f \<le> MAX_FRAME_SIZE" using dx_ok_inbox(2) [OF assms(1), of f gid] Cons by simp
    have d': "d' = ?e" "r = Inr (Some f)"
      using False assms(2,3) m f by (auto simp: try_pop_into_def)
    have "dx_ok ?e \<and> inbox ?e = (inbox ?d)(gid := q) \<and> dom (dx_inboxes ?e) = dom (dx_inboxes ?d)"
    proof (rule dx_ok_update [OF ok])
      show "\<forall>f\<in>set q. frame_group f = Some gid \<and> length f \<le> MAX_FRAME_SIZE"
        using dx_ok_inbox(2) [OF assms(1), of _ gid] Cons by simp
      show "length q \<le> MAX_INBOX_FRAMES" using dx_ok_inbox(1) [OF assms(1), of gid] Cons by simp
      show "dx_pool ?e \<le> MAX_POOL_BUFS" using assms(1) by (simp add: recycle_pool dx_ok_def)
    qed (use False m ready Cons same in auto)
    then show ?thesis using d' Cons same by simp
  qed
qed

lemma park_spec:
  assumes "dx_ok d" and "frame_group f = Some g" and "length f \<le> MAX_FRAME_SIZE"
  shows "dx_ok (park g f d) \<and> dom (dx_inboxes (park g f d)) = dom (dx_inboxes d) \<and>
    (inbox (park g f d) = (inbox d)(g := inbox d g @ [f]) \<and> g \<in> dom (dx_inboxes d) \<and> dx_overflow_dropped (park g f d) = dx_overflow_dropped d \<or>
     inbox (park g f d) = inbox d \<and>
       dx_overflow_dropped (park g f d) = (if g \<in> dom (dx_inboxes d) then dx_overflow_dropped d + 1 else dx_overflow_dropped d))"
proof (cases "dx_inboxes d g")
  case None
  then show ?thesis using assms by (auto simp: park_def dx_ok_def inbox_def)
next
  case (Some q)
  then have q: "inbox d g = q" and g: "g \<in> dom (dx_inboxes d)" by (auto simp: inbox_def)
  show ?thesis
  proof (cases "length q \<ge> MAX_INBOX_FRAMES")
    case True
    let ?e = "recycle (d\<lparr>dx_pool := dx_pool d - 1\<rparr>)"
    have pool: "dx_pool ?e \<le> MAX_POOL_BUFS" by (rule recycle_pool) (use assms(1) in \<open>auto simp: dx_ok_def\<close>)
    have "park g f d = ?e\<lparr>dx_overflow_dropped := dx_overflow_dropped d + 1\<rparr>"
      using True Some assms(3) by (simp add: park_def Let_def)
    then show ?thesis using pool g dx_ok_cong [OF assms(1), of "park g f d"] inbox_cong [of "park g f d" d] by simp
  next
    case False
    let ?e = "park g f d"
    have e: "dx_inboxes ?e = (dx_inboxes d)(g \<mapsto> q @ [f])" "dx_pending ?e = dx_pending d + 1"
        "dx_ready ?e = (if q = [] then dx_ready d @ [g] else dx_ready d)" "dx_pool ?e \<le> dx_pool d"
        "dx_overflow_dropped ?e = dx_overflow_dropped d"
      using False Some assms(3) by (simp_all add: park_def Let_def)
    have "dx_ok ?e \<and> inbox ?e = (inbox d)(g := q @ [f]) \<and> dom (dx_inboxes ?e) = dom (dx_inboxes d)"
      by (rule dx_ok_update [OF assms(1) g])
        (use assms False e q in \<open>auto simp: dx_ok_def\<close>)
    then show ?thesis using e g q by simp
  qed
qed

lemma pop_ready_spec:
  assumes "dx_ok d" and "\<forall>g. inbox d g \<noteq> [] \<longrightarrow> g \<in> set ready"
  shows "(\<exists>gid f q. pop_ready ready d = (Some (gid, f), snd (pop_ready ready d)) \<and> inbox d gid = f # q \<and>
      dx_ok (snd (pop_ready ready d)) \<and> inbox (snd (pop_ready ready d)) = (inbox d)(gid := q) \<and>
      dom (dx_inboxes (snd (pop_ready ready d))) = dom (dx_inboxes d)) \<or>
    fst (pop_ready ready d) = None \<and> (\<forall>g. inbox d g = [])"
  using assms(2)
proof (induction ready)
  case (Cons gid ready)
  show ?case
  proof (cases "inbox d gid")
    case Nil
    then have skip: "pop_ready (gid # ready) d = pop_ready ready d"
      by (auto simp: inbox_def split: option.splits list.splits)
    have "\<forall>g. inbox d g \<noteq> [] \<longrightarrow> g \<in> set ready" using Cons.prems Nil by auto
    from Cons.IH [OF this] show ?thesis unfolding skip .
  next
    case q: (Cons f q)
    then have m: "dx_inboxes d gid = Some (f # q)" by (auto simp: inbox_def split: option.splits)
    let ?e = "snd (pop_ready (gid # ready) d)"
    have e: "dx_inboxes ?e = (dx_inboxes d)(gid \<mapsto> q)" "dx_pending ?e = dx_pending d - 1" "dx_pool ?e = dx_pool d"
        "dx_ready ?e = (if q \<noteq> [] then ready @ [gid] else ready)" using m by simp_all
    have pos: "0 < dx_pending d" using pending_zero [OF assms(1)] q by (metis gr0I list.distinct(1))
    have "dx_ok ?e \<and> inbox ?e = (inbox d)(gid := q) \<and> dom (dx_inboxes ?e) = dom (dx_inboxes d)"
    proof (rule dx_ok_update [OF assms(1)])
      show "\<forall>f\<in>set q. frame_group f = Some gid \<and> length f \<le> MAX_FRAME_SIZE" "length q \<le> MAX_INBOX_FRAMES"
        using dx_ok_inbox(1) [OF assms(1), of gid] dx_ok_inbox(2) [OF assms(1), of _ gid] q by auto
    qed (use m e pos q Cons.prems assms(1) in \<open>auto simp: dx_ok_def\<close>)
    then show ?thesis using m q by auto
  qed
qed simp

lemma pop_parked_spec:
  assumes "dx_ok d" and "MAX_FRAME_SIZE \<le> room" and "pop_parked_into room d = (r, d')"
  shows "dx_ok d' \<and> dom (dx_inboxes d') = dom (dx_inboxes d) \<and> dx_overflow_dropped d' = dx_overflow_dropped d \<and>
    ((\<exists>gid f q. r = Inr (Some (gid, f)) \<and> inbox d gid = f # q \<and> inbox d' = (inbox d)(gid := q)) \<or>
     r = Inr None \<and> inbox d' = inbox d \<and> (\<forall>g. inbox d g = []))"
proof (cases "dx_pending d = 0")
  case True
  then show ?thesis using assms pending_zero [OF assms(1)] by (simp add: pop_parked_into_def)
next
  case False
  have ready: "\<forall>g. inbox d g \<noteq> [] \<longrightarrow> g \<in> set (dx_ready d)" using assms(1) by (simp add: dx_ok_def)
  have over: "dx_overflow_dropped (snd (pop_ready gs d)) = dx_overflow_dropped d" for gs
    by (induction gs d rule: pop_ready.induct) (auto split: option.splits list.splits)
  obtain gid f q where p: "pop_ready (dx_ready d) d = (Some (gid, f), snd (pop_ready (dx_ready d) d))" "inbox d gid = f # q"
      "dx_ok (snd (pop_ready (dx_ready d) d))" "inbox (snd (pop_ready (dx_ready d) d)) = (inbox d)(gid := q)"
      "dom (dx_inboxes (snd (pop_ready (dx_ready d) d))) = dom (dx_inboxes d)"
    using pop_ready_spec [OF assms(1) ready] False pending_zero [OF assms(1)] by auto
  have "length f \<le> MAX_FRAME_SIZE" using dx_ok_inbox(2) [OF assms(1), of f gid] p(2) by simp
  then have "r = Inr (Some (gid, f))" "d' = recycle (snd (pop_ready (dx_ready d) d))"
    using assms(2,3) False p(1) by (auto simp: pop_parked_into_def split: prod.splits)
  moreover have "dx_ok (recycle e)" if "dx_ok e" for e
    using that by (intro dx_ok_cong [OF that]) (auto simp: dx_ok_def recycle_pool)
  ultimately show ?thesis using p over by simp
qed

section \<open>Every group gets its frames, in order\<close>

text \<open>The frames the shared transport delivered during a call, in order.\<close>

definition arrived :: "recv_event list \<Rightarrow> recv_event list \<Rightarrow> bytes list" where
  "arrived evs evs' = concat (map (\<lambda>ev. case ev_recv ev of Inr (Some f) \<Rightarrow> [f] | _ \<Rightarrow> []) (take (length evs - length evs') evs))"

fun answered :: "u64 \<Rightarrow> bytes option result \<Rightarrow> (u64 \<times> bytes) list" where
  "answered gid (Inr (Some f)) = [(gid, f)]"
| "answered gid _ = []"

definition frames_fit :: "recv_event list \<Rightarrow> bool" where
  "frames_fit evs \<longleftrightarrow> (\<forall>ev\<in>set evs. \<forall>f. ev_recv ev = Inr (Some f) \<longrightarrow> length f \<le> MAX_FRAME_SIZE)"

definition for_group :: "u64 \<Rightarrow> (u64 \<times> bytes) list \<Rightarrow> bytes list" where
  "for_group g del = map snd (filter (\<lambda>x. fst x = g) del)"

definition addressed :: "u64 \<Rightarrow> bytes list \<Rightarrow> bytes list" where
  "addressed g fs = filter (\<lambda>f. frame_group f = Some g) fs"

text \<open>What one receive call conserves; \<open>k\<close> counts the frames shed at full inboxes.\<close>

definition conserves :: "demux \<Rightarrow> demux \<Rightarrow> (u64 \<times> bytes) list \<Rightarrow> bytes list \<Rightarrow> bool" where
  "conserves d d' del arr \<longleftrightarrow> dx_ok d' \<and> dom (dx_inboxes d') = dom (dx_inboxes d) \<and>
     (\<forall>(g, f)\<in>set del. frame_group f = Some g) \<and>
     (\<exists>k\<le>length arr. dx_overflow_dropped d' = dx_overflow_dropped d + word_of_nat k \<and>
        (k = 0 \<longrightarrow> (\<forall>g\<in>dom (dx_inboxes d). for_group g del @ inbox d' g = inbox d g @ addressed g arr)))"

lemma conserves_trans:
  assumes "conserves d d' del arr" and "conserves d' d'' del' arr'"
  shows "conserves d d'' (del @ del') (arr @ arr')"
proof -
  obtain k where k: "k \<le> length arr" "dx_overflow_dropped d' = dx_overflow_dropped d + word_of_nat k"
      "k = 0 \<longrightarrow> (\<forall>g\<in>dom (dx_inboxes d). for_group g del @ inbox d' g = inbox d g @ addressed g arr)"
    using assms(1) by (auto simp: conserves_def)
  obtain j where j: "j \<le> length arr'" "dx_overflow_dropped d'' = dx_overflow_dropped d' + word_of_nat j"
      "j = 0 \<longrightarrow> (\<forall>g\<in>dom (dx_inboxes d'). for_group g del' @ inbox d'' g = inbox d' g @ addressed g arr')"
    using assms(2) by (auto simp: conserves_def)
  have dm: "dom (dx_inboxes d') = dom (dx_inboxes d)" using assms(1) by (simp add: conserves_def)
  have "for_group g (del @ del') @ inbox d'' g = inbox d g @ addressed g (arr @ arr')"
    if "k = 0" "j = 0" "g \<in> dom (dx_inboxes d)" for g
  proof -
    have "for_group g del' @ inbox d'' g = inbox d' g @ addressed g arr'" using j(3) that dm by simp
    moreover have "for_group g del @ inbox d' g = inbox d g @ addressed g arr" using k(3) that by simp
    ultimately have "(for_group g del @ for_group g del') @ inbox d'' g = inbox d g @ addressed g arr @ addressed g arr'"
      by (metis append.assoc)
    then show ?thesis by (simp add: for_group_def addressed_def)
  qed
  then have "\<exists>i\<le>length (arr @ arr'). dx_overflow_dropped d'' = dx_overflow_dropped d + word_of_nat i \<and>
      (i = 0 \<longrightarrow> (\<forall>g\<in>dom (dx_inboxes d). for_group g (del @ del') @ inbox d'' g = inbox d g @ addressed g (arr @ arr')))"
    using k(1,2) j(1,2) by (intro exI [of _ "k + j"]) (auto simp: add.assoc)
  then show ?thesis using assms by (auto simp: conserves_def)
qed

lemma try_pop_conserves:
  assumes "dx_ok d" and "MAX_FRAME_SIZE \<le> room" and "try_pop_into gid room d = (r, d')"
  shows "conserves d d' (answered gid r) [] \<and> (\<exists>x. r = Inr x \<and> (x = None \<longrightarrow> inbox d' gid = []))"
proof (cases "inbox d gid")
  case Nil
  then show ?thesis using try_pop_spec [OF assms] by (auto simp: conserves_def for_group_def addressed_def)
next
  case (Cons f q)
  then show ?thesis using try_pop_spec [OF assms] dx_ok_inbox(2) [OF assms(1), of f gid]
    by (auto simp: conserves_def for_group_def addressed_def)
qed

lemma pop_parked_conserves:
  assumes "dx_ok d" and "MAX_FRAME_SIZE \<le> room" and "pop_parked_into room d = (r, d')"
  shows "conserves d d' (case r of Inr (Some x) \<Rightarrow> [x] | _ \<Rightarrow> []) []"
  using pop_parked_spec [OF assms] dx_ok_inbox(2) [OF assms(1)]
  by (auto simp: conserves_def for_group_def addressed_def)

lemma route_conserves:
  assumes "dx_ok d" and "length f \<le> MAX_FRAME_SIZE" and "route_frame gid f d = (own, d')"
    and "inbox d gid = []"
  shows "conserves d d' (if own then [(gid, f)] else []) [f] \<and> (own \<longrightarrow> d' = d)"
proof (cases "frame_group f")
  case None
  then have d': "own = False" "d' = d\<lparr>dx_unknown_group := dx_unknown_group d + 1\<rparr>"
    using assms(3) by (auto simp: route_frame_def)
  have "dx_pool d \<le> MAX_POOL_BUFS" using assms(1) by (simp add: dx_ok_def)
  then have "dx_ok d'" "inbox d' = inbox d"
    using d' dx_ok_cong [OF assms(1), of d'] inbox_cong [of d' d] by simp_all
  then show ?thesis using d' None by (auto simp: conserves_def for_group_def addressed_def)
next
  case (Some g)
  show ?thesis
  proof (cases "g = gid")
    case False
    then have "own = False" "d' = park g f d" using Some assms(3) by (auto simp: route_frame_def)
    then show ?thesis using park_spec [OF assms(1) Some assms(2)] Some
      by (cases "dx_overflow_dropped (park g f d) = dx_overflow_dropped d")
        (auto simp: conserves_def for_group_def addressed_def split: if_splits intro: exI [of _ 0] exI [of _ "Suc 0"])
  qed (use Some assms in \<open>auto simp: route_frame_def conserves_def for_group_def addressed_def intro: exI [of _ 0]\<close>)
qed

lemma arrived_Cons:
  assumes "length evs' \<le> length evs"
  shows "arrived (ev # evs) evs' = (case ev_recv ev of Inr (Some f) \<Rightarrow> [f] | _ \<Rightarrow> []) @ arrived evs evs'"
  using assms by (simp add: arrived_def Suc_diff_le)

lemma conserves_refl: "dx_ok d \<Longrightarrow> conserves d d [] []"
  by (auto simp: conserves_def for_group_def addressed_def)

lemma recv_conserves:
  assumes "mux_recv_timeout gid deadline room evs d = (r, d', evs')" and "dx_ok d" and "MAX_FRAME_SIZE \<le> room"
    and "frames_fit evs"
  shows "conserves d d' (answered gid r) (arrived evs evs') \<and> length evs' \<le> length evs"
  using assms
proof (induction evs arbitrary: d)
  case Nil
  then show ?case using try_pop_conserves [of d room gid] by (auto simp: arrived_def split: prod.splits)
next
  case (Cons ev evs)
  obtain x d1 where pop: "try_pop_into gid room d = (x, d1)" by fastforce
  from try_pop_conserves [OF Cons.prems(2,3) pop]
  obtain y where c1: "conserves d d1 (answered gid x) []" and x: "x = Inr y" "y = None \<longrightarrow> inbox d1 gid = []"
    by auto
  show ?case
  proof (cases "y = None \<and> ev_now ev < deadline")
    case False
    then have "r = x" "d' = d1" "evs' = ev # evs" using Cons.prems(1) pop x by (auto split: option.splits)
    then show ?thesis using c1 by (simp add: arrived_def)
  next
    case wait: True
    then have d1: "conserves d d1 [] []" "dx_ok d1" using c1 x by (auto simp: conserves_def)
    show ?thesis
    proof (cases "ev_recv ev")
      case (Inl e)
      then have "r = Inl e" "d' = d1" "evs' = evs" using Cons.prems(1) pop x wait by auto
      then show ?thesis using d1 Inl by (simp add: arrived_def)
    next
      case (Inr z)
      show ?thesis
      proof (cases z)
        case None
        then have "r = Inr None" "d' = d1" "evs' = evs" using Cons.prems(1) pop x wait Inr by auto
        then show ?thesis using d1 Inr None by (simp add: arrived_def)
      next
        case (Some f)
        obtain own d2 where rt: "route_frame gid f d1 = (own, d2)" by fastforce
        have fit: "length f \<le> MAX_FRAME_SIZE" "frames_fit evs" using Cons.prems(4) Inr Some by (auto simp: frames_fit_def)
        have "inbox d1 gid = []" using x(2) wait by simp
        note c2 = route_conserves [OF d1(2) fit(1) rt this]
        have c12: "conserves d d2 (if own then [(gid, f)] else []) [f]"
          using conserves_trans [OF d1(1)] c2 by fastforce
        show ?thesis
        proof (cases own)
          case True
          then have "r = Inr (Some f)" "d' = d2" "evs' = evs" using Cons.prems(1) pop x wait Inr Some rt by auto
          then show ?thesis using c12 True Inr Some by (simp add: arrived_def)
        next
          case False
          then have rec: "mux_recv_timeout gid deadline room evs d2 = (r, d', evs')"
            using Cons.prems(1) pop x wait Inr Some rt by auto
          have "dx_ok d2" using c2 by (simp add: conserves_def)
          from Cons.IH [OF rec this Cons.prems(3) fit(2)] conserves_trans [OF c12]
          show ?thesis using False Inr Some by (fastforce simp: arrived_Cons)
        qed
      qed
    qed
  qed
qed

text \<open>
  A run of a demultiplexer with the groups \<open>gs\<close>: any wrapper receives, the driver
  drains, in any order.  \<open>arr\<close> are the frames taken off the shared transport and
  \<open>del\<close> the deliveries, each with the group it went to.
\<close>

inductive mux_run :: "u64 list \<Rightarrow> bytes list \<Rightarrow> (u64 \<times> bytes) list \<Rightarrow> demux \<Rightarrow> bool" for gs where
  start: "mux_run gs [] [] (fold demux_register gs demux_new)"
| recv: "mux_run gs arr del d \<Longrightarrow> MAX_FRAME_SIZE \<le> room \<Longrightarrow> frames_fit evs \<Longrightarrow>
    mux_recv_timeout gid deadline room evs d = (r, d', evs') \<Longrightarrow>
    mux_run gs (arr @ arrived evs evs') (del @ answered gid r) d'"
| drain: "mux_run gs arr del d \<Longrightarrow> MAX_FRAME_SIZE \<le> room \<Longrightarrow> pop_parked_into room d = (r, d') \<Longrightarrow>
    mux_run gs arr (del @ (case r of Inr (Some x) \<Rightarrow> [x] | _ \<Rightarrow> [])) d'"

lemma fresh_table:
  "dx_ok (fold demux_register gs d) \<and> dom (dx_inboxes (fold demux_register gs d)) = set gs \<union> dom (dx_inboxes d) \<and>
   (\<forall>g. inbox (fold demux_register gs d) g = []) \<and> dx_overflow_dropped (fold demux_register gs d) = dx_overflow_dropped d"
  if "dx_ok d" "\<forall>g. inbox d g = []" for d
  using that
proof (induction gs arbitrary: d)
  case (Cons g gs)
  have "dx_ok (demux_register g d)" "\<forall>h. inbox (demux_register g d) h = []"
      "dom (dx_inboxes (demux_register g d)) = insert g (dom (dx_inboxes d))"
      "dx_overflow_dropped (demux_register g d) = dx_overflow_dropped d"
    using Cons.prems by (auto simp: demux_register_def dx_ok_def inbox_def split: option.splits)
  then show ?case using Cons.IH [of "demux_register g d"] by auto
qed auto

lemma mux_run_conserves:
  assumes "mux_run gs arr del d"
  shows "conserves (fold demux_register gs demux_new) d del arr"
  using assms
proof induction
  case start
  then show ?case using fresh_table [of demux_new gs]
    by (intro conserves_refl) (simp add: demux_new_def dx_ok_def inbox_def)
next
  case (recv arr del d room evs gid deadline r d' evs')
  have "dx_ok d" using recv.IH by (simp add: conserves_def)
  then show ?case using recv_conserves [OF recv.hyps(4) _ recv.hyps(2,3)] conserves_trans [OF recv.IH] by blast
next
  case (drain arr del d room r d')
  have "dx_ok d" using drain.IH by (simp add: conserves_def)
  from conserves_trans [OF drain.IH pop_parked_conserves [OF this drain.hyps(2,3)]] show ?case by simp
qed


text \<open>Group 1 receives while a frame of group 2 arrives before its own.\<close>

definition mux_frames :: "bytes list" where
  "mux_frames = [replicate 24 0 @ le_bytes 8 (2 :: u64), replicate 24 0 @ le_bytes 8 (1 :: u64)]"

definition mux_sample :: "bytes option result \<times> demux \<times> recv_event list" where
  "mux_sample = mux_recv_timeout 1 5 MAX_FRAME_SIZE (map (\<lambda>f. \<lparr>ev_now = 0, ev_recv = Inr (Some f)\<rparr>) mux_frames)
     (fold demux_register [1, 2] demux_new)"

lemma mux_sample_run:
  "mux_run [1, 2] mux_frames [(1, mux_frames ! 1)] (fst (snd mux_sample)) \<and>
   dx_overflow_dropped (fst (snd mux_sample)) = 0 \<and> inbox (fst (snd mux_sample)) 2 = [mux_frames ! 0]"
proof -
  let ?evs = "map (\<lambda>f. \<lparr>ev_now = (0 :: nat), ev_recv = Inr (Some f)\<rparr>) mux_frames"
  have fit: "frames_fit ?evs" by (simp add: frames_fit_def mux_frames_def MAX_FRAME_SIZE_def)
  obtain a b where ab: "mux_frames = [a, b]" "frame_group a = Some 2" "frame_group b = Some 1" "length a = 32"
    by (simp add: mux_frames_def frame_group_def fld_def)
  have res: "fst mux_sample = Inr (Some (mux_frames ! 1)) \<and> snd (snd mux_sample) = [] \<and>
      dx_overflow_dropped (fst (snd mux_sample)) = 0 \<and> inbox (fst (snd mux_sample)) 2 = [mux_frames ! 0]"
    by (simp add: mux_sample_def ab try_pop_into_def route_frame_def park_def demux_register_def demux_new_def
        MAX_INBOX_FRAMES_def MAX_FRAME_SIZE_def inbox_def)
  have "mux_run [1, 2] ([] @ arrived ?evs (snd (snd mux_sample))) ([] @ answered 1 (fst mux_sample)) (fst (snd mux_sample))"
    by (rule mux_run.recv [OF mux_run.start order_refl fit, of 1 5]) (simp add: mux_sample_def)
  then show ?thesis using res by (simp add: arrived_def mux_frames_def)
qed


text \<open>
  At a full inbox it is the arriving frame that is dropped, the parked ones stay;
  and a receive whose deadline has passed never reads the shared transport.
\<close>

lemma full_inbox_drops_newest:
  assumes "dx_inboxes d gid = Some q" and "length q = MAX_INBOX_FRAMES" and "length frame \<le> MAX_FRAME_SIZE"
  shows "inbox (park gid frame d) gid = q \<and> dx_overflow_dropped (park gid frame d) = dx_overflow_dropped d + 1"
  using assms by (simp add: park_def recycle_def inbox_def Let_def)

lemma expired_receive_reads_nothing:
  assumes "deadline \<le> ev_now ev"
  shows "snd (snd (mux_recv_timeout gid deadline room (ev # evs) d)) = ev # evs"
  using assms by (auto split: prod.splits sum.splits option.splits)

section \<open>A stamped frame is the same frame, in its group\<close>

lemma stamp_header:
  "take 24 (enc_frame_header (frame_header from g kind n)) @ le_bytes 8 gid = enc_frame_header (frame_header from gid kind n)"
  by (simp add: enc_frame_header_def frame_header_def)

text \<open>
  (C34) Stamping is transparent.  A message that the node encodes, stamped by the
  wrapper of a group, is decoded by the receiver to the same sender and message
  with that group, the receiving demultiplexer routes it to that group, and the
  vectored send path writes the same bytes as the contiguous one.
\<close>

theorem stamped_frame_roundtrip:
  assumes "wire_ok msg" and "encode_message_to_bytes from msg = Inr frame" and "concat slices = frame"
    and "slices \<noteq> []" and "32 \<le> length (hd slices)"
  shows "\<exists>stamped. stamp_owned gid frame = Inr stamped \<and> map_sum id concat (stamp_vectored gid slices) = Inr stamped \<and>
    frame_group stamped = Some gid \<and>
    decode_message stamped = Inr \<lparr>in_from = from, in_group_id = gid, in_message = received_form msg\<rparr>"
proof -
  obtain n b where n: "wire_len_u32 (body_total_len msg) ''frame body length'' = Inr n"
      and b: "encode_body msg = Inr b" and frame: "frame = enc_frame_header (frame_header from 0 (kind_of msg) n) @ b"
    using assms(2) unfolding encode_message_to_bytes_def by (auto elim!: bind_res_InrE)
  let ?s = "enc_frame_header (frame_header from gid (kind_of msg) n) @ b"
  have s: "stamp_owned gid frame = Inr ?s"
    using stamp_header [of "from" 0 "kind_of msg" n gid] by (simp add: stamp_owned_def frame)
  obtain f rest where sl: "slices = f # rest" "32 \<le> length f" using assms(4,5) by (cases slices) auto
  have "map_sum id concat (stamp_vectored gid slices) = Inr (take 24 frame @ le_bytes 8 gid @ drop 32 frame)"
    using sl assms(3) by (auto simp: stamp_vectored_def)
  moreover have "frame_group ?s = Some gid"
    by (simp add: frame_group_def fld_def enc_frame_header_def frame_header_def)
  moreover have "length b < 2 ^ 32" "n = word_of_nat (length b)"
    using n encode_body_len [OF b] by (auto simp: wire_len_u32_def split: if_splits)
  then have "decode_message ?s = Inr \<lparr>in_from = from, in_group_id = gid, in_message = received_form msg\<rparr>"
    using decode_frame [of b "from" gid "kind_of msg"] decode_body_encode [OF assms(1) b] by simp
  ultimately show ?thesis using s by (auto simp: stamp_owned_def split: if_splits)
qed

theorem stamped_frame_roundtrip_witness:
  "\<exists>frame stamped. encode_message_to_bytes 3 (TimeoutNow \<lparr>tn_term = 7, tn_leader_id = 3\<rparr>) = Inr frame \<and> stamp_owned 9 frame = Inr stamped \<and>
     decode_message stamped = Inr \<lparr>in_from = 3, in_group_id = 9, in_message = received_form (TimeoutNow \<lparr>tn_term = 7, tn_leader_id = 3\<rparr>)\<rparr>"
proof -
  obtain frame where "encode_message_to_bytes 3 (TimeoutNow \<lparr>tn_term = 7, tn_leader_id = 3\<rparr>) = Inr frame" "32 \<le> length frame"
    by (auto simp: encode_message_to_bytes_def wire_len_u32_def)
  then show ?thesis
    using stamped_frame_roundtrip [of "TimeoutNow \<lparr>tn_term = 7, tn_leader_id = 3\<rparr>" 3 frame "[frame]" 9] by auto
qed

end
