(* ===== verification/Multi_Driver.thy ===== *)
theory Multi_Driver
  imports Engine_Apply Multiplex
begin

text \<open>
  Many groups on one core: the registry of groups (\<open>src/api/registry/mod.rs\<close>,
  \<open>heartbeats.rs\<close>) and the driver that routes frames, applies entries and serves the
  timers of every group (\<open>src/api/registry/driver.rs\<close>).

  Groups and timers are hash maps in the code; here they are association lists, whose
  order is the order in which the driver visits them.  While a group waits for its
  own frames, its receive calls go through the shared demultiplexer, which parks the
  frames of the other groups.
\<close>

section \<open>Groups\<close>

text \<open>The sizes of the three large buffers that the driver lends to the group it steps.\<close>

record scratch_lens =
  sl_payload :: nat
  sl_outbound :: nat
  sl_quorum :: nat

record ('s, 'm) group_entry =
  ge_node :: "'s raft_node"
  ge_sm :: 'm
  ge_scratch :: scratch_lens

type_synonym ('s, 'm) groups = "('s, 'm) group_entry peer_map"

definition PAYLOAD_SCRATCH :: nat where "PAYLOAD_SCRATCH = 16 * 1024 * 1024"
definition OUTBOUND_SCRATCH :: nat where "OUTBOUND_SCRATCH = 1024 * 1024"
definition QUORUM_SCRATCH :: nat where "QUORUM_SCRATCH = 64 * 1024"
definition BURST_FRAMES :: nat where "BURST_FRAMES = 128"

definition standard_scratch :: scratch_lens where
  "standard_scratch = \<lparr>sl_payload = PAYLOAD_SCRATCH, sl_outbound = OUTBOUND_SCRATCH, sl_quorum = QUORUM_SCRATCH\<rparr>"

definition no_scratch :: scratch_lens where
  "no_scratch = \<lparr>sl_payload = 0, sl_outbound = 0, sl_quorum = 0\<rparr>"

definition registry_insert :: "group_id \<Rightarrow> ('s, 'm) group_entry \<Rightarrow> (unit, ('s, 'm) groups) raft_op" where
  "registry_insert gid entry gs =
    (if pm_contains_key gid gs then (Inl (Protocol (''duplicate group id '' @ show_u64 gid)), gs)
     else (Inr (), pm_insert gid entry gs))"

definition registry_remove :: "group_id \<Rightarrow> ('s, 'm) groups \<Rightarrow> ('s raft_node \<times> 'm) option \<times> ('s, 'm) groups" where
  "registry_remove gid gs =
    (map_option (\<lambda>entry. (ge_node entry, ge_sm entry)) (pm_get gid gs), pm_remove gid gs)"

definition registry_get :: "group_id \<Rightarrow> ('s, 'm) groups \<Rightarrow> 's raft_node option" where
  "registry_get gid gs = map_option ge_node (pm_get gid gs)"

definition registry_state_machine :: "group_id \<Rightarrow> ('s, 'm) groups \<Rightarrow> 'm option" where
  "registry_state_machine gid gs = map_option ge_sm (pm_get gid gs)"

definition registry_len :: "('s, 'm) groups \<Rightarrow> nat" where
  "registry_len gs = length gs"

definition registry_is_empty :: "('s, 'm) groups \<Rightarrow> bool" where
  "registry_is_empty gs \<longleftrightarrow> gs = []"

definition registry_dispatch :: "'s raft_env \<Rightarrow> custom_env \<Rightarrow> inbound_message \<Rightarrow> (unit, ('s, 'm) groups) raft_op" where
  "registry_dispatch E C m gs =
    (case pm_get (in_group_id m) gs of
       None \<Rightarrow> (Inl (Protocol (''no raft group registered for group_id '' @ show_u64 (in_group_id m))), gs)
     | Some entry \<Rightarrow>
         (case handle_inbound E C m (ge_node entry) of
            (r, n) \<Rightarrow> (r, pm_insert (in_group_id m) (entry\<lparr>ge_node := n\<rparr>) gs)))"

text \<open>One batched heartbeat over all groups: the frames delivered, and what each peer is sent.\<close>

definition tick_heartbeats :: "'s raft_env \<Rightarrow> ('s, 'm) groups \<Rightarrow> (nat \<times> (peer_id \<times> bytes list) list) \<times> ('s, 'm) groups" where
  "tick_heartbeats E gs =
    (case send_batched_heartbeats E (map (\<lambda>(gid, entry). (gid, ge_node entry)) gs) of
       (sent, ns) \<Rightarrow> (sent, map2 (\<lambda>(gid, entry) (_, n). (gid, entry\<lparr>ge_node := n\<rparr>)) gs ns))"

section \<open>Timers\<close>

record group_timers =
  gt_next_election :: nat
  gt_next_heartbeat :: nat
  gt_forced_campaign :: bool
  gt_rng :: u64
  gt_heartbeat_ms :: u64
  gt_election_min_ms :: u64
  gt_election_max_ms :: u64

definition reset_heartbeat :: "nat \<Rightarrow> group_timers \<Rightarrow> group_timers" where
  "reset_heartbeat now t = t\<lparr>gt_next_heartbeat := now + unat (gt_heartbeat_ms t)\<rparr>"

definition reset_election :: "nat \<Rightarrow> group_timers \<Rightarrow> group_timers" where
  "reset_election now t =
    (let span = gt_election_max_ms t - gt_election_min_ms t + 1; rng = mix64 (gt_rng t); jitter = rng mod span in
     t\<lparr>gt_rng := rng, gt_next_election := now + unat (gt_election_min_ms t + jitter)\<rparr>)"

definition group_timers_new :: "nat \<Rightarrow> group_id \<Rightarrow> peer_id \<Rightarrow> timing_config \<Rightarrow> group_timers" where
  "group_timers_new now gid self timing =
     reset_heartbeat now (reset_election now
       \<lparr>gt_next_election = now, gt_next_heartbeat = now, gt_forced_campaign = False,
        gt_rng = mix64 (xor gid (self * 0x9e3779b97f4a7c15)), gt_heartbeat_ms = max (heartbeat_ms timing) 1,
        gt_election_min_ms = max (election_min_ms timing) 1,
        gt_election_max_ms = max (election_max_ms timing) (max (election_min_ms timing) 1)\<rparr>)"

section \<open>The driver\<close>

text \<open>
  One waiting call of the driver or of a group: the clock before and after it, and
  for every receive call it makes the deadline and the answers of the shared transport.
\<close>

record driver_wait =
  dw_now :: nat
  dw_calls :: "(nat \<times> recv_event list) list"
  dw_end :: nat

record ('s, 'm) driver =
  dr_groups :: "('s, 'm) groups"
  dr_demux :: demux
  dr_timers :: "group_timers peer_map"
  dr_scratch :: scratch_lens
  dr_unknown_group_frames :: u64
  dr_now :: nat
  dr_waits :: "driver_wait list"

type_synonym ('a, 's, 'm) drv = "('a, ('s, 'm) driver) io"

definition driver_new :: "nat \<Rightarrow> driver_wait list \<Rightarrow> ('s, 'm) driver" where
  "driver_new now waits = \<lparr>dr_groups = pm_empty, dr_demux = demux_new, dr_timers = pm_empty, dr_scratch = standard_scratch,
     dr_unknown_group_frames = 0, dr_now = now, dr_waits = waits\<rparr>"

definition add_group :: "('s, 'm) engine_env \<Rightarrow> group_id \<Rightarrow> node_config \<Rightarrow> 's \<Rightarrow> 'm \<Rightarrow> (unit, 's, 'm) drv" where
  "add_group V gid config storage sm dr =
    (if registry_get gid (dr_groups dr) \<noteq> None then (Some (Inl (Protocol (''duplicate group id '' @ show_u64 gid))), dr)
     else let dr = dr\<lparr>dr_demux := demux_register gid (dr_demux dr)\<rparr> in
       case raft_node_new (e_store (ee_node V)) config storage of
         (Inl err, _) \<Rightarrow> (Some (Inl err), dr\<lparr>dr_demux := demux_unregister gid (dr_demux dr)\<rparr>)
       | (Inr n, _) \<Rightarrow>
           (case registry_insert gid \<lparr>ge_node = n, ge_sm = sm, ge_scratch = no_scratch\<rparr> (dr_groups dr) of
              (Inl err, _) \<Rightarrow> (Some (Inl err), dr\<lparr>dr_demux := demux_unregister gid (dr_demux dr)\<rparr>)
            | (Inr _, gs) \<Rightarrow>
                (Some (Inr ()), dr\<lparr>dr_groups := gs, dr_timers := pm_insert gid
                   (group_timers_new (dr_now dr) gid (cfg_node_id config) (cfg_timing config)) (dr_timers dr)\<rparr>)))"

definition remove_group :: "group_id \<Rightarrow> ('s, 'm) driver \<Rightarrow> (('s raft_node \<times> 'm) \<times> scratch_lens) option \<times> ('s, 'm) driver" where
  "remove_group gid dr =
    (case registry_remove gid (dr_groups dr) of
       (None, _) \<Rightarrow> (None, dr)
     | (Some removed, gs) \<Rightarrow>
         (Some (removed, standard_scratch), dr\<lparr>dr_groups := gs, dr_demux := demux_unregister gid (dr_demux dr),
            dr_timers := pm_remove gid (dr_timers dr)\<rparr>))"

definition unknown_group_frames :: "('s, 'm) driver \<Rightarrow> u64" where
  "unknown_group_frames dr = dr_unknown_group_frames dr + dx_unknown_group (dr_demux dr)"

definition group_idle_scratch_bytes :: "group_id \<Rightarrow> ('s, 'm) driver \<Rightarrow> nat option" where
  "group_idle_scratch_bytes gid dr =
     map_option (\<lambda>entry. sl_payload (ge_scratch entry) + sl_outbound (ge_scratch entry) + sl_quorum (ge_scratch entry))
       (pm_get gid (dr_groups dr))"

definition ensure_resident :: "('s, 'm) driver \<Rightarrow> ('s, 'm) driver" where
  "ensure_resident dr =
    (let s = dr_scratch dr in
     dr\<lparr>dr_scratch := \<lparr>sl_payload = (if sl_payload s < PAYLOAD_SCRATCH then PAYLOAD_SCRATCH else sl_payload s),
        sl_outbound = (if sl_outbound s < OUTBOUND_SCRATCH then OUTBOUND_SCRATCH else sl_outbound s),
        sl_quorum = (if sl_quorum s < QUORUM_SCRATCH then QUORUM_SCRATCH else sl_quorum s)\<rparr>\<rparr>)"

definition set_entry :: "group_id \<Rightarrow> ('s, 'm) group_entry \<Rightarrow> ('s, 'm) driver \<Rightarrow> ('s, 'm) driver" where
  "set_entry gid entry dr = dr\<lparr>dr_groups := pm_insert gid entry (dr_groups dr)\<rparr>"

text \<open>Swapping the buffers of the driver with those of a group; the same swap lends them and takes them back.\<close>

definition lend :: "group_id \<Rightarrow> ('s, 'm) driver \<Rightarrow> ('s, 'm) driver" where
  "lend gid dr =
    (case pm_get gid (dr_groups dr) of
       None \<Rightarrow> dr
     | Some entry \<Rightarrow> set_entry gid (entry\<lparr>ge_scratch := dr_scratch dr\<rparr>) (dr\<lparr>dr_scratch := ge_scratch entry\<rparr>))"

text \<open>The receive calls of a group, answered through its wrapper of the shared transport.\<close>

fun wrapper_answers :: "group_id \<Rightarrow> (nat \<times> recv_event list) list \<Rightarrow> demux \<Rightarrow> recv_event list \<times> demux" where
  "wrapper_answers gid [] d = ([], d)"
| "wrapper_answers gid ((deadline, evs) # calls) d =
    (case mux_recv_timeout gid deadline MAX_FRAME_SIZE evs d of
       (r, d, _) \<Rightarrow>
         (case wrapper_answers gid calls d of
            (answers, d) \<Rightarrow>
              (\<lparr>ev_now = (case evs of [] \<Rightarrow> deadline | ev # _ \<Rightarrow> ev_now ev), ev_recv = r\<rparr> # answers, d)))"

definition next_driver_wait :: "('s, 'm) driver \<Rightarrow> driver_wait \<times> ('s, 'm) driver" where
  "next_driver_wait dr =
    (case dr_waits dr of
       [] \<Rightarrow> (\<lparr>dw_now = dr_now dr, dw_calls = [], dw_end = dr_now dr\<rparr>, dr)
     | w # ws \<Rightarrow> (w, dr\<lparr>dr_waits := ws\<rparr>))"

text \<open>A waiting call of one group, with the driver's buffers.\<close>

definition group_await :: "('s, 'm) engine_env \<Rightarrow> group_id \<Rightarrow>
    ('s raft_env \<Rightarrow> recv_event list \<Rightarrow> 's raft_node \<Rightarrow> 'a result option \<times> 's raft_node) \<Rightarrow> ('a, 's, 'm) drv" where
  "group_await V gid f dr =
    (case next_driver_wait dr of
       (w, dr) \<Rightarrow>
         (case pm_get gid (dr_groups dr) of
            None \<Rightarrow> (Some (Inl (Protocol (''no group '' @ show_u64 gid @ '' in driver''))), dr)
          | Some entry \<Rightarrow>
              (case wrapper_answers gid (dw_calls w) (dr_demux dr) of
                 (answers, demux) \<Rightarrow>
                   (case f ((ee_node V)\<lparr>e_now := dw_now w\<rparr>) answers (ge_node entry) of
                      (r, n) \<Rightarrow> (r, (set_entry gid (entry\<lparr>ge_node := n\<rparr>) dr)\<lparr>dr_demux := demux, dr_now := dw_end w\<rparr>)))))"

definition group_campaign :: "('s, 'm) engine_env \<Rightarrow> group_id \<Rightarrow> (bool, 's, 'm) drv" where
  "group_campaign V gid = group_await V gid (\<lambda>E evs n.
     case campaign_once E (ee_custom V) MAX_FRAME_SIZE evs n of (r, n) \<Rightarrow> (Some r, n))"

definition group_pre_vote :: "('s, 'm) engine_env \<Rightarrow> group_id \<Rightarrow> (bool, 's, 'm) drv" where
  "group_pre_vote V gid = group_await V gid (\<lambda>E evs n.
     case campaign_pre_vote E (ee_custom V) MAX_FRAME_SIZE evs n of (r, n) \<Rightarrow> (Some r, n))"

definition group_heartbeat :: "('s, 'm) engine_env \<Rightarrow> group_id \<Rightarrow> (unit, 's, 'm) drv" where
  "group_heartbeat V gid = group_await V gid (\<lambda>E evs n.
     case send_heartbeat_once E (ee_custom V) (n, [], evs) of (r, n, _) \<Rightarrow> (r, n))"

definition group_propose :: "('s, 'm) engine_env \<Rightarrow> group_id \<Rightarrow> bytes \<Rightarrow> (log_index, 's, 'm) drv" where
  "group_propose V gid payload = group_await V gid (\<lambda>E evs n.
     case propose_once E (ee_custom V) (ee_tuning V) payload n evs of (r, n, _) \<Rightarrow> (Some r, n))"

text \<open>The buffers go back to the driver however the call ends.\<close>

definition lending :: "group_id \<Rightarrow> ('a, 's, 'm) drv \<Rightarrow> ('a, 's, 'm) drv" where
  "lending gid m dr = (case m (lend gid dr) of (r, dr) \<Rightarrow> (r, lend gid dr))"

definition upd_timers :: "group_id \<Rightarrow> (nat \<Rightarrow> group_timers \<Rightarrow> group_timers) \<Rightarrow> ('s, 'm) driver \<Rightarrow> ('s, 'm) driver" where
  "upd_timers gid f dr = dr\<lparr>dr_timers := pm_modify gid (f (dr_now dr)) (dr_timers dr)\<rparr>"

section \<open>Applying the entries of a group\<close>

primrec apply_group_loop :: "('s, 'm) engine_env \<Rightarrow> nat \<Rightarrow> nat \<Rightarrow> log_index \<Rightarrow> (unit, 'm \<times> 's raft_node) raft_op" where
  "apply_group_loop V now 0 idx st = (Inr (), st)"
| "apply_group_loop V now (Suc k) idx st =
    (case st of (sm, n) \<Rightarrow>
       case with_storage (so_entry_at (e_store (ee_node V)) idx PAYLOAD_SCRATCH) n of
         (Inl err, n) \<Rightarrow> (Inl err, sm, n)
       | (Inr None, n) \<Rightarrow> (Inr (), sm, n)
       | (Inr (Some entry), n) \<Rightarrow>
           (case apply_if_config_change ((ee_node V)\<lparr>e_now := now\<rparr>) (entry_payload entry) n of
              (Inl err, n) \<Rightarrow> (Inl err, sm, n)
            | (Inr consumed, n) \<Rightarrow>
                (case (if consumed then (Inr (), sm) else sm_apply_at (ee_sm V) idx (entry_payload entry) sm) of
                   (Inl err, sm) \<Rightarrow> (Inl err, sm, n)
                 | (Inr _, sm) \<Rightarrow>
                     apply_group_loop V now k (idx + 1) (sm, mark_applied idx (length (entry_payload entry)) n))))"

definition apply_group :: "('s, 'm) engine_env \<Rightarrow> nat \<Rightarrow> (unit, 'm \<times> 's raft_node) raft_op" where
  "apply_group V now st =
     bind_op (restore_state_machine_from_snapshot ((ee_node V)\<lparr>e_now := now\<rparr>) (sm_restore (ee_sm V)) st) (\<lambda>_ (sm, n).
     bind_op (let commit = commit_index n; idx = n_last_applied n + 1 in
        apply_group_loop V now (if idx \<le> commit then unat commit - unat idx + 1 else 0) idx (sm, n)) (\<lambda>_ (sm, n).
       case maybe_compact ((ee_node V)\<lparr>e_now := now\<rparr>) (sm_snapshot (ee_sm V) sm) n of
         (r, n) \<Rightarrow> (map_sum id (\<lambda>_. ()) r, sm, n)))"

section \<open>Frames\<close>

definition step_frame :: "('s, 'm) engine_env \<Rightarrow> nat \<Rightarrow> bytes \<Rightarrow> (unit, 's raft_node) raft_op" where
  "step_frame V now frame n =
    (case decode_message frame of
       Inl _ \<Rightarrow> (Inr (), inc_frames_dropped_nonfatal n)
     | Inr m \<Rightarrow>
         (case handle_inbound ((ee_node V)\<lparr>e_now := now\<rparr>) (ee_custom V) m n of
            (Inr _, n) \<Rightarrow> (Inr (), n)
          | (Inl err, n) \<Rightarrow> if is_fatal err then (Inl err, n) else (Inr (), inc_frames_dropped_nonfatal n)))"

definition after_step :: "('s, 'm) engine_env \<Rightarrow> nat \<Rightarrow> (unit, 'm \<times> 's raft_node) raft_op" where
  "after_step V now = (\<lambda>(sm, n).
    (case (if is_leader n then try_advance_commit_index ((ee_node V)\<lparr>e_now := now\<rparr>) n else (Inr (), n)) of
       (Inl err, n) \<Rightarrow> (Inl err, sm, n)
     | (Inr _, n) \<Rightarrow> apply_group V now (sm, n)))"

definition dispatch_frame :: "('s, 'm) engine_env \<Rightarrow> group_id \<Rightarrow> bytes \<Rightarrow> (unit, 's, 'm) drv" where
  "dispatch_frame V gid frame dr =
    (case pm_get gid (dr_groups dr) of
       None \<Rightarrow> (Some (Inr ()), dr\<lparr>dr_unknown_group_frames := dr_unknown_group_frames dr + 1\<rparr>)
     | Some entry \<Rightarrow>
         let now = dr_now dr; (stp, n) = step_frame V now frame (ge_node entry);
             (post, sm, n) = (case stp of Inr _ \<Rightarrow> after_step V now (ge_sm entry, n) | Inl _ \<Rightarrow> (Inr (), ge_sm entry, n));
             (forced, n) = take_forced_campaign n;
             dr = set_entry gid (entry\<lparr>ge_node := n, ge_sm := sm\<rparr>) dr;
             dr = upd_timers gid (\<lambda>now t.
               let t = reset_election now t in
               if forced then t\<lparr>gt_next_election := now, gt_forced_campaign := True\<rparr> else t) dr
         in (Some (case stp of Inl err \<Rightarrow> Inl err | Inr _ \<Rightarrow> post), dr))"

definition route_raw :: "('s, 'm) engine_env \<Rightarrow> bytes \<Rightarrow> (unit, 's, 'm) drv" where
  "route_raw V frame dr =
    (case frame_group frame of
       Some gid \<Rightarrow> lending gid (dispatch_frame V gid frame) dr
     | None \<Rightarrow> (Some (Inr ()), dr\<lparr>dr_unknown_group_frames := dr_unknown_group_frames dr + 1\<rparr>))"

text \<open>Draining the parked frames, at most \<open>k\<close> of them.\<close>

primrec drain_parked :: "('s, 'm) engine_env \<Rightarrow> nat \<Rightarrow> nat \<Rightarrow> (nat, 's, 'm) drv" where
  "drain_parked V 0 processed = eng_return processed"
| "drain_parked V (Suc k) processed = (\<lambda>dr.
    (case pop_parked_into MAX_FRAME_SIZE (dr_demux dr) of
       (Inl err, d) \<Rightarrow> (Some (Inl err), dr\<lparr>dr_demux := d\<rparr>)
     | (Inr None, d) \<Rightarrow> (Some (Inr processed), dr\<lparr>dr_demux := d\<rparr>)
     | (Inr (Some (gid, frame)), d) \<Rightarrow>
         eng_bind (lending gid (dispatch_frame V gid frame)) (\<lambda>_. drain_parked V k (processed + 1)) (dr\<lparr>dr_demux := d\<rparr>)))"

text \<open>A receive call of the driver itself, on the shared transport.\<close>

definition shared_recv :: "(bytes option, 's, 'm) drv" where
  "shared_recv dr =
    (case next_driver_wait dr of
       (w, dr) \<Rightarrow>
         (Some (case dw_calls w of (_, ev # _) # _ \<Rightarrow> ev_recv ev | _ \<Rightarrow> Inr None), dr\<lparr>dr_now := dw_end w\<rparr>))"

definition tolerant_recv :: "(bytes option, 's, 'm) drv" where
  "tolerant_recv = eng_match shared_recv (\<lambda>r.
     case r of Inr frame \<Rightarrow> eng_return frame | Inl err \<Rightarrow> if is_fatal err then eng_throw err else eng_return None)"

primrec drain_shared :: "('s, 'm) engine_env \<Rightarrow> nat \<Rightarrow> nat \<Rightarrow> (nat, 's, 'm) drv" where
  "drain_shared V 0 processed = eng_return processed"
| "drain_shared V (Suc k) processed =
     eng_bind tolerant_recv (\<lambda>frame.
       case frame of
         None \<Rightarrow> eng_return processed
       | Some frame \<Rightarrow> eng_bind (route_raw V frame) (\<lambda>_. drain_shared V k (processed + 1)))"

section \<open>Elections and timers\<close>

definition run_election :: "('s, 'm) engine_env \<Rightarrow> group_id \<Rightarrow> bool \<Rightarrow> (bool, 's, 'm) drv" where
  "run_election V gid forced =
    (if forced then group_campaign V gid
     else eng_match (group_pre_vote V gid) (\<lambda>r.
       case r of
         Inr True \<Rightarrow> group_campaign V gid
       | Inr False \<Rightarrow> eng_return False
       | Inl err \<Rightarrow> if err \<noteq> NoQuorum \<and> is_fatal err then eng_throw err else eng_return False))"

text \<open>Only a fatal error of a heartbeat or an election leaves the tick.\<close>

definition tolerate :: "('a, 's, 'm) drv \<Rightarrow> (unit, 's, 'm) drv" where
  "tolerate m = eng_match m (\<lambda>r.
     case r of Inr _ \<Rightarrow> eng_return () | Inl err \<Rightarrow> if is_fatal err then eng_throw err else eng_return ())"

definition tick_heartbeat :: "('s, 'm) engine_env \<Rightarrow> group_id \<Rightarrow> (unit, 's, 'm) drv" where
  "tick_heartbeat V gid dr =
    (case pm_get gid (dr_groups dr) of
       None \<Rightarrow> (Some (Inr ()), dr)
     | Some entry \<Rightarrow>
         if \<not> check_quorum_active (dr_now dr) (ge_node entry)
         then (case step_down ((ee_node V)\<lparr>e_now := dr_now dr\<rparr>) (node_term (ge_node entry)) (ge_node entry) of
            (r, n) \<Rightarrow> (Some r, set_entry gid (entry\<lparr>ge_node := n\<rparr>) dr))
         else tolerate (lending gid (group_heartbeat V gid)) dr)"

text \<open>An election and, when it is won, the first heartbeat, under one lend.\<close>

definition elect_and_announce :: "('s, 'm) engine_env \<Rightarrow> group_id \<Rightarrow> bool \<Rightarrow> (bool result \<times> unit result, 's, 'm) drv" where
  "elect_and_announce V gid forced =
     lending gid (eng_match (run_election V gid forced) (\<lambda>res.
       case res of
         Inr True \<Rightarrow> eng_match (group_heartbeat V gid) (\<lambda>hb. eng_return (res, hb))
       | _ \<Rightarrow> eng_return (res, Inr ())))"

definition tick_election :: "('s, 'm) engine_env \<Rightarrow> group_id \<Rightarrow> bool \<Rightarrow> (unit, 's, 'm) drv" where
  "tick_election V gid forced =
     eng_bind (elect_and_announce V gid forced) (\<lambda>(res, hb).
     eng_bind (eng_do (upd_timers gid (\<lambda>now t.
        let t = reset_election now t in if res = Inr True then reset_heartbeat now t else t))) (\<lambda>_.
       case res of
         Inl err \<Rightarrow> if is_fatal err then eng_throw err else eng_return ()
       | Inr _ \<Rightarrow> (case hb of Inl err \<Rightarrow> if is_fatal err then eng_throw err else eng_return () | Inr _ \<Rightarrow> eng_return ())))"

definition tick_group :: "('s, 'm) engine_env \<Rightarrow> nat \<Rightarrow> group_id \<Rightarrow> (unit, 's, 'm) drv" where
  "tick_group V now gid dr =
    (case (pm_get gid (dr_groups dr), pm_get gid (dr_timers dr)) of
       (Some entry, Some t) \<Rightarrow>
         let leader = is_leader (ge_node entry) in
         eng_bind (\<lambda>dr.
            if now \<ge> gt_next_heartbeat t
            then let dr = upd_timers gid reset_heartbeat dr in if leader then tick_heartbeat V gid dr else (Some (Inr ()), dr)
            else (Some (Inr ()), dr)) (\<lambda>_ dr.
          if \<not> leader \<and> now \<ge> gt_next_election t
          then tick_election V gid (gt_forced_campaign t)
            (upd_timers gid (\<lambda>now t. reset_election now (t\<lparr>gt_forced_campaign := False\<rparr>)) dr)
          else (Some (Inr ()), dr)) dr
     | _ \<Rightarrow> (Some (Inr ()), dr))"

fun tick_groups :: "('s, 'm) engine_env \<Rightarrow> nat \<Rightarrow> group_id list \<Rightarrow> (unit, 's, 'm) drv" where
  "tick_groups V now [] = eng_return ()"
| "tick_groups V now (gid # gids) = eng_bind (tick_group V now gid) (\<lambda>_. tick_groups V now gids)"

definition due_groups :: "nat \<Rightarrow> group_timers peer_map \<Rightarrow> group_id list" where
  "due_groups now ts = map fst (filter (\<lambda>(_, t). now \<ge> gt_next_heartbeat t \<or> now \<ge> gt_next_election t) ts)"

definition tick_timers :: "('s, 'm) engine_env \<Rightarrow> (unit, 's, 'm) drv" where
  "tick_timers V dr = tick_groups V (dr_now dr) (due_groups (dr_now dr) (dr_timers dr)) dr"

section \<open>Operations of the driver\<close>

definition driver_campaign :: "('s, 'm) engine_env \<Rightarrow> group_id \<Rightarrow> (bool, 's, 'm) drv" where
  "driver_campaign V gid dr =
    (if \<not> pm_contains_key gid (dr_groups dr)
     then (Some (Inl (Protocol (''no group '' @ show_u64 gid @ '' in driver''))), ensure_resident dr)
     else eng_bind (elect_and_announce V gid True) (\<lambda>(res, hb).
       eng_bind (eng_do (upd_timers gid (\<lambda>now t. reset_heartbeat now (reset_election now t)))) (\<lambda>_.
         case res of
           Inl err \<Rightarrow> eng_throw err
         | Inr elected \<Rightarrow> (case hb of Inl err \<Rightarrow> eng_throw err | Inr _ \<Rightarrow> eng_return elected))) (ensure_resident dr))"

definition apply_in_driver :: "('s, 'm) engine_env \<Rightarrow> group_id \<Rightarrow> (unit, 's, 'm) drv" where
  "apply_in_driver V gid dr =
    (case pm_get gid (dr_groups dr) of
       None \<Rightarrow> (Some (Inr ()), dr)
     | Some entry \<Rightarrow>
         (case apply_group V (dr_now dr) (ge_sm entry, ge_node entry) of
            (r, sm, n) \<Rightarrow> (Some r, set_entry gid (entry\<lparr>ge_node := n, ge_sm := sm\<rparr>) dr)))"

definition driver_propose :: "('s, 'm) engine_env \<Rightarrow> group_id \<Rightarrow> bytes \<Rightarrow> (log_index, 's, 'm) drv" where
  "driver_propose V gid payload dr =
    (case reject_reserved_prefix payload of
       Inl err \<Rightarrow> (Some (Inl err), dr)
     | Inr _ \<Rightarrow>
         if \<not> pm_contains_key gid (dr_groups dr)
         then (Some (Inl (Protocol (''no group '' @ show_u64 gid @ '' in driver''))), ensure_resident dr)
         else lending gid (eng_bind (group_propose V gid payload) (\<lambda>idx.
           eng_bind (apply_in_driver V gid) (\<lambda>_. eng_return idx))) (ensure_resident dr))"

text \<open>The wait of an idle tick: until the caller's bound or the earliest deadline.\<close>

definition idle_wait :: "nat \<Rightarrow> nat \<Rightarrow> group_timers peer_map \<Rightarrow> nat" where
  "idle_wait max_wait now ts =
     fold (\<lambda>(_, t) wait. min (min wait (gt_next_heartbeat t - now)) (gt_next_election t - now)) ts max_wait"

definition driver_run_once :: "('s, 'm) engine_env \<Rightarrow> nat \<Rightarrow> (nat, 's, 'm) drv" where
  "driver_run_once V max_wait dr =
     eng_bind (drain_parked V BURST_FRAMES 0) (\<lambda>processed.
     eng_bind (drain_shared V (BURST_FRAMES - processed) processed) (\<lambda>processed.
     eng_bind (\<lambda>dr.
        if processed = 0 \<and> max_wait > 0 \<and> idle_wait max_wait (dr_now dr) (dr_timers dr) > 0
        then eng_bind tolerant_recv (\<lambda>frame.
          case frame of None \<Rightarrow> eng_return 0 | Some frame \<Rightarrow> eng_bind (route_raw V frame) (\<lambda>_. eng_return 1)) dr
        else (Some (Inr processed), dr)) (\<lambda>processed.
     eng_bind (tick_timers V) (\<lambda>_. eng_return processed)))) (ensure_resident dr)"

end
