(* ===== verification/Engine_Props.thy ===== *)
theory Engine_Props
  imports Engine_Apply Wire_Props
begin

text \<open>
  Properties of the execution loop: commit notifications, what a client payload can
  be, what an inbound frame can do to the engine, and how a tick ends when the
  storage is exhausted.
\<close>

section \<open>Commit notifications\<close>

lemma mset_swap_remove_nth: "i < length ws \<Longrightarrow> mset ws = add_mset (ws ! i) (mset (swap_remove i ws))"
  using mset_swap_remove [of i ws] id_take_nth_drop [of i ws] by (metis add_mset_add_single mset_append
      mset.simps(2) union_mset_add_mset_right)

lemma nth_swap_remove: "j < i \<Longrightarrow> i < length ws \<Longrightarrow> swap_remove i ws ! j = ws ! j"
  by (simp add: swap_remove_def nth_butlast)

lemma drain_partial_spec:
  assumes "drain_partial commit i ws r = (ws', r')" and "\<forall>j<i. \<not> cw_index (ws ! j) \<le> commit" and "i \<le> length ws"
  shows "\<exists>us. mset us = filter_mset (\<lambda>w. cw_index w \<le> commit) (mset ws) \<and> r' = fold resolve_committed us r \<and>
    mset ws' = filter_mset (\<lambda>w. \<not> cw_index w \<le> commit) (mset ws)"
  using assms
proof (induction commit i ws r rule: drain_partial.induct)
  case (1 commit i ws r)
  show ?case
  proof (cases "i < length ws")
    case False
    then have "\<forall>w\<in>set ws. \<not> cw_index w \<le> commit" using 1(4,5) by (metis in_set_conv_nth le_antisym not_le)
    moreover have "ws' = ws" "r' = r" using 1(3) False by (simp_all add: drain_partial.simps [of commit i ws])
    ultimately show ?thesis
      by (intro exI [of _ "[]"]) (simp flip: mset_filter add: filter_empty_conv)
  next
    case i: True
    show ?thesis
    proof (cases "cw_index (ws ! i) \<le> commit")
      case True
      have step: "drain_partial commit i (swap_remove i ws) (resolve_committed (ws ! i) r) = (ws', r')"
        using 1(3) i True by (simp add: drain_partial.simps [of commit i ws])
      have "\<forall>j<i. \<not> cw_index (swap_remove i ws ! j) \<le> commit" using 1(4) i by (simp add: nth_swap_remove)
      moreover have "i \<le> length (swap_remove i ws)" using i by (simp add: swap_remove_def)
      ultimately obtain us where us: "mset us = filter_mset (\<lambda>w. cw_index w \<le> commit) (mset (swap_remove i ws))"
          "r' = fold resolve_committed us (resolve_committed (ws ! i) r)"
          "mset ws' = filter_mset (\<lambda>w. \<not> cw_index w \<le> commit) (mset (swap_remove i ws))"
        using 1(1) [OF i True step] by blast
      then show ?thesis using True mset_swap_remove_nth [OF i] by (intro exI [of _ "ws ! i # us"]) simp
    next
      case False
      have "drain_partial commit (i + 1) ws r = (ws', r')"
        using 1(3) i False by (simp add: drain_partial.simps [of commit i ws])
      from 1(2) [OF i False this] show ?thesis using 1(4) i False by (simp add: less_Suc_eq) 
    qed
  qed
qed

text \<open>
  (C38) A commit answers exactly the committed writes.  When the waiters are in log
  order, resolving them answers each waiter up to the commit index with its own
  index, once, and keeps all the others; a writer still waits afterwards exactly if
  it waited before and its entry is not committed.
\<close>

theorem drain_answers_committed:
  assumes "sorted (map cw_index (en_commit_waiters e))"
  shows "\<exists>us. mset us = filter_mset (\<lambda>w. cw_index w \<le> commit_index (en_node e)) (mset (en_commit_waiters e)) \<and>
    en_registry (drain_commit_waiters e) = fold (\<lambda>w. notify_committed (cw_slot_id w) (cw_index w)) us (en_registry e) \<and>
    mset (en_commit_waiters (drain_commit_waiters e)) =
      filter_mset (\<lambda>w. \<not> cw_index w \<le> commit_index (en_node e)) (mset (en_commit_waiters e)) \<and>
    (\<forall>sid. waiting sid (en_registry (drain_commit_waiters e)) =
      (waiting sid (en_registry e) \<and> sid \<notin> cw_slot_id ` set us))"
proof -
  let ?ws = "en_commit_waiters e" and ?c = "commit_index (en_node e)"
  obtain ws r where p: "drain_partial ?c 0 ?ws (en_registry e) = (ws, r)" by fastforce
  have "\<exists>us. mset us = filter_mset (\<lambda>w. cw_index w \<le> ?c) (mset ?ws) \<and>
      en_registry (drain_commit_waiters e) = fold resolve_committed us (en_registry e) \<and>
      mset (en_commit_waiters (drain_commit_waiters e)) = filter_mset (\<lambda>w. \<not> cw_index w \<le> ?c) (mset ?ws)"
  proof (cases "?ws \<noteq> [] \<and> cw_index (last ?ws) \<le> ?c")
    case True
    have "\<forall>w\<in>set ?ws. cw_index w \<le> cw_index (last ?ws)"
      using assms True by (cases ?ws rule: rev_cases) (auto simp: sorted_append)
    then have "\<forall>w\<in>set ?ws. cw_index w \<le> ?c" using True by (meson order_trans)
    then show ?thesis using True
      by (intro exI [of _ ?ws]) (simp flip: mset_filter add: drain_commit_waiters_def filter_empty_conv filter_id_conv)
  next
    case False
    then show ?thesis using drain_partial_spec [OF p] p by (auto simp: drain_commit_waiters_def Let_def)
  qed
  then show ?thesis by (auto simp: resolve_committed_def [abs_def])
qed

text \<open>
  The partial drain does not keep the order it relies on.  With the entries 1, 2 and 3
  waiting, a commit of entry 1 leaves the waiters of 3 and 2 in this order, and the
  commit of entry 2 then answers the writer of entry 3, which is not committed.
\<close>

lemma partial_drain_answers_uncommitted:
  assumes "en_commit_waiters e = [\<lparr>cw_index = 1, cw_slot_id = a\<rparr>, \<lparr>cw_index = 2, cw_slot_id = b\<rparr>, \<lparr>cw_index = 3, cw_slot_id = c\<rparr>]"
    and "commit_index (en_node e) = 1" and "c \<noteq> a" and "c \<noteq> b" and "waiting c (en_registry e)"
    and "e' = drain_commit_waiters (upd_node (set_commit_index 2) (drain_commit_waiters e))"
  shows "commit_index (en_node e') = 2 \<and> fst (poll f g c (en_registry e')) = Some (Inr 3)"
proof -
  have cmp: "\<not> (2 :: u64) \<le> 1" "\<not> (3 :: u64) \<le> 1" by (simp_all add: word_nat_le)
  have one: "drain_commit_waiters e = e\<lparr>en_registry := notify_committed a 1 (en_registry e),
      en_commit_waiters := [\<lparr>cw_index = 3, cw_slot_id = c\<rparr>, \<lparr>cw_index = 2, cw_slot_id = b\<rparr>]\<rparr>"
    using assms(1,2) cmp
    by (simp add: drain_commit_waiters_def drain_partial.simps [of 1 0] drain_partial.simps [of 1 "Suc 0"]
        drain_partial.simps [of 1 "Suc (Suc 0)"] swap_remove_def resolve_committed_def Let_def)
  let ?r = "notify_committed c 3 (notify_committed a 1 (en_registry e))"
  have e': "en_registry e' = notify_committed b 2 ?r" "commit_index (en_node e') = 2"
    unfolding assms(6) one
    by (simp_all add: drain_commit_waiters_def upd_node_def set_commit_index_def resolve_committed_def)
  have w: "waiting c (notify_committed a 1 (en_registry e))" using assms(3,5) by simp
  have "slot_state (arena (en_registry e') ! slot_index c) = slot_state (arena ?r ! slot_index c)"
    using assms(4) w unfolding e'
    by (auto simp: notify_committed_def waiting_def is_current_def slot_id_eq_iff [of c] store_committed_def wake_def on_slot_def nth_list_update)
  then have st: "slot_state (arena (en_registry e') ! slot_index c) = or TAG_COMMITTED (and 3 INDEX_MASK)"
    using notified(1) [OF w, of 3] by (simp add: store_committed_def wake_def)
  have "(3 :: u64) \<le> INDEX_MASK" by (simp add: INDEX_MASK_def TAG_COMMITTED_def word_nat_le)
  then show ?thesis using poll_stored [of "en_registry e'" c f g] e'(2) decode_committed [of 3] unfolding st by simp
qed


theorem drain_answers_committed_witness:
  "let e = sample_engine\<lparr>en_commit_waiters := [\<lparr>cw_index = 0, cw_slot_id = 4\<rparr>, \<lparr>cw_index = 6, cw_slot_id = 5\<rparr>]\<rparr> in
   mset (en_commit_waiters (drain_commit_waiters e)) = {#\<lparr>cw_index = 6, cw_slot_id = 5\<rparr>#}"
proof -
  let ?e = "sample_engine\<lparr>en_commit_waiters := [\<lparr>cw_index = 0, cw_slot_id = 4\<rparr>, \<lparr>cw_index = 6, cw_slot_id = 5\<rparr>]\<rparr>"
  have "commit_index (en_node ?e) = 0"
    by (simp add: sample_engine_def engine_new_def reset_heartbeat_deadline_def reset_election_deadline_def sample_node_def
        fresh_node_def split: prod.split)
  then show ?thesis using drain_answers_committed [of ?e] by auto
qed

section \<open>What a client can put into the log\<close>

lemma accepted_payload:
  assumes "reject_reserved_prefix p = Inr ()"
  shows "length p \<le> MAX_ENTRY_PAYLOAD \<and> apply_if_config_change E p n = (Inr False, n)"
proof -
  have "length p \<le> MAX_ENTRY_PAYLOAD" "p = [] \<or> hd p \<noteq> CONFIG_CHANGE_MAGIC"
    using assms by (auto simp: reject_reserved_prefix_def split: if_splits)
  then show ?thesis
    by (cases p) (auto simp: apply_if_config_change_def is_noop_entry_def noop_entry_def config_change_decode_def
        CONFIG_CHANGE_MAGIC_def)
qed

text \<open>
  (C39) A client can neither forge a control entry nor outgrow a frame.  Whatever the
  life of the engine, a payload in the mailbox or the batch is never taken for a
  membership change or the internal no-op when it is applied, on any node, and an
  append with it alone fits the receive buffer of a peer; a payload that fails the
  check is refused and leaves the engine as it was.
\<close>

theorem client_payloads_are_data:
  assumes "engine_life V e"
    and "p \<in> cp_payload ` set (mb_queue (en_mailbox e)) \<union> set (en_pending_batch e)"
    and "encode_message_to_bytes from (AppendEntriesVectored req [\<lparr>entry_term = t, entry_index = i, entry_payload = p\<rparr>]) = Inr frame"
    and "reject_reserved_prefix q = Inl err"
  shows "apply_if_config_change E p n = (Inr False, n) \<and> length frame \<le> MAX_FRAME_SIZE \<and>
    raft_propose_once V q e = (Some (Inl err), e) \<and> client_step (Write q) e = e"
proof -
  have "reject_reserved_prefix p = Inr ()"
    using engine_life_clients_ok [OF assms(1)] assms(2) by (auto simp: clients_ok_def tables_ok_def)
  note ok = accepted_payload [OF this]
  have "length frame = 32 + 48 + 24 + length p"
    using assms(3) by (auto simp: encode_message_to_bytes_def elim!: bind_res_InrE)
  moreover have "length p \<le> MAX_ENTRY_PAYLOAD" using ok by blast
  ultimately have "length frame \<le> MAX_FRAME_SIZE" by (simp add: MAX_ENTRY_PAYLOAD_def MAX_FRAME_SIZE_def)
  moreover have "client_step (Write q) e = e" using assms(4) by (simp add: write_bytes_def)
  ultimately show ?thesis using ok [of E n] assms(4) by (simp add: raft_propose_once_def eng_throw_def)
qed

lemma lease_fresh: "0 < cap \<Longrightarrow> \<exists>r. lease (slot_registry_new cap) = (Some (slot_id_new 0 1), r)"
  by (simp add: lease_def slot_registry_new_def upt_conv_Cons claim_def bump_slot_def on_slot_def Let_def)

lemma sample_engine_write:
  "mb_queue (en_mailbox (client_step (Write [7]) sample_engine)) = [\<lparr>cp_payload = [7], cp_slot_id = slot_id_new 0 1\<rparr>]"
proof -
  obtain r where "lease (slot_registry_new 65536) = (Some (slot_id_new 0 1), r)" using lease_fresh [of 65536] by auto
  then show ?thesis
    by (simp add: sample_engine_def engine_new_def reset_heartbeat_deadline_def reset_election_deadline_def write_bytes_def
        try_send_def reject_reserved_prefix_def MAX_ENTRY_PAYLOAD_def MAX_FRAME_SIZE_def CONFIG_CHANGE_MAGIC_def split: prod.split)
qed

theorem client_payloads_are_data_witness:
  "let e = client_step (Write [7]) sample_engine in
   apply_if_config_change sample_env [7] (sample_node 2) = (Inr False, sample_node 2) \<and>
   raft_propose_once sample_engine_env [CONFIG_CHANGE_MAGIC] e =
     (Some (Inl (InvalidPayload ''payload first byte collides with reserved config-change magic (0xC0)'')), e)"
proof -
  let ?e = "client_step (Write [7]) sample_engine"
  let ?req = "\<lparr>ae_term = 1, ae_leader_id = 1, ae_prev_log_index = 0, ae_prev_log_term = 0, ae_leader_commit = 0,
      ae_entry_count = 1, ae_pad = 0\<rparr>"
  have life: "engine_life sample_engine_env ?e" unfolding sample_engine_def by (intro engine_life.client engine_life.start)
  obtain frame where f: "encode_message_to_bytes 1 (AppendEntriesVectored ?req
      [\<lparr>entry_term = 1, entry_index = 1, entry_payload = [7]\<rparr>]) = Inr frame"
    by (simp add: encode_message_to_bytes_def wire_len_u32_def)
  have "reject_reserved_prefix [CONFIG_CHANGE_MAGIC] =
      Inl (InvalidPayload ''payload first byte collides with reserved config-change magic (0xC0)'')"
    by (simp add: reject_reserved_prefix_def MAX_ENTRY_PAYLOAD_def MAX_FRAME_SIZE_def)
  from client_payloads_are_data [OF life _ f this, of sample_env "sample_node 2"] sample_engine_write
  show ?thesis by (simp add: Let_def)
qed

section \<open>What a frame can do to the engine\<close>

text \<open>
  (C40) One bad frame cannot stop or change a node.  Handling an inbound frame fails
  only with a fatal error of the local storage and touches nothing of the engine but
  the node and the abuse accounts; a frame that does not decode, or that comes from
  a jailed sender, changes nothing of the node but its counters.
\<close>

theorem bad_frames_are_contained:
  assumes "dispatch_inbound V frame e = (r, e')"
  shows "(r = Some (Inr ()) \<or> (\<exists>err. r = Some (Inl err) \<and> is_fatal err)) \<and>
    e' = e\<lparr>en_node := en_node e', en_abuse := en_abuse e'\<rparr> \<and>
    ((\<exists>err. decode_message frame = Inl err) \<or>
       fst (is_jailed (abuse_key_for (claimed_from frame) (peers (en_node e))) (en_now e) (en_abuse e)) \<longrightarrow>
     r = Some (Inr ()) \<and> en_node e' = (en_node e)\<lparr>n_metrics := n_metrics (en_node e')\<rparr>)"
proof -
  let ?key = "abuse_key_for (claimed_from frame) (peers (en_node e))"
  obtain jailed abuse where j: "is_jailed ?key (en_now e) (en_abuse e) = (jailed, abuse)" by fastforce
  show ?thesis
  proof (cases "jailed \<or> \<not> is_ok (decode_message frame)")
    case True
    then show ?thesis using assms j
      by (cases "decode_message frame"; cases jailed)
        (auto simp: dispatch_inbound_def upd_node_def inc_frames_shed_jailed_def inc_frames_dropped_nonfatal_def
          inc_peers_jailed_def split: prod.splits if_splits)
  next
    case False
    then obtain m where m: "decode_message frame = Inr m" "\<not> jailed" by (cases "decode_message frame") auto
    then show ?thesis using assms j
      by (auto simp: dispatch_inbound_def eng_match_def on_node_def eng_return_def eng_throw_def eng_do_def upd_node_def
          split: prod.splits sum.splits if_splits)
  qed
qed

text \<open>A truncated frame is counted and dropped.\<close>

theorem bad_frames_are_contained_witness:
  "\<exists>e'. dispatch_inbound sample_engine_env [1, 2, 3] sample_engine = (Some (Inr ()), e') \<and>
     en_node e' = (en_node sample_engine)\<lparr>n_metrics := n_metrics (en_node e')\<rparr>"
proof -
  obtain r e' where d: "dispatch_inbound sample_engine_env [1, 2, 3] sample_engine = (r, e')" by fastforce
  have "\<exists>err. decode_message [1, 2, 3] = Inl err" by (simp add: decode_message_def parse_prefix_def)
  then show ?thesis using bad_frames_are_contained [OF d] d by blast
qed

end
