(* ===== verification/Driver_Props.thy ===== *)
theory Driver_Props
  imports Multi_Driver Engine_Props
begin

text \<open>
  What the driver of many groups keeps.  The locale \<open>stepped\<close> names the few ways in
  which an operation of the driver may change it; a property that survives those is
  preserved by every operation that serves one group.  It also holds of the driver
  while its buffers are with a group, which gives the contract \<open>hosted\<close> of the
  operations of the driver itself.
\<close>

section \<open>Applying entries: the driver and the single-group engine\<close>

lemma apply_payload_eq:
  "apply_payload V idx payload e =
    (case apply_if_config_change ((ee_node V)\<lparr>e_now := en_now e\<rparr>) payload (en_node e) of
       (Inl err, n) \<Rightarrow> (Some (Inl err), e\<lparr>en_node := n\<rparr>)
     | (Inr consumed, n) \<Rightarrow>
         (case (if consumed then (Inr (), en_sm e) else sm_apply_at (ee_sm V) idx payload (en_sm e)) of
            (r, sm) \<Rightarrow> (Some r, e\<lparr>en_sm := sm, en_node := n\<rparr>)))"
  by (simp add: apply_payload_def eng_bind_def on_node_def split: prod.splits sum.splits)

lemma apply_loop_eq:
  "apply_loop V k idx e =
    (case apply_group_loop V (en_now e) k idx (en_sm e, en_node e) of
       (r, sm, n) \<Rightarrow> (Some r, e\<lparr>en_sm := sm, en_node := n\<rparr>))"
proof (induction k arbitrary: idx e)
  case 0
  show ?case by (simp add: eng_return_def)
next
  case (Suc k)
  have buf: "APPLY_BUF_LEN = PAYLOAD_SCRATCH" by (simp add: APPLY_BUF_LEN_def PAYLOAD_SCRATCH_def)
  show ?case
    by (simp add: eng_bind_def on_node_def apply_payload_eq Suc.IH eng_return_def eng_do_def upd_node_def buf
        split: prod.splits sum.splits option.splits)
qed

text \<open>
  (C15) The driver applies entries as the single-group engine does.  For every engine,
  the driver's apply step on its state machine and node gives the same outcome, the
  same state machine and the same node as the engine's own step - snapshot
  restore, entries, membership changes and compaction included, on every error path.
\<close>

theorem driver_applies_like_engine:
  "apply_committed_entries V e =
    (case apply_group V (en_now e) (en_sm e, en_node e) of
       (r, sm, n) \<Rightarrow> (Some r, e\<lparr>en_sm := sm, en_node := n\<rparr>))"
proof -
  obtain r1 sm1 n1 where restore: "restore_state_machine_from_snapshot ((ee_node V)\<lparr>e_now := en_now e\<rparr>) (sm_restore (ee_sm V))
      (en_sm e, en_node e) = (r1, sm1, n1)" by (metis prod_cases3)
  define k where "k = (if n_last_applied n1 + 1 \<le> commit_index n1 then unat (commit_index n1) - unat (n_last_applied n1 + 1) + 1 else 0)"
  obtain r2 sm2 n2 where loop: "apply_group_loop V (en_now e) k (n_last_applied n1 + 1) (sm1, n1) = (r2, sm2, n2)"
    by (metis prod_cases3)
  obtain r3 n3 where compact: "maybe_compact ((ee_node V)\<lparr>e_now := en_now e\<rparr>) (sm_snapshot (ee_sm V) sm2) n2 = (r3, n3)" by fastforce
  note unfolds = apply_committed_entries_def apply_group_def eng_bind_def bind_op_def restore_from_snapshot_def restore
    apply_loop_eq on_node_def eng_return_def Let_def
  show ?thesis
  proof (cases r1)
    case (Inl err)
    then show ?thesis by (simp add: unfolds)
  next
    case (Inr x)
    have k: "(if n_last_applied n1 + 1 \<le> commit_index n1 then unat (commit_index n1) - unat (n_last_applied n1 + 1) + 1 else 0) = k"
      by (simp add: k_def)
    show ?thesis
      by (cases r2; cases r3) (simp_all add: unfolds Inr k loop compact del: apply_group_loop.simps One_nat_def split del: if_split cong: if_cong)
  qed
qed

section \<open>The ways a driver changes\<close>

lemma pm_insert_twice: "pm_insert k v (pm_insert k v' m) = pm_insert k v m"
  by (induction k v m rule: pm_insert.induct) auto

lemma pm_insert_same: "pm_get k m = Some v \<Longrightarrow> pm_insert k v m = m"
  by (induction k v m rule: pm_insert.induct) (auto split: if_splits)

lemma set_entry_fields [simp]:
  "dr_groups (set_entry gid entry dr) = pm_insert gid entry (dr_groups dr)" "dr_demux (set_entry gid entry dr) = dr_demux dr"
  "dr_timers (set_entry gid entry dr) = dr_timers dr" "dr_scratch (set_entry gid entry dr) = dr_scratch dr"
  "dr_now (set_entry gid entry dr) = dr_now dr" "dr_waits (set_entry gid entry dr) = dr_waits dr"
  "dr_unknown_group_frames (set_entry gid entry dr) = dr_unknown_group_frames dr"
  by (simp_all add: set_entry_def)

lemma lend_fields [simp]:
  "dr_demux (lend gid dr) = dr_demux dr" "dr_timers (lend gid dr) = dr_timers dr" "dr_now (lend gid dr) = dr_now dr"
  "dr_waits (lend gid dr) = dr_waits dr" "dr_unknown_group_frames (lend gid dr) = dr_unknown_group_frames dr"
  by (simp_all add: lend_def split: option.split)

text \<open>Lending twice gives everything back.\<close>

lemma lend_twice [simp]: "lend gid (lend gid dr) = dr"
  by (cases "pm_get gid (dr_groups dr)") (simp_all add: lend_def set_entry_def pm_insert_twice pm_insert_same)

locale stepped =
  fixes P :: "('s, 'm) driver \<Rightarrow> bool" and G :: "group_id set"
  assumes quiet: "P (dr\<lparr>dr_now := t\<rparr>) = P dr" "P (dr\<lparr>dr_waits := ws\<rparr>) = P dr" "P (dr\<lparr>dr_unknown_group_frames := c\<rparr>) = P dr"
    and entry: "\<And>gid en (en' :: ('s, 'm) group_entry). gid \<in> G \<Longrightarrow> P dr \<Longrightarrow> pm_get gid (dr_groups dr) = Some en \<Longrightarrow>
      ge_scratch en' = ge_scratch en \<Longrightarrow> P (set_entry gid en' dr)"
    and timers: "gid \<in> G \<Longrightarrow> P dr \<Longrightarrow> P (upd_timers gid f dr)"
    and demux: "P dr \<Longrightarrow> dx_ok (dr_demux dr) \<longrightarrow> dx_ok d \<and> dom (dx_inboxes d) = dom (dx_inboxes (dr_demux dr)) \<Longrightarrow>
      P (dr\<lparr>dr_demux := d\<rparr>)"

lemma lent_stepped:
  assumes "stepped P G"
  shows "stepped (\<lambda>dr. P (lend gid dr)) G"
proof -
  have upd: "lend gid (dr\<lparr>dr_now := t\<rparr>) = (lend gid dr)\<lparr>dr_now := t\<rparr>" "lend gid (dr\<lparr>dr_waits := ws\<rparr>) = (lend gid dr)\<lparr>dr_waits := ws\<rparr>"
      "lend gid (dr\<lparr>dr_unknown_group_frames := c\<rparr>) = (lend gid dr)\<lparr>dr_unknown_group_frames := c\<rparr>"
      "lend gid (dr\<lparr>dr_demux := d\<rparr>) = (lend gid dr)\<lparr>dr_demux := d\<rparr>"
      "lend gid (upd_timers g f dr) = upd_timers g f (lend gid dr)" for dr :: "('a, 'b) driver" and t ws c d g f
    by (simp_all add: lend_def set_entry_def upd_timers_def split: option.split)
  have swap: "pm_insert g v (pm_insert gid w m) = pm_insert gid w (pm_insert g v m)"
    if "pm_get g m \<noteq> None" "pm_get gid m \<noteq> None" "g \<noteq> gid" for g v w and m :: "('a, 'b) groups"
    using that by (induction m) (auto split: if_splits)
  have ent: "\<exists>en1. pm_get g (dr_groups (lend gid dr)) = Some en1 \<and> (\<exists>en2. ge_scratch en2 = ge_scratch en1 \<and>
      lend gid (set_entry g en' dr) = set_entry g en2 (lend gid dr))"
    if "pm_get g (dr_groups dr) = Some en" "ge_scratch en' = ge_scratch en" for dr :: "('a, 'b) driver" and g and en en' :: "('a, 'b) group_entry"
  proof (cases "g = gid")
    case True
    then show ?thesis using that
      by (intro exI [of _ "en\<lparr>ge_scratch := dr_scratch dr\<rparr>"] conjI exI [of _ "en'\<lparr>ge_scratch := dr_scratch dr\<rparr>"])
        (simp_all add: lend_def set_entry_def pm_insert_twice)
  next
    case False
    then show ?thesis using that swap [of g "dr_groups dr"]
      by (intro exI [of _ en] conjI exI [of _ en']) (auto simp: lend_def set_entry_def split: option.split)
  qed
  show ?thesis
  proof
    fix dr :: "('a, 'b) driver" and g and en en' :: "('a, 'b) group_entry"
    assume "g \<in> G" "P (lend gid dr)" "pm_get g (dr_groups dr) = Some en" "ge_scratch en' = ge_scratch en"
    then show "P (lend gid (set_entry g en' dr))" using ent stepped.entry [OF assms] by metis
  qed (use stepped.quiet [OF assms] stepped.timers [OF assms] stepped.demux [OF assms] in \<open>simp_all add: upd\<close>)
qed


lemma keeps_run: "keeps P m \<Longrightarrow> P e \<Longrightarrow> P (snd (m e))"
  by (simp add: keeps_def)

section \<open>Receiving through the shared table\<close>

lemma park_ok:
  assumes "dx_ok d" and "frame_group f = Some g"
  shows "dx_ok (park g f d) \<and> dom (dx_inboxes (park g f d)) = dom (dx_inboxes d)"
proof (cases "length f \<le> MAX_FRAME_SIZE")
  case True
  then show ?thesis using park_spec [OF assms True] by simp
next
  case False
  have "dx_pool d \<le> MAX_POOL_BUFS" using assms(1) by (simp add: dx_ok_def)
  then show ?thesis using False dx_ok_cong [OF assms(1), of "park g f d"] by (simp add: park_def)
qed

lemma route_frame_ok:
  assumes "dx_ok d" and "route_frame gid f d = (own, d')"
  shows "dx_ok d' \<and> dom (dx_inboxes d') = dom (dx_inboxes d)"
proof (cases "frame_group f")
  case None
  have "dx_pool d \<le> MAX_POOL_BUFS" using assms(1) by (simp add: dx_ok_def)
  then show ?thesis using None assms(2) dx_ok_cong [OF assms(1), of d'] by (auto simp: route_frame_def)
next
  case (Some g)
  then show ?thesis using assms park_ok [OF assms(1) Some] by (auto simp: route_frame_def split: if_splits)
qed

lemma mux_recv_timeout_ok:
  assumes "mux_recv_timeout gid deadline MAX_FRAME_SIZE evs d = (r, d', evs')" and "dx_ok d"
  shows "dx_ok d' \<and> dom (dx_inboxes d') = dom (dx_inboxes d)"
  using assms
proof (induction evs arbitrary: d)
  case Nil
  then show ?case using try_pop_spec [of d MAX_FRAME_SIZE gid] by (auto split: prod.splits)
next
  case (Cons ev evs)
  obtain x d1 where pop: "try_pop_into gid MAX_FRAME_SIZE d = (x, d1)" by fastforce
  have d1: "dx_ok d1" "dom (dx_inboxes d1) = dom (dx_inboxes d)" using try_pop_spec [OF Cons.prems(2) order_refl pop] by auto
  show ?case
  proof (cases "d' = d1")
    case False
    then obtain f where f: "x = Inr None" "ev_recv ev = Inr (Some f)" "ev_now ev < deadline"
      using Cons.prems(1) pop by (auto split: sum.splits option.splits if_splits)
    obtain own d2 where rt: "route_frame gid f d1 = (own, d2)" by fastforce
    note d2 = route_frame_ok [OF d1(1) rt]
    show ?thesis using Cons.prems(1) pop f rt d1 d2 Cons.IH [of d2] by (cases own) auto
  qed (use d1 in simp)
qed

lemma wrapper_answers_ok:
  "wrapper_answers gid calls d = (answers, d') \<Longrightarrow> dx_ok d \<longrightarrow> dx_ok d' \<and> dom (dx_inboxes d') = dom (dx_inboxes d)"
proof (induction calls arbitrary: d answers)
  case (Cons c calls)
  obtain deadline evs where c: "c = (deadline, evs)" by fastforce
  obtain r d1 evs' where m: "mux_recv_timeout gid deadline MAX_FRAME_SIZE evs d = (r, d1, evs')" by (metis prod_cases3)
  obtain as where "wrapper_answers gid calls d1 = (as, d')" using Cons.prems c m by (auto split: prod.splits)
  then show ?case using Cons.IH mux_recv_timeout_ok [OF m] by blast
qed simp

section \<open>Serving one group\<close>

context stepped
begin

lemma next_wait_keeps: "next_driver_wait dr = (w, dr') \<Longrightarrow> P dr \<Longrightarrow> P dr'"
  by (auto simp: next_driver_wait_def quiet split: list.splits)

lemma group_await_keeps:
  assumes "gid \<in> G"
  shows "keeps P (group_await V gid f)"
  unfolding keeps_def
proof (intro allI impI)
  fix dr assume "P dr"
  obtain w dr1 where w: "next_driver_wait dr = (w, dr1)" by fastforce
  have P1: "P dr1" by (rule next_wait_keeps [OF w \<open>P dr\<close>])
  show "P (snd (group_await V gid f dr))"
  proof (cases "pm_get gid (dr_groups dr1)")
    case None
    then show ?thesis using P1 by (simp add: group_await_def w)
  next
    case (Some en)
    obtain answers d where a: "wrapper_answers gid (dw_calls w) (dr_demux dr1) = (answers, d)" by fastforce
    obtain r n where f: "f ((ee_node V)\<lparr>e_now := dw_now w\<rparr>) answers (ge_node en) = (r, n)" by fastforce
    let ?dr = "set_entry gid (en\<lparr>ge_node := n\<rparr>) dr1"
    have "P ?dr" by (rule entry [OF assms P1 Some]) simp
    then have "P (?dr\<lparr>dr_demux := d\<rparr>)" by (rule demux) (use wrapper_answers_ok [OF a] in simp)
    then show ?thesis by (simp add: group_await_def w Some a f quiet)
  qed
qed

lemma group_calls_keep:
  assumes "gid \<in> G"
  shows "keeps P (group_campaign V gid)" "keeps P (group_pre_vote V gid)" "keeps P (group_heartbeat V gid)"
    "keeps P (group_propose V gid payload)"
  unfolding group_campaign_def group_pre_vote_def group_heartbeat_def group_propose_def
  by (rule group_await_keeps [OF assms])+

lemma run_election_keeps: "gid \<in> G \<Longrightarrow> keeps P (run_election V gid forced)"
  unfolding run_election_def
  by (auto intro!: keeps_rules group_calls_keep split: sum.split bool.split)

lemma announce_keeps:
  "gid \<in> G \<Longrightarrow> keeps P (eng_match (run_election V gid forced) (\<lambda>res.
     case res of Inr True \<Rightarrow> eng_match (group_heartbeat V gid) (\<lambda>hb. eng_return (res, hb)) | _ \<Rightarrow> eng_return (res, Inr ())))"
  by (auto intro!: keeps_rules group_calls_keep run_election_keeps split: sum.split bool.split)

lemma apply_in_driver_keeps: "gid \<in> G \<Longrightarrow> keeps P (apply_in_driver V gid)"
  unfolding keeps_def apply_in_driver_def by (auto intro: entry split: option.split prod.split)

lemma propose_and_apply_keeps:
  "gid \<in> G \<Longrightarrow> keeps P (eng_bind (group_propose V gid payload) (\<lambda>idx. eng_bind (apply_in_driver V gid) (\<lambda>_. eng_return idx)))"
  by (auto intro!: keeps_rules group_calls_keep apply_in_driver_keeps)

lemma dispatch_frame_keeps: "gid \<in> G \<Longrightarrow> keeps P (dispatch_frame V gid frame)"
  unfolding keeps_def dispatch_frame_def Let_def
  by (auto intro!: entry timers simp: quiet split: option.split prod.split)

end

text \<open>The same while the buffers of the driver are with the group.\<close>

lemma lending_keeps: "keeps (\<lambda>dr. P (lend gid dr)) m \<Longrightarrow> keeps P (lending gid m)"
  by (auto simp: keeps_def lending_def split: prod.split)
    (metis lend_twice snd_conv)


locale hosted = stepped +
  assumes resident: "P dr \<Longrightarrow> P (ensure_resident dr)"
begin

lemma dispatch_keeps: "gid \<in> G \<Longrightarrow> keeps P (lending gid (dispatch_frame V gid frame))"
  by (rule lending_keeps) (rule stepped.dispatch_frame_keeps [OF lent_stepped [OF stepped_axioms]])

lemma elect_and_announce_keeps: "gid \<in> G \<Longrightarrow> keeps P (elect_and_announce V gid forced)"
  unfolding elect_and_announce_def
  by (rule lending_keeps) (rule stepped.announce_keeps [OF lent_stepped [OF stepped_axioms]])

lemma lent_heartbeat_keeps: "gid \<in> G \<Longrightarrow> keeps P (lending gid (group_heartbeat V gid))"
  by (rule lending_keeps) (rule stepped.group_calls_keep [OF lent_stepped [OF stepped_axioms]])

lemma tolerate_keeps: "keeps P m \<Longrightarrow> keeps P (tolerate m)"
  unfolding tolerate_def by (auto intro!: keeps_rules split: sum.split)

lemma tick_heartbeat_keeps: "gid \<in> G \<Longrightarrow> keeps P (tick_heartbeat V gid)"
  using tolerate_keeps [OF lent_heartbeat_keeps, of gid V, unfolded keeps_def]
  unfolding keeps_def tick_heartbeat_def by (auto intro: entry split: option.split prod.split)

lemma tick_election_keeps: "gid \<in> G \<Longrightarrow> keeps P (tick_election V gid forced)"
  unfolding tick_election_def
  by (auto intro!: keeps_rules elect_and_announce_keeps timers split: prod.split sum.split)

lemma tick_group_keeps:
  assumes "gid \<in> G"
  shows "keeps P (tick_group V now gid)"
proof -
  have "keeps P (\<lambda>dr. if b then let dr = upd_timers gid reset_heartbeat dr in if l then tick_heartbeat V gid dr else (Some (Inr ()), dr)
      else (Some (Inr ()), dr))" for b l
    using tick_heartbeat_keeps [OF assms, of V, unfolded keeps_def] timers [OF assms] by (auto simp: keeps_def Let_def)
  moreover have "keeps P (\<lambda>dr. if b then tick_election V gid c (upd_timers gid f dr) else (Some (Inr ()), dr))" for b c f
    using tick_election_keeps [OF assms, of V, unfolded keeps_def] timers [OF assms] by (auto simp: keeps_def)
  ultimately have "keeps P (eng_bind
      (\<lambda>dr. if b then let dr = upd_timers gid reset_heartbeat dr in if l then tick_heartbeat V gid dr else (Some (Inr ()), dr)
        else (Some (Inr ()), dr))
      (\<lambda>_ dr. if b' then tick_election V gid c (upd_timers gid f dr) else (Some (Inr ()), dr)))" for b l b' c f
    by (intro keeps_bind)
  then show ?thesis unfolding keeps_def tick_group_def Let_def by (auto split: option.split)
qed

lemma tick_groups_keeps: "set gids \<subseteq> G \<Longrightarrow> keeps P (tick_groups V now gids)"
  by (induction gids) (auto intro!: keeps_rules tick_group_keeps)

lemma tick_timers_keeps: "G = UNIV \<Longrightarrow> keeps P (tick_timers V)"
  using tick_groups_keeps by (simp add: keeps_def tick_timers_def)

lemma route_raw_keeps: "set_option (frame_group frame) \<subseteq> G \<Longrightarrow> keeps P (route_raw V frame)"
  using dispatch_keeps unfolding keeps_def route_raw_def by (auto simp: quiet split: option.split)

lemma drain_parked_keeps:
  assumes "G = UNIV"
  shows "keeps P (drain_parked V k processed)"
proof (induction k arbitrary: processed)
  case (Suc k)
  have pop: "P dr \<Longrightarrow> pop_parked_into MAX_FRAME_SIZE (dr_demux dr) = (r, d) \<Longrightarrow> P (dr\<lparr>dr_demux := d\<rparr>)" for dr r d
    using demux pop_parked_spec [OF _ order_refl] by blast
  have "keeps P (eng_bind (lending gid (dispatch_frame V gid frame)) (\<lambda>_. drain_parked V k (processed + 1)))" for gid frame
    by (intro keeps_rules dispatch_keeps Suc.IH) (simp add: assms)
  then show ?case using pop unfolding keeps_def by (auto split: prod.split sum.split option.split)
qed (auto intro: keeps_rules)

lemma shared_recv_keeps: "keeps P shared_recv"
  unfolding keeps_def shared_recv_def using next_wait_keeps by (auto simp: quiet split: prod.split)

lemma tolerant_recv_keeps: "keeps P tolerant_recv"
  unfolding tolerant_recv_def by (auto intro!: keeps_rules shared_recv_keeps split: sum.split)

lemma drain_shared_keeps: "G = UNIV \<Longrightarrow> keeps P (drain_shared V k processed)"
  by (induction k arbitrary: processed) (auto intro!: keeps_rules tolerant_recv_keeps route_raw_keeps split: option.split)

lemma driver_run_once_keeps:
  assumes "G = UNIV"
  shows "keeps P (driver_run_once V max_wait)"
proof -
  have "keeps P (eng_bind tolerant_recv (\<lambda>frame.
      case frame of None \<Rightarrow> eng_return (0 :: nat) | Some frame \<Rightarrow> eng_bind (route_raw V frame) (\<lambda>_. eng_return 1)))"
    by (auto intro!: keeps_rules tolerant_recv_keeps route_raw_keeps simp: assms split: option.split)
  then have idle: "keeps P (\<lambda>dr. if c dr then eng_bind tolerant_recv (\<lambda>frame.
      case frame of None \<Rightarrow> eng_return (0 :: nat) | Some frame \<Rightarrow> eng_bind (route_raw V frame) (\<lambda>_. eng_return 1)) dr
      else (Some (Inr processed), dr))" for c processed
    by (simp add: keeps_def)
  have "keeps P (\<lambda>dr. eng_bind (drain_parked V BURST_FRAMES 0) (\<lambda>processed.
     eng_bind (drain_shared V (BURST_FRAMES - processed) processed) (\<lambda>processed.
     eng_bind (\<lambda>dr.
        if processed = 0 \<and> max_wait > 0 \<and> idle_wait max_wait (dr_now dr) (dr_timers dr) > 0
        then eng_bind tolerant_recv (\<lambda>frame.
          case frame of None \<Rightarrow> eng_return 0 | Some frame \<Rightarrow> eng_bind (route_raw V frame) (\<lambda>_. eng_return 1)) dr
        else (Some (Inr processed), dr)) (\<lambda>processed.
     eng_bind (tick_timers V) (\<lambda>_. eng_return processed)))) dr)"
    by (intro keeps_rules drain_parked_keeps drain_shared_keeps idle tick_timers_keeps assms)
  then show ?thesis using resident unfolding keeps_def driver_run_once_def by blast
qed

lemma driver_campaign_keeps:
  assumes "gid \<in> G"
  shows "keeps P (driver_campaign V gid)"
proof -
  have "keeps P (eng_bind (elect_and_announce V gid True) (\<lambda>(res, hb).
       eng_bind (eng_do (upd_timers gid (\<lambda>now t. reset_heartbeat now (reset_election now t)))) (\<lambda>_.
         case res of
           Inl err \<Rightarrow> eng_throw err
         | Inr elected \<Rightarrow> (case hb of Inl err \<Rightarrow> eng_throw err | Inr _ \<Rightarrow> eng_return elected))))"
    by (auto intro!: keeps_rules elect_and_announce_keeps [OF assms] timers [OF assms] split: prod.split sum.split)
  then show ?thesis using resident unfolding keeps_def driver_campaign_def by simp
qed

lemma driver_propose_keeps:
  assumes "gid \<in> G"
  shows "keeps P (driver_propose V gid payload)"
proof -
  have "keeps P (lending gid (eng_bind (group_propose V gid payload) (\<lambda>idx.
      eng_bind (apply_in_driver V gid) (\<lambda>_. eng_return idx))))"
    by (rule lending_keeps) (rule stepped.propose_and_apply_keeps [OF lent_stepped [OF stepped_axioms] assms])
  then show ?thesis using resident unfolding keeps_def driver_propose_def by (simp split: sum.split)
qed

end


section \<open>The driver stays consistent\<close>

text \<open>
  Groups, timers and inboxes have the same keys, none of them twice; the routing table
  is sound; the buffers are with the driver and every group is without.
\<close>

definition driver_ok :: "('s, 'm) driver \<Rightarrow> bool" where
  "driver_ok dr \<longleftrightarrow> pm_ok (dr_groups dr) \<and> pm_ok (dr_timers dr) \<and> fst ` set (dr_timers dr) = fst ` set (dr_groups dr) \<and>
     dx_ok (dr_demux dr) \<and> dom (dx_inboxes (dr_demux dr)) = fst ` set (dr_groups dr) \<and>
     (\<forall>gid en. pm_get gid (dr_groups dr) = Some en \<longrightarrow> ge_scratch en = no_scratch) \<and> dr_scratch dr = standard_scratch"

lemma pm_get_key: "pm_get k m = Some v \<Longrightarrow> k \<in> fst ` set m"
  by (induction k m rule: pm_get.induct) (auto split: if_splits)

lemma fst_upd_timers: "fst ` set (dr_timers (upd_timers gid f dr)) = fst ` set (dr_timers dr)"
  by (metis list.set_map map_fst_pm_modify upd_timers_def driver.select_convs(3) driver.surjective driver.update_convs(3))

interpretation consistent: hosted driver_ok UNIV
proof
  fix dr :: "('a, 'b) driver" and gid f
  assume "driver_ok dr"
  then show "driver_ok (upd_timers gid f dr)"
    using fst_upd_timers [of gid f dr] by (simp add: driver_ok_def) (simp add: upd_timers_def)
next
  fix dr :: "('a, 'b) driver" and gid and en en' :: "('a, 'b) group_entry"
  assume "driver_ok dr" "pm_get gid (dr_groups dr) = Some en" "ge_scratch en' = ge_scratch en"
  then show "driver_ok (set_entry gid en' dr)"
    using pm_get_key [of gid "dr_groups dr"] by (simp add: driver_ok_def fst_pm_insert insert_absorb)
qed (simp_all add: driver_ok_def ensure_resident_def standard_scratch_def)

text \<open>What happens to a driver: its operations in any order, and the environment between them.\<close>

inductive driver_life :: "('s, 'm) engine_env \<Rightarrow> ('s, 'm) driver \<Rightarrow> bool" for V where
  start: "driver_life V (driver_new now waits)"
| add: "driver_life V dr \<Longrightarrow> driver_life V (snd (add_group V gid config storage sm dr))"
| remove: "driver_life V dr \<Longrightarrow> driver_life V (snd (remove_group gid dr))"
| campaign: "driver_life V dr \<Longrightarrow> driver_life V (snd (driver_campaign V gid dr))"
| propose: "driver_life V dr \<Longrightarrow> driver_life V (snd (driver_propose V gid payload dr))"
| tick: "driver_life V dr \<Longrightarrow> driver_life V (snd (driver_run_once V max_wait dr))"
| environment: "driver_life V dr \<Longrightarrow> driver_life V (dr\<lparr>dr_now := now, dr_waits := waits\<rparr>)"

lemma demux_register_ok:
  assumes "dx_ok d"
  shows "dx_ok (demux_register gid d) \<and> dom (dx_inboxes (demux_register gid d)) = insert gid (dom (dx_inboxes d))"
proof (cases "dx_inboxes d gid")
  case None
  let ?d = "d\<lparr>dx_inboxes := (dx_inboxes d)(gid \<mapsto> [])\<rparr>"
  have "inbox ?d = inbox d" using None by (auto simp: inbox_def)
  moreover have "gid \<notin> dom (dx_inboxes d)" "inbox d gid = []" using None by (auto simp: inbox_def)
  ultimately have "dx_ok ?d" using assms by (simp add: dx_ok_def)
  then show ?thesis using None by (simp add: demux_register_def)
qed (use assms in \<open>auto simp: demux_register_def\<close>)

lemma demux_unregister_ok:
  assumes "dx_ok d"
  shows "dx_ok (demux_unregister gid d) \<and> dom (dx_inboxes (demux_unregister gid d)) = dom (dx_inboxes d) - {gid}"
proof (cases "dx_inboxes d gid")
  case (Some q)
  let ?d = "d\<lparr>dx_inboxes := (dx_inboxes d)(gid := None), dx_pending := dx_pending d - length q\<rparr>"
  have i: "inbox ?d = (inbox d)(gid := [])" using Some by (auto simp: inbox_def)
  have "finite (dom (dx_inboxes d))" "gid \<in> dom (dx_inboxes d)" "inbox d gid = q" using assms Some by (auto simp: dx_ok_def inbox_def)
  then have "(\<Sum>g\<in>dom (dx_inboxes d). length (inbox d g)) = length q + (\<Sum>g\<in>dom (dx_inboxes d) - {gid}. length (inbox d g))"
    by (simp add: sum.remove)
  then have "dx_ok ?d" using assms i by (simp add: dx_ok_def)
  then show ?thesis using Some by (simp add: demux_unregister_def)
qed (use assms in \<open>auto simp: demux_unregister_def\<close>)

lemma pm_key_get: "k \<in> fst ` set m \<longleftrightarrow> pm_get k m \<noteq> None"
  by (induction k m rule: pm_get.induct) auto

lemma pm_remove_keys: "pm_ok m \<Longrightarrow> fst ` set (pm_remove k m) = fst ` set m - {k}"
  by (rule set_eqI) (simp add: pm_key_get pm_get_remove)

lemma add_group_ok:
  assumes "driver_ok dr"
  shows "driver_ok (snd (add_group V gid config storage sm dr))"
proof (cases "pm_get gid (dr_groups dr)")
  case None
  let ?d = "demux_register gid (dr_demux dr)"
  have out: "gid \<notin> dom (dx_inboxes (dr_demux dr))" using assms None by (simp add: driver_ok_def pm_key_get)
  have reg: "dx_ok ?d" "dom (dx_inboxes ?d) = insert gid (dom (dx_inboxes (dr_demux dr)))"
    using demux_register_ok [of "dr_demux dr" gid] assms by (simp_all add: driver_ok_def)
  then have unreg: "dx_ok (demux_unregister gid ?d)" "dom (dx_inboxes (demux_unregister gid ?d)) = dom (dx_inboxes (dr_demux dr))"
    using demux_unregister_ok [of ?d gid] out by auto
  have undo: "driver_ok (dr\<lparr>dr_demux := demux_unregister gid ?d\<rparr>)"
    using assms unreg by (simp add: driver_ok_def)
  obtain r s where n: "raft_node_new (e_store (ee_node V)) config storage = (r, s)" by fastforce
  show ?thesis
  proof (cases r)
    case (Inl err)
    then show ?thesis using None n undo by (simp add: add_group_def registry_get_def Let_def)
  next
    case (Inr node)
    then show ?thesis using None n reg assms
      by (simp add: add_group_def registry_get_def registry_insert_def pm_contains_key_get Let_def driver_ok_def fst_pm_insert)
  qed
qed (use assms in \<open>simp add: add_group_def registry_get_def\<close>)

lemma remove_group_ok: "driver_ok dr \<Longrightarrow> driver_ok (snd (remove_group gid dr))"
  using demux_unregister_ok [of "dr_demux dr" gid]
  by (simp add: remove_group_def registry_remove_def driver_ok_def pm_remove_keys pm_ok_remove pm_get_remove split: option.split)

lemma driver_life_ok: "driver_life V dr \<Longrightarrow> driver_ok dr"
proof (induction rule: driver_life.induct)
  case (start now waits)
  show ?case by (simp add: driver_ok_def driver_new_def pm_empty_def pm_ok_def dx_ok_def demux_new_def inbox_def)
next
  case (environment dr now waits)
  then show ?case by (simp add: consistent.quiet)
qed (auto intro: add_group_ok remove_group_ok keeps_run [OF consistent.driver_campaign_keeps]
    keeps_run [OF consistent.driver_propose_keeps] keeps_run [OF consistent.driver_run_once_keeps [OF refl]])

text \<open>
  (C13) The driver stays consistent and its groups stay small.  Through any life of a
  driver - groups added and removed, campaigns, proposals and ticks, whatever they
  answer, failures included - a group is hosted exactly when it has timers and
  exactly when the shared transport keeps an inbox for it; the routing table is sound;
  the driver has its full-size buffers back; and no hosted group holds any of them.
\<close>

theorem driver_stays_consistent:
  assumes "driver_life V dr"
  shows "(registry_get gid (dr_groups dr) \<noteq> None) = (pm_get gid (dr_timers dr) \<noteq> None) \<and>
    (registry_get gid (dr_groups dr) \<noteq> None) = (dx_inboxes (dr_demux dr) gid \<noteq> None) \<and> dx_ok (dr_demux dr) \<and>
    dr_scratch dr = standard_scratch \<and>
    group_idle_scratch_bytes gid dr = (if registry_get gid (dr_groups dr) = None then None else Some 0)"
proof -
  have ok: "driver_ok dr" by (rule driver_life_ok [OF assms])
  have "gid \<in> fst ` set (dr_groups dr) \<longleftrightarrow> gid \<in> fst ` set (dr_timers dr)"
      "gid \<in> fst ` set (dr_groups dr) \<longleftrightarrow> gid \<in> dom (dx_inboxes (dr_demux dr))"
    using ok by (auto simp: driver_ok_def)
  then have "pm_get gid (dr_groups dr) \<noteq> None \<longleftrightarrow> pm_get gid (dr_timers dr) \<noteq> None"
      "pm_get gid (dr_groups dr) \<noteq> None \<longleftrightarrow> dx_inboxes (dr_demux dr) gid \<noteq> None"
    by (simp_all only: pm_key_get domIff)
  moreover have "group_idle_scratch_bytes gid dr = (if registry_get gid (dr_groups dr) = None then None else Some 0)"
    using ok by (auto simp: group_idle_scratch_bytes_def registry_get_def driver_ok_def no_scratch_def)
  ultimately show ?thesis using ok by (auto simp: registry_get_def driver_ok_def)
qed

text \<open>A driver with two groups, one of them without a leader yet.\<close>

definition sample_driver :: "(mem_storage, (log_index \<times> bytes) list) driver" where
  "sample_driver = snd (add_group sample_engine_env 8 (sample_config 1) mem_empty []
     (snd (add_group sample_engine_env 7 (sample_config 1) mem_empty [] (driver_new 0 []))))"

lemma sample_driver_groups:
  "dr_groups sample_driver =
    [(7, \<lparr>ge_node = sample_node 1, ge_sm = [], ge_scratch = no_scratch\<rparr>), (8, \<lparr>ge_node = sample_node 1, ge_sm = [], ge_scratch = no_scratch\<rparr>)]"
  by (simp add: sample_driver_def add_group_def registry_get_def registry_insert_def driver_new_def sample_node_new pm_contains_key_def
      sample_engine_env_def sample_env_def pm_empty_def Let_def)

theorem driver_stays_consistent_witness:
  "driver_life sample_engine_env sample_driver \<and> group_idle_scratch_bytes 7 sample_driver = Some 0 \<and>
   dx_inboxes (dr_demux sample_driver) 7 \<noteq> None"
proof -
  have l: "driver_life sample_engine_env sample_driver" unfolding sample_driver_def by (intro driver_life.intros)
  have "registry_get 7 (dr_groups sample_driver) \<noteq> None" by (simp add: registry_get_def sample_driver_groups)
  then show ?thesis using l driver_stays_consistent [OF l, of 7] by simp
qed

section \<open>Groups share nothing\<close>

definition untouched :: "group_id \<Rightarrow> ('s, 'm) driver \<Rightarrow> ('s, 'm) driver \<Rightarrow> bool" where
  "untouched g dr dr' \<longleftrightarrow> pm_get g (dr_groups dr') = pm_get g (dr_groups dr) \<and> pm_get g (dr_timers dr') = pm_get g (dr_timers dr)"

interpretation bystander: hosted "\<lambda>dr. pm_get g (dr_groups dr) = en \<and> pm_get g (dr_timers dr) = ts" "- {g}"
  for g and en :: "('s, 'm) group_entry option" and ts
  by unfold_locales (auto simp: upd_timers_def ensure_resident_def Let_def)

text \<open>
  (C14) A frame reaches only the group it names, and serving one group leaves the
  others alone.  When a frame names another group than \<open>g\<close>, or the driver campaigns,
  proposes or runs the timers for another group, then node, state machine and timers
  of \<open>g\<close> are untouched, whatever the outcome; and a frame of a group that is not
  hosted, or too short to name one, only advances a counter.
\<close>

theorem groups_share_nothing:
  assumes "gid \<noteq> g" and "frame_group frame = Some gid"
  shows "untouched g dr (snd (route_raw V frame dr)) \<and> untouched g dr (snd (driver_campaign V gid dr)) \<and>
    untouched g dr (snd (driver_propose V gid payload dr)) \<and> untouched g dr (snd (tick_group V now gid dr)) \<and>
    (registry_get gid (dr_groups dr) = None \<longrightarrow>
      route_raw V frame dr = (Some (Inr ()), dr\<lparr>dr_unknown_group_frames := dr_unknown_group_frames dr + 1\<rparr>))"
proof -
  let ?P = "\<lambda>dr'. pm_get g (dr_groups dr') = pm_get g (dr_groups dr) \<and> pm_get g (dr_timers dr') = pm_get g (dr_timers dr)"
  have gid: "gid \<in> - {g}" and frame: "set_option (frame_group frame) \<subseteq> - {g}" using assms by auto
  have dr: "?P dr" by simp
  have "?P (snd (route_raw V frame dr))" by (rule keeps_run [OF bystander.route_raw_keeps [OF frame] dr])
  moreover have "?P (snd (driver_campaign V gid dr))" by (rule keeps_run [OF bystander.driver_campaign_keeps [OF gid] dr])
  moreover have "?P (snd (driver_propose V gid payload dr))" by (rule keeps_run [OF bystander.driver_propose_keeps [OF gid] dr])
  moreover have "?P (snd (tick_group V now gid dr))" by (rule keeps_run [OF bystander.tick_group_keeps [OF gid] dr])
  moreover have "route_raw V frame dr = (Some (Inr ()), dr\<lparr>dr_unknown_group_frames := dr_unknown_group_frames dr + 1\<rparr>)"
    if "registry_get gid (dr_groups dr) = None"
    using that assms(2) by (simp add: route_raw_def lending_def lend_def dispatch_frame_def registry_get_def)
  ultimately show ?thesis by (simp add: untouched_def)
qed

theorem groups_share_nothing_witness:
  "frame_group (mux_frames ! 0) = Some 2 \<and> untouched 7 sample_driver (snd (route_raw sample_engine_env (mux_frames ! 0) sample_driver)) \<and>
   route_raw sample_engine_env (mux_frames ! 0) sample_driver =
     (Some (Inr ()), sample_driver\<lparr>dr_unknown_group_frames := dr_unknown_group_frames sample_driver + 1\<rparr>)"
proof -
  have f: "frame_group (mux_frames ! 0) = Some 2" by (simp add: mux_frames_def frame_group_def fld_def)
  have "registry_get 2 (dr_groups sample_driver) = None" by (simp add: registry_get_def sample_driver_groups)
  then show ?thesis using f groups_share_nothing [OF _ f, of 7 sample_driver sample_engine_env "[]" 0] by auto
qed

section \<open>A tick ends\<close>

text \<open>At most \<open>k\<close> waiting calls, in a driver with \<open>n\<close> timers.\<close>

definition waits_within :: "nat \<Rightarrow> nat \<Rightarrow> ('a, 's, 'm) drv \<Rightarrow> bool" where
  "waits_within n k m \<longleftrightarrow> (\<forall>dr. length (dr_timers dr) = n \<longrightarrow>
     length (dr_timers (snd (m dr))) = n \<and> length (dr_waits dr) \<le> length (dr_waits (snd (m dr))) + k)"

named_theorems wait_rules

lemma waits_mono: "waits_within n k m \<Longrightarrow> k \<le> l \<Longrightarrow> waits_within n l m"
  by (auto simp: waits_within_def intro: le_trans)

lemma waits_return [wait_rules]: "waits_within n 0 (eng_return x)" "waits_within n 0 (eng_throw err)"
  by (simp_all add: waits_within_def eng_return_def eng_throw_def)

lemma waits_withinD:
  "waits_within n k m \<Longrightarrow> length (dr_timers dr) = n \<Longrightarrow>
     length (dr_timers (snd (m dr))) = n \<and> length (dr_waits dr) \<le> length (dr_waits (snd (m dr))) + k"
  by (simp add: waits_within_def)

lemma waits_match:
  assumes "waits_within n k m" and "\<And>x. waits_within n l (f x)"
  shows "waits_within n (k + l) (eng_match m f)"
  unfolding waits_within_def
proof (intro allI impI)
  fix dr :: "('a, 'b) driver" assume n: "length (dr_timers dr) = n"
  obtain r dr1 where eq: "m dr = (r, dr1)" by (cases "m dr")
  have m: "length (dr_timers dr1) = n" "length (dr_waits dr) \<le> length (dr_waits dr1) + k"
    using waits_withinD [OF assms(1) n] by (simp_all add: eq)
  show "length (dr_timers (snd (eng_match m f dr))) = n \<and> length (dr_waits dr) \<le> length (dr_waits (snd (eng_match m f dr))) + (k + l)"
  proof (cases r)
    case None
    then show ?thesis using m by (simp add: eng_match_def eq)
  next
    case (Some x)
    then show ?thesis using m waits_withinD [OF assms(2) m(1), of x] by (simp add: eng_match_def eq)
  qed
qed

lemma waits_bind:
  assumes "waits_within n k m" and "\<And>x. waits_within n l (f x)"
  shows "waits_within n (k + l) (eng_bind m f)"
proof -
  have "waits_within n l (case r of Inl err \<Rightarrow> eng_throw err | Inr x \<Rightarrow> f x)" for r
    using assms(2) waits_mono [OF waits_return(2)] by (auto split: sum.split)
  note step = waits_match [OF assms(1) this]
  have "eng_bind m f = eng_match m (\<lambda>r. case r of Inl err \<Rightarrow> eng_throw err | Inr x \<Rightarrow> f x)"
    by (rule ext) (simp add: eng_bind_def eng_match_def eng_throw_def split: prod.split option.split sum.split)
  then show ?thesis using step by simp
qed

lemma waits_if [wait_rules]: "waits_within n k m \<Longrightarrow> waits_within n k m' \<Longrightarrow> waits_within n k (if b then m else m')"
  by simp

lemma waits_guard: "waits_within n k m \<Longrightarrow> waits_within n k (\<lambda>dr. if c dr then m dr else (r, dr))"
  by (simp add: waits_within_def)

lemma length_pm_modify [simp]: "length (pm_modify k f m) = length m"
  by (induction k f m rule: pm_modify.induct) auto

lemma waits_timers [wait_rules]: "waits_within n 0 (eng_do (upd_timers gid f))"
  by (simp add: waits_within_def eng_do_def upd_timers_def)

lemma waits_lending [wait_rules]:
  assumes "waits_within n k m"
  shows "waits_within n k (lending gid m)"
  unfolding waits_within_def
proof (intro allI impI)
  fix dr :: "('a, 'b) driver" assume "length (dr_timers dr) = n"
  then have "length (dr_timers (lend gid dr)) = n" by simp
  from waits_withinD [OF assms this]
  show "length (dr_timers (snd (lending gid m dr))) = n \<and> length (dr_waits dr) \<le> length (dr_waits (snd (lending gid m dr))) + k"
    by (cases "m (lend gid dr)") (simp add: lending_def)
qed

lemma waits_await: "waits_within n 1 (group_await V gid f)"
  by (auto simp: waits_within_def group_await_def next_driver_wait_def split: prod.split option.split list.split)

lemma waits_calls [wait_rules]:
  "waits_within n 1 (group_campaign V gid)" "waits_within n 1 (group_pre_vote V gid)" "waits_within n 1 (group_heartbeat V gid)"
  unfolding group_campaign_def group_pre_vote_def group_heartbeat_def by (fact waits_await)+

lemma waits_dispatch [wait_rules]: "waits_within n 0 (dispatch_frame V gid frame)"
  by (auto simp: waits_within_def dispatch_frame_def Let_def upd_timers_def split: option.split prod.split)

lemma waits_route [wait_rules]: "waits_within n 0 (route_raw V frame)"
proof (cases "frame_group frame")
  case (Some gid)
  then have "route_raw V frame = lending gid (dispatch_frame V gid frame)" by (rule_tac ext) (simp add: route_raw_def)
  then show ?thesis by (simp add: waits_lending [OF waits_dispatch])
qed (simp add: waits_within_def route_raw_def)

lemma waits_drain_parked [wait_rules]: "waits_within n 0 (drain_parked V k processed)"
proof (induction k arbitrary: processed)
  case (Suc k)
  have rec: "waits_within n 0 (eng_bind (lending gid (dispatch_frame V gid frame)) (\<lambda>_. drain_parked V k (processed + 1)))" for gid frame
    using waits_bind [OF waits_lending [OF waits_dispatch] Suc.IH] by simp
  show ?case unfolding waits_within_def
  proof (intro allI impI)
    fix dr :: "('a, 'b) driver" assume n: "length (dr_timers dr) = n"
    obtain r d where pop: "pop_parked_into MAX_FRAME_SIZE (dr_demux dr) = (r, d)" by fastforce
    have "length (dr_timers (dr\<lparr>dr_demux := d\<rparr>)) = n" using n by simp
    then show "length (dr_timers (snd (drain_parked V (Suc k) processed dr))) = n \<and>
        length (dr_waits dr) \<le> length (dr_waits (snd (drain_parked V (Suc k) processed dr))) + 0"
      using waits_withinD [OF rec, of "dr\<lparr>dr_demux := d\<rparr>"] by (auto simp: pop split: sum.split option.split)
  qed
qed (simp add: waits_return)

lemma waits_recv [wait_rules]: "waits_within n 1 tolerant_recv"
proof -
  have "waits_within n 1 shared_recv"
    by (auto simp: waits_within_def shared_recv_def next_driver_wait_def split: prod.split list.split)
  moreover have "waits_within n 0 (case r of Inr frame \<Rightarrow> eng_return frame
      | Inl err \<Rightarrow> if is_fatal err then eng_throw err else eng_return None)" for r
    by (simp add: wait_rules split: sum.split)
  ultimately have "waits_within n (1 + 0) tolerant_recv" unfolding tolerant_recv_def by (rule waits_match)
  then show ?thesis by simp
qed

lemma waits_drain_shared [wait_rules]: "waits_within n k (drain_shared V k processed)"
proof (induction k arbitrary: processed)
  case (Suc k)
  have "waits_within n k (case frame of None \<Rightarrow> eng_return processed
      | Some frame \<Rightarrow> eng_bind (route_raw V frame) (\<lambda>_. drain_shared V k (processed + 1)))" for frame
    using waits_bind [OF waits_route Suc.IH] by (auto intro: waits_mono [OF waits_return(1)] split: option.split)
  from waits_bind [OF waits_recv this] show ?case by simp
qed (simp add: waits_return)

lemma waits_election: "waits_within n 3 (tick_election V gid forced)"
proof -
  have run: "waits_within n 2 (run_election V gid forced)"
  proof -
    have "waits_within n 1 (case r of Inr True \<Rightarrow> group_campaign V gid | Inr False \<Rightarrow> eng_return False
        | Inl err \<Rightarrow> if err \<noteq> NoQuorum \<and> is_fatal err then eng_throw err else eng_return False)" for r
      by (auto intro: waits_calls(1) [simplified] waits_mono [OF waits_return(1)] waits_mono [OF waits_return(2)]
          split: sum.split bool.split)
    from waits_match [OF waits_calls(2) this] show ?thesis
      by (auto simp: run_election_def numeral_2_eq_2 intro: waits_mono [OF waits_calls(1)])
  qed
  have "waits_within n 1 (case res of Inr True \<Rightarrow> eng_match (group_heartbeat V gid) (\<lambda>hb. eng_return (res, hb))
      | _ \<Rightarrow> eng_return (res, Inr ()))" for res
    using waits_match [OF waits_calls(3) waits_return(1)] by (auto intro: waits_mono [OF waits_return(1)] split: sum.split bool.split)
  from waits_lending [OF waits_match [OF run this]] have elect: "waits_within n 3 (elect_and_announce V gid forced)"
    by (simp add: elect_and_announce_def)
  have cont: "waits_within n 0 (case x of (res, hb) \<Rightarrow> eng_bind (eng_do (upd_timers gid (f res))) (\<lambda>_.
       case res of
         Inl err \<Rightarrow> if is_fatal err then eng_throw err else eng_return ()
       | Inr y \<Rightarrow> (case hb of Inl err \<Rightarrow> if is_fatal err then eng_throw err else eng_return () | Inr _ \<Rightarrow> eng_return ())))"
    for x :: "bool result \<times> unit result" and f
  proof -
    have "waits_within n 0 (case fst x of
         Inl err \<Rightarrow> if is_fatal err then eng_throw err else eng_return ()
       | Inr y \<Rightarrow> (case snd x of Inl err \<Rightarrow> if is_fatal err then eng_throw err else eng_return () | Inr _ \<Rightarrow> eng_return ()))"
      by (simp add: wait_rules split: sum.split)
    from waits_bind [OF waits_timers this] show ?thesis by (simp add: split_beta)
  qed
  have "waits_within n (3 + 0) (tick_election V gid forced)"
    unfolding tick_election_def by (rule waits_bind [OF elect]) (rule cont)
  then show ?thesis by simp
qed

lemma waits_tick_group: "waits_within n 3 (tick_group V now gid)"
proof -
  have hb: "waits_within n 1 (tick_heartbeat V gid)"
  proof -
    have "waits_within n 0 (case r of Inr _ \<Rightarrow> eng_return () | Inl err \<Rightarrow> if is_fatal err then eng_throw err else eng_return ())" for r
      by (simp add: wait_rules split: sum.split)
    from waits_match [OF waits_lending [OF waits_calls(3)] this]
    have "waits_within n 1 (tolerate (lending gid (group_heartbeat V gid)))" by (simp add: tolerate_def)
    then show ?thesis unfolding waits_within_def tick_heartbeat_def by (auto split: option.split prod.split)
  qed
  have upd: "waits_within n k (\<lambda>dr. m (upd_timers gid f dr))" if "waits_within n k m" for k f and m :: "(unit, 'a, 'b) drv"
    unfolding waits_within_def
  proof (intro allI impI)
    fix dr :: "('a, 'b) driver" assume "length (dr_timers dr) = n"
    then have "length (dr_timers (upd_timers gid f dr)) = n" by (simp add: upd_timers_def)
    from waits_withinD [OF that this] show "length (dr_timers (snd (m (upd_timers gid f dr)))) = n \<and>
        length (dr_waits dr) \<le> length (dr_waits (snd (m (upd_timers gid f dr)))) + k" by (simp add: upd_timers_def)
  qed
  have skip: "waits_within n k (\<lambda>dr. (Some (Inr ()), dr))" "waits_within n k (\<lambda>dr. (Some (Inr ()), upd_timers gid f dr))"
    for k f by (simp_all add: waits_within_def upd_timers_def)
  have "waits_within n (if l then 1 else 0) (\<lambda>dr. if b
      then let dr = upd_timers gid reset_heartbeat dr in if l then tick_heartbeat V gid dr else (Some (Inr ()), dr)
      else (Some (Inr ()), dr))" for b l
    using upd [OF hb, of reset_heartbeat] skip by (cases b; cases l) (simp_all add: Let_def)
  moreover have "waits_within n (if l then 0 else 3) (\<lambda>dr. if \<not> l \<and> b
      then tick_election V gid c (upd_timers gid f dr) else (Some (Inr ()), dr))" for l b c f
    using upd [OF waits_election [of n V gid c], of f] skip by (cases b; cases l) simp_all
  ultimately have "waits_within n ((if l then 1 else 0) + (if l then 0 else 3)) (eng_bind
      (\<lambda>dr. if b then let dr = upd_timers gid reset_heartbeat dr in if l then tick_heartbeat V gid dr else (Some (Inr ()), dr)
        else (Some (Inr ()), dr))
      (\<lambda>_ dr. if \<not> l \<and> b' then tick_election V gid c (upd_timers gid f dr) else (Some (Inr ()), dr)))" for b l b' c f
    by (rule waits_bind)
  then have tick: "waits_within n 3 (eng_bind
      (\<lambda>dr. if b then let dr = upd_timers gid reset_heartbeat dr in if l then tick_heartbeat V gid dr else (Some (Inr ()), dr)
        else (Some (Inr ()), dr))
      (\<lambda>_ dr. if \<not> l \<and> b' then tick_election V gid c (upd_timers gid f dr) else (Some (Inr ()), dr)))" for b l b' c f
    by (rule waits_mono) simp
  show ?thesis unfolding waits_within_def
  proof (intro allI impI)
    fix dr :: "('a, 'b) driver" assume n: "length (dr_timers dr) = n"
    show "length (dr_timers (snd (tick_group V now gid dr))) = n \<and>
        length (dr_waits dr) \<le> length (dr_waits (snd (tick_group V now gid dr))) + 3"
      using n waits_withinD [OF tick n] by (simp add: tick_group_def Let_def split: option.split)
  qed
qed

lemma waits_tick_groups: "waits_within n (3 * length gids) (tick_groups V now gids)"
proof (induction gids)
  case (Cons gid gids)
  from waits_bind [OF waits_tick_group Cons.IH] show ?case by simp
qed (simp add: waits_return)

lemma waits_tick_timers: "waits_within n (3 * n) (tick_timers V)"
  unfolding waits_within_def
proof (intro allI impI)
  fix dr :: "('a, 'b) driver" assume n: "length (dr_timers dr) = n"
  let ?due = "due_groups (dr_now dr) (dr_timers dr)"
  have "length ?due \<le> length (dr_timers dr)" by (simp add: due_groups_def)
  then show "length (dr_timers (snd (tick_timers V dr))) = n \<and> length (dr_waits dr) \<le> length (dr_waits (snd (tick_timers V dr))) + 3 * n"
    using waits_withinD [OF waits_tick_groups n, of V "dr_now dr" ?due] n by (simp add: tick_timers_def)
qed

lemma eng_bind_ok: "eng_bind m f e = (Some (Inr y), e') \<longleftrightarrow> (\<exists>x e1. m e = (Some (Inr x), e1) \<and> f x e1 = (Some (Inr y), e'))"
  by (cases "m e"; cases "fst (m e)"; cases "the (fst (m e))") (auto simp: eng_bind_def)

lemma drain_parked_count: "drain_parked V k p dr = (Some (Inr q), dr') \<Longrightarrow> q \<le> p + k"
proof (induction k arbitrary: p dr)
  case (Suc k)
  obtain r d where pop: "pop_parked_into MAX_FRAME_SIZE (dr_demux dr) = (r, d)" by fastforce
  then consider "q = p" | dr1 where "drain_parked V k (p + 1) dr1 = (Some (Inr q), dr')"
    using Suc.prems by (auto simp: eng_bind_ok split: sum.splits option.splits)
  then show ?case using Suc.IH by cases force+
qed (simp add: eng_return_def)

lemma drain_shared_count: "drain_shared V k p dr = (Some (Inr q), dr') \<Longrightarrow> q \<le> p + k"
proof (induction k arbitrary: p dr)
  case (Suc k)
  then consider "q = p" | dr1 where "drain_shared V k (p + 1) dr1 = (Some (Inr q), dr')"
    by (auto simp: eng_bind_ok eng_return_def split: option.splits)
  then show ?case using Suc.IH by cases force+
qed (simp add: eng_return_def)


lemma sample_driver_timers: "length (dr_timers sample_driver) = 2"
  by (simp add: sample_driver_def add_group_def registry_get_def registry_insert_def driver_new_def sample_node_new pm_contains_key_def
      sample_engine_env_def sample_env_def pm_empty_def Let_def)


end
