(* ===== verification/Vote_Safety.thy ===== *)
theory Vote_Safety
  imports Raft_Inbound Append_Props
begin

text \<open>
  One vote per term.  Every inbound message, whatever its content and whether
  its handler succeeds or fails, moves the hard state of the node and its durable
  copy only forward in the order \<open>hard_le\<close>; a grant leaves the node only when the
  vote is durable.  The lives of a voter, with crashes and restarts between the
  messages, are an inductive relation over which at most one candidate per term
  is ever granted.
\<close>

section \<open>Storage that keeps the hard state\<close>

text \<open>
  What voting relies on: only \<open>save_hard_state\<close> changes the hard state, and a
  failed save leaves the old or the new one.
\<close>

locale hard_store =
  fixes S :: "'s storage_ops"
    and hs :: "'s \<Rightarrow> hard_state"
  assumes save: "so_save_hard_state S h s = (r, t) \<Longrightarrow> if is_ok r then hs t = h else hs t = h \<or> hs t = hs s"
    and load: "so_load_hard_state S s = (Inr h, t) \<Longrightarrow> h = hs s"
    and load_keeps [simp]: "hs (snd (so_load_hard_state S s)) = hs s"
    and append_keeps [simp]: "hs (snd (so_append_entries S es s)) = hs s"
    and append_seeded_keeps [simp]: "hs (snd (so_append_entries_seeded S hds ps s)) = hs s"
    and term_at_keeps [simp]: "hs (snd (so_term_at S i s)) = hs s"
    and last_pos_keeps [simp]: "hs (snd (so_last_log_position S s)) = hs s"
    and trunc_suffix_keeps [simp]: "hs (snd (so_truncate_suffix S i s)) = hs s"
    and trunc_before_keeps [simp]: "hs (snd (so_truncate_before S i s)) = hs s"
    and save_snap_keeps [simp]: "hs (snd (so_save_snapshot S m b s)) = hs s"
    and load_snap_keeps [simp]: "hs (snd (so_load_snapshot S s)) = hs s"
    and load_meta_keeps [simp]: "hs (snd (so_load_snapshot_meta S s)) = hs s"
    and read_keeps [simp]: "hs (snd (so_read_entries S i j k s)) = hs s"
    and headers_keeps [simp]: "hs (snd (so_read_entry_headers S i j s)) = hs s"
    and payloads_keeps [simp]: "hs (snd (so_for_each_payload S i j s)) = hs s"
    and entry_at_keeps [simp]: "hs (snd (so_entry_at S i k s)) = hs s"

interpretation mem_hard: hard_store mem_ops mem_hs
  by unfold_locales
    (auto simp: mem_ops_def mem_save_hard_state_def mem_load_hard_state_def mem_append_entries_def mem_hs_def
      default_append_entries_seeded_def default_term_at_def mem_entry_at_def mem_last_log_position_def
      mem_truncate_suffix_def mem_truncate_before_def mem_save_snapshot_def mem_load_snapshot_def
      default_load_snapshot_meta_def mem_read_entries_def default_read_entry_headers_def
      default_for_each_payload_def bind_op_def Let_def split: option.splits sum.splits)

section \<open>Ballots\<close>

text \<open>
  The votes a node has cast, read off what it has sent: a granting response is a
  vote for the peer it goes to, a request for votes is the candidate's vote for
  itself.  They are sound when every one of them is covered by the durable hard
  state and no two of one term name different candidates.
\<close>

fun is_ballot :: "raft_message \<Rightarrow> bool" where
  "is_ballot (RequestVoteResp r) = (rvr_vote_granted r \<noteq> 0)"
| "is_ballot (RequestVote _) = True"
| "is_ballot _ = False"

fun ballot :: "peer_id \<Rightarrow> peer_id \<times> raft_message \<Rightarrow> (raft_term \<times> peer_id) option" where
  "ballot self (q, RequestVoteResp r) = (if rvr_vote_granted r \<noteq> 0 then Some (rvr_term r, q) else None)"
| "ballot self (q, RequestVote r) = Some (rv_term r, self)"
| "ballot self _ = None"

lemma ballot_None: "ballot self x = None \<longleftrightarrow> \<not> is_ballot (snd x)"
  by (induction self x rule: ballot.induct) auto

definition ballots :: "'s raft_node \<Rightarrow> (raft_term \<times> peer_id) set" where
  "ballots n = {b. \<exists>x\<in>set (n_outbox n). ballot (node_id n) x = Some b}"

definition covers :: "hard_state \<Rightarrow> (raft_term \<times> peer_id) set \<Rightarrow> bool" where
  "covers h B \<longleftrightarrow> (\<forall>(t, c)\<in>B. hard_le \<lparr>current_term = t, voted_for = Some c\<rparr> h)"

definition single_choice :: "(raft_term \<times> peer_id) set \<Rightarrow> bool" where
  "single_choice B \<longleftrightarrow> (\<forall>t c d. (t, c) \<in> B \<longrightarrow> (t, d) \<in> B \<longrightarrow> c = d)"

definition ballots_ok :: "('s \<Rightarrow> hard_state) \<Rightarrow> 's raft_node \<Rightarrow> bool" where
  "ballots_ok hs n \<longleftrightarrow> hard_le (hs (n_storage n)) (n_hard n) \<and> covers (hs (n_storage n)) (ballots n) \<and>
     single_choice (ballots n)"

lemma covers_mono: "covers h B \<Longrightarrow> hard_le h h' \<Longrightarrow> covers h' B"
  unfolding covers_def by (fast intro: hard_le_trans)

text \<open>Casting a vote that the durable state records keeps the ballots sound.\<close>

lemma cast_ballot:
  assumes "covers h B" and "single_choice B" and "hard_le h \<lparr>current_term = t, voted_for = Some c\<rparr>"
  shows "covers \<lparr>current_term = t, voted_for = Some c\<rparr> (insert (t, c) B) \<and> single_choice (insert (t, c) B)"
proof
  let ?h = "\<lparr>current_term = t, voted_for = Some c\<rparr>"
  have B: "covers ?h B" using assms(1,3) by (rule covers_mono)
  then show "covers ?h (insert (t, c) B)" by (simp add: covers_def)
  have "d = c" if "(t, d) \<in> B" for d using B that by (auto simp: covers_def hard_le_def)
  then show "single_choice (insert (t, c) B)" using assms(2) by (auto simp: single_choice_def)
qed

section \<open>Steps that keep votes\<close>

definition outbox_quiet :: "'s raft_node \<Rightarrow> 's raft_node \<Rightarrow> bool" where
  "outbox_quiet n n' \<longleftrightarrow> (\<exists>ms. n_outbox n' = n_outbox n @ ms \<and> (\<forall>x\<in>set ms. \<not> is_ballot (snd x)))"

lemma outbox_quiet_same [simp]: "n_outbox n' = n_outbox n \<Longrightarrow> outbox_quiet n n'"
  by (simp add: outbox_quiet_def)

lemma outbox_quiet_trans: "outbox_quiet n m \<Longrightarrow> outbox_quiet m k \<Longrightarrow> outbox_quiet n k"
  by (auto simp: outbox_quiet_def)

lemma outbox_quiet_send [simp]: "\<not> is_ballot m \<Longrightarrow> outbox_quiet n (snd (send_message E p m n))"
  using send_message_outbox [of E p m n] by (auto simp: outbox_quiet_def)

lemma quiet_ballots:
  assumes "outbox_quiet n n'" and "node_id n' = node_id n"
  shows "ballots n' = ballots n"
proof -
  obtain ms where "n_outbox n' = n_outbox n @ ms" and "\<forall>x\<in>set ms. \<not> is_ballot (snd x)"
    using assms(1) by (auto simp: outbox_quiet_def)
  moreover from this(2) have "\<forall>x\<in>set ms. ballot (node_id n) x = None" by (simp add: ballot_None)
  ultimately show ?thesis using assms(2) by (auto simp: ballots_def)
qed

text \<open>No handler makes a candidate or a leader, and the configuration of one that stays is kept.\<close>

definition rank_kept :: "'s raft_node \<Rightarrow> 's raft_node \<Rightarrow> bool" where
  "rank_kept n n' \<longleftrightarrow> node_id n' = node_id n \<and> (role n' \<noteq> Follower \<longrightarrow> role n' = role n \<and>
     n_config n' = n_config n \<and> n_joint_peers n' = n_joint_peers n)"

definition ballots_kept :: "('s \<Rightarrow> hard_state) \<Rightarrow> 's raft_node \<Rightarrow> 's raft_node \<Rightarrow> bool" where
  "ballots_kept hs n n' \<longleftrightarrow> node_id n' = node_id n \<and> (ballots_ok hs n \<longrightarrow> ballots_ok hs n' \<and> ballots n \<subseteq> ballots n' \<and>
     hard_le (n_hard n) (n_hard n') \<and> hard_le (hs (n_storage n)) (hs (n_storage n')))"

definition vote_kept :: "('s \<Rightarrow> hard_state) \<Rightarrow> 's raft_node \<Rightarrow> 's raft_node \<Rightarrow> bool" where
  "vote_kept hs n n' \<longleftrightarrow> rank_kept n n' \<and> ballots_kept hs n n'"

lemma rank_kept_trans: "rank_kept n m \<Longrightarrow> rank_kept m k \<Longrightarrow> rank_kept n k"
  by (auto simp: rank_kept_def)

lemma ballots_kept_trans: "ballots_kept hs n m \<Longrightarrow> ballots_kept hs m k \<Longrightarrow> ballots_kept hs n k"
  by (auto simp: ballots_kept_def intro: hard_le_trans)

lemma vote_kept_trans: "vote_kept hs n m \<Longrightarrow> vote_kept hs m k \<Longrightarrow> vote_kept hs n k"
  by (auto simp: vote_kept_def intro: ballots_kept_trans rank_kept_trans)

text \<open>A step that touches neither the hard state nor the role.\<close>

definition calm :: "('s \<Rightarrow> hard_state) \<Rightarrow> 's raft_node \<Rightarrow> 's raft_node \<Rightarrow> bool" where
  "calm hs n n' \<longleftrightarrow> n_hard n' = n_hard n \<and> n_soft n' = n_soft n \<and> hs (n_storage n') = hs (n_storage n) \<and>
     outbox_quiet n n' \<and> rank_kept n n'"

lemma calm_refl [simp]: "calm hs n n"
  by (simp add: calm_def rank_kept_def)

lemma calm_trans: "calm hs n m \<Longrightarrow> calm hs m k \<Longrightarrow> calm hs n k"
  by (auto simp: calm_def intro: outbox_quiet_trans rank_kept_trans)

lemma ballots_kept_quiet:
  assumes "n_hard n' = n_hard n" and "hs (n_storage n') = hs (n_storage n)" and "outbox_quiet n n'" and "node_id n' = node_id n"
  shows "ballots_kept hs n n'"
  using assms quiet_ballots [of n n'] by (simp add: ballots_kept_def ballots_ok_def)

lemma vote_kept_quiet:
  assumes "n_hard n' = n_hard n" and "hs (n_storage n') = hs (n_storage n)" and "outbox_quiet n n'" and "rank_kept n n'"
  shows "vote_kept hs n n'"
  using assms by (simp add: vote_kept_def ballots_kept_quiet rank_kept_def)

lemma calm_vote_kept: "calm hs n n' \<Longrightarrow> vote_kept hs n n'"
  by (simp add: calm_def vote_kept_quiet)

lemma vote_kept_refl [simp]: "vote_kept hs n n"
  by (simp add: calm_vote_kept)

lemma vote_kept_bind:
  assumes "vote_kept hs n (snd r)" and "\<And>a. fst r = Inr a \<Longrightarrow> vote_kept hs (snd r) (snd (f a (snd r)))"
  shows "vote_kept hs n (snd (bind_op r f))"
  using assms by (cases r rule: prod.exhaust) (auto simp: bind_op_def intro: vote_kept_trans split: sum.splits)

lemma vote_kept_if:
  "(b \<Longrightarrow> vote_kept hs n (snd x)) \<Longrightarrow> (\<not> b \<Longrightarrow> vote_kept hs n (snd y)) \<Longrightarrow> vote_kept hs n (snd (if b then x else y))"
  by simp

lemma calm_bind:
  assumes "calm hs n (snd r)" and "\<And>a. fst r = Inr a \<Longrightarrow> calm hs (snd r) (snd (f a (snd r)))"
  shows "calm hs n (snd (bind_op r f))"
  using assms by (cases r rule: prod.exhaust) (auto simp: bind_op_def intro: calm_trans split: sum.splits)

lemma calm_with_storage: "hs (snd (f (n_storage n))) = hs (n_storage n) \<Longrightarrow> calm hs n (snd (with_storage f n))"
  by (simp add: calm_def rank_kept_def)

lemma calm_send [simp]: "\<not> is_ballot m \<Longrightarrow> calm hs n (snd (send_message E p m n))"
  by (simp add: calm_def rank_kept_def)

lemma calm_role: "calm hs n m \<Longrightarrow> role m = role n"
  by (simp add: calm_def)

lemmas kept_defs = calm_def rank_kept_def

lemma step_down_rank: "rank_kept n (snd (step_down E t n))"
  by (auto simp: rank_kept_def step_down_def bind_op_def with_storage_def Let_def split: prod.splits sum.splits)

lemma config_members_node_id: "node_id (snd (config_members e n)) = node_id n"
  by (simp add: config_members_def set_members_def Let_def split: config_change_phase.splits)

lemma apply_config_change_node_id: "node_id (snd (apply_config_change E e n)) = node_id n"
proof -
  have rec: "node_id (reconcile_leader_progress_with_config m) = node_id m" for m :: "'a raft_node"
    by (simp add: reconcile_leader_progress_with_config_def Let_def)
  obtain r m where m: "config_members e (inc_config_changes_applied n) = (r, m)" by fastforce
  then have "node_id m = node_id n"
    using config_members_node_id [of e "inc_config_changes_applied n"] by (simp add: inc_config_changes_applied_def)
  then show ?thesis using m rec [of m]
    by (cases r) (simp_all add: apply_config_change_def Let_def bind_op_simps)
qed

lemma reply_no_ballot [simp]:
  "\<not> is_ballot (append_resp msg n ok i)" "\<not> is_ballot (snapshot_resp n ok i)"
  by (simp_all add: append_resp_def snapshot_resp_def)

context hard_store
begin

text \<open>Replacing the hard state by a later one, in memory and then on disk.\<close>

lemma later_hard_ballots:
  assumes "hard_le (n_hard n) (n_hard n')" and "hs (n_storage n') = n_hard n' \<or> hs (n_storage n') = hs (n_storage n)"
    and "outbox_quiet n n'" and "node_id n' = node_id n"
  shows "ballots_kept hs n n'"
proof -
  have B: "ballots n' = ballots n" using assms(3,4) by (rule quiet_ballots)
  have "ballots_ok hs n' \<and> hard_le (hs (n_storage n)) (hs (n_storage n'))" if ok: "ballots_ok hs n"
  proof -
    have "hard_le (hs (n_storage n)) (n_hard n')"
      using ok assms(1) unfolding ballots_ok_def by (blast intro: hard_le_trans)
    then have "hard_le (hs (n_storage n)) (hs (n_storage n'))" "hard_le (hs (n_storage n')) (n_hard n')"
      using assms(2) by auto
    then show ?thesis using ok B by (auto simp: ballots_ok_def intro: covers_mono)
  qed
  then show ?thesis using assms(1,4) B by (simp add: ballots_kept_def)
qed

lemma later_hard_kept:
  assumes "hard_le (n_hard n) (n_hard n')" and "hs (n_storage n') = n_hard n' \<or> hs (n_storage n') = hs (n_storage n)"
    and "outbox_quiet n n'" and "rank_kept n n'"
  shows "vote_kept hs n n'"
  using later_hard_ballots [OF assms(1-3)] assms(4) by (simp add: vote_kept_def rank_kept_def)

lemma save_cases:
  "hs (snd (so_save_hard_state S h s)) = h \<or> hs (snd (so_save_hard_state S h s)) = hs s"
  using save [of h s "fst (so_save_hard_state S h s)" "snd (so_save_hard_state S h s)"] by (auto split: if_splits)

lemma step_down_vote_kept:
  assumes [simp]: "e_store E = S" and "node_term n < t"
  shows "vote_kept hs n (snd (step_down E t n))"
proof (rule later_hard_kept)
  show "hard_le (n_hard n) (n_hard (snd (step_down E t n)))" using assms(2) by (simp add: hard_le_later)
qed (simp_all add: save_cases step_down_rank)

lemma adopt_term_vote_kept:
  "e_store E = S \<Longrightarrow> vote_kept hs n (snd (if node_term n < t then step_down E t n else (Inr (), n)))"
  by (simp add: step_down_vote_kept)

subsection \<open>The append handlers\<close>

lemma storage_truncate_calm:
  assumes [simp]: "e_store E = S"
  shows "calm hs n (snd (storage_truncate E i n))"
  unfolding storage_truncate_def Let_def
  by (intro calm_bind calm_with_storage) (simp_all add: kept_defs)

lemma local_term_calm:
  assumes [simp]: "e_store E = S"
  shows "calm hs n (snd (local_term_at E i n))"
  by (simp add: local_term_at_def calm_with_storage split: option.splits)

lemma scan_calm:
  assumes [simp]: "e_store E = S"
  shows "calm hs n (snd (scan_incoming E err start idx es n))"
proof (induction es arbitrary: idx n)
  case (Cons e es)
  obtain index trm where e: "e = (index, trm)" by force
  have "calm hs m (snd (case local of
       Some t \<Rightarrow> if t = trm then scan_incoming E err start (idx + 1) es m
         else bind_op (storage_truncate E index m) (\<lambda>_ n. (Inr (Some idx), n))
     | None \<Rightarrow> (Inr (Some idx), m)))" for local m
    using Cons by (auto intro!: calm_bind storage_truncate_calm split: option.splits)
  then show ?case by (auto simp: e intro!: calm_bind local_term_calm)
qed simp

lemma activate_calm:
  assumes "role n = Follower"
  shows "calm hs n (snd (activate_latest_config E ps n))"
proof -
  have nl: "\<not> is_leader n" using assms by (simp add: is_leader_def)
  have "node_id (snd (activate_latest_config E ps n)) = node_id n"
    by (simp add: activate_latest_config_def apply_config_change_node_id split: option.splits)
  then show ?thesis
    using activate_latest_config_frame [OF nl, of E ps] assms by (simp add: kept_defs)
qed

lemma store_tail_calm:
  assumes "role n = Follower" and "\<And>s. hs (snd (f s)) = hs s"
  shows "calm hs n (snd (bind_op (with_storage f n) (\<lambda>_ n.
      let n = n\<lparr>n_log_metadata := arena_append_all es (n_log_metadata n)\<rparr>;
          n = set_last_from es n in
      activate_latest_config E ps n)))"
proof (intro calm_bind calm_with_storage assms(2))
  let ?m = "snd (with_storage f n)"
  let ?k = "set_last_from es (?m\<lparr>n_log_metadata := arena_append_all es (n_log_metadata ?m)\<rparr>)"
  have "calm hs ?m ?k" by (simp add: kept_defs set_last_from_def)
  moreover have "role ?k = Follower" using assms(1) by (simp add: set_last_from_def)
  ultimately show "calm hs ?m (snd (let n = ?m\<lparr>n_log_metadata := arena_append_all es (n_log_metadata ?m)\<rparr>;
      n = set_last_from es n in activate_latest_config E ps n))"
    by (simp add: Let_def calm_trans [OF _ activate_calm])
qed

lemma apply_append_calm:
  assumes [simp]: "e_store E = S" and "role n = Follower"
  shows "calm hs n (snd (apply_append_entries E msg payload n))"
  unfolding apply_append_entries_def Let_def using assms(2)
  by (intro calm_bind [OF scan_calm])
    (auto intro!: store_tail_calm [unfolded Let_def] simp: calm_role [OF scan_calm])

lemma apply_append_seeded_calm:
  assumes [simp]: "e_store E = S" and "role n = Follower"
  shows "calm hs n (snd (apply_append_entries_seeded E msg headers payloads n))"
  unfolding apply_append_entries_seeded_def Let_def using assms(2)
  by (intro calm_bind [OF scan_calm])
    (auto intro!: store_tail_calm [unfolded Let_def] simp: calm_role [OF scan_calm])

lemma check_prev_calm:
  assumes [simp]: "e_store E = S"
  shows "calm hs n (snd (check_prev E i t n))"
  by (auto simp: check_prev_def intro!: calm_bind calm_with_storage split: option.splits)

lemma set_commit_vote_kept: "vote_kept hs n (if b then set_commit_index i n else n)"
  by (simp add: vote_kept_quiet rank_kept_def)

lemma append_handler_vote_kept:
  assumes [simp]: "e_store E = S" and batch: "\<And>m. role m = Follower \<Longrightarrow> calm hs m (snd (apply_batch m))"
  shows "vote_kept hs n (snd (append_handler E from msg apply_batch n))"
proof -
  let ?commit = "\<lambda>n. if ae_leader_commit msg > commit_index n
    then set_commit_index (min (ae_leader_commit msg) (fst (n_last_log n))) n else n"
  let ?reply = "\<lambda>n. (Inr () :: unit result,
    snd (send_message E from (append_resp msg (?commit n) True (fst (n_last_log n))) (?commit n)))"
  have store: "vote_kept hs m (snd (bind_op (apply_batch m) (\<lambda>_. ?reply)))" if "role m = Follower" for m
    by (intro vote_kept_bind [OF calm_vote_kept [OF batch [OF that]]])
      (simp add: vote_kept_trans [OF _ calm_vote_kept [OF calm_send]] set_commit_vote_kept)
  have check: "vote_kept hs m (snd (bind_op (check_prev E i t m) (\<lambda>prev_ok n.
      if \<not> prev_ok then (Inr (), snd (send_message E from (append_resp msg n ok (hint n)) n))
      else bind_op (apply_batch n) (\<lambda>_. ?reply))))" if "role m = Follower" for m i t ok hint
    using that by (intro vote_kept_bind [OF calm_vote_kept [OF check_prev_calm]])
      (simp_all add: store calm_vote_kept calm_role [OF check_prev_calm])
  have "vote_kept hs m (snd (bind_op (check_prev E i t (follow E l m)) (\<lambda>prev_ok n.
      if \<not> prev_ok then (Inr (), snd (send_message E from (append_resp msg n ok (hint n)) n))
      else bind_op (apply_batch n) (\<lambda>_. ?reply))))" for m i t l ok hint
    by (rule vote_kept_trans [OF _ check]) (simp_all add: vote_kept_quiet follow_def rank_kept_def)
  then show ?thesis
    unfolding append_handler_def Let_def
    by (intro vote_kept_if vote_kept_bind [OF adopt_term_vote_kept]) (simp_all add: calm_vote_kept)
qed

lemma handle_append_vote_kept:
  assumes [simp]: "e_store E = S"
  shows "vote_kept hs n (snd (handle_append_entries E from msg payload n))"
  by (simp add: handle_append_entries_def append_handler_vote_kept apply_append_calm)

lemma handle_append_seeded_vote_kept:
  assumes [simp]: "e_store E = S"
  shows "vote_kept hs n (snd (handle_append_entries_seeded E from msg headers payloads n))"
  by (simp add: handle_append_entries_seeded_def append_handler_vote_kept apply_append_seeded_calm)

lemma handle_append_response_vote_kept:
  assumes [simp]: "e_store E = S"
  shows "vote_kept hs n (snd (handle_append_entries_response E from resp n))"
  unfolding handle_append_entries_response_def Let_def
  by (intro vote_kept_if vote_kept_bind [OF step_down_vote_kept])
    (simp_all add: vote_kept_quiet rank_kept_def split: option.splits)

subsection \<open>The vote handlers\<close>

lemma last_position_calm:
  assumes [simp]: "e_store E = S"
  shows "calm hs n (snd (with_storage (so_last_log_position (e_store E)) n))"
  by (simp add: calm_with_storage)

text \<open>A grant is sent only when the vote it announces is durable.\<close>

lemma send_grant_kept:
  assumes "hs (n_storage n) = n_hard n" and "voted_for (n_hard n) = Some p"
  shows "vote_kept hs n (snd (send_message E p (RequestVoteResp (vote_resp n True)) n))"
proof -
  let ?m = "RequestVoteResp (vote_resp n True)" and ?n = "snd (send_message E p (RequestVoteResp (vote_resp n True)) n)"
  have h: "n_hard n = \<lparr>current_term = node_term n, voted_for = Some p\<rparr>"
    using assms(2) by (cases "n_hard n") simp
  have "ballots ?n = ballots n \<or> ballots ?n = insert (node_term n, p) (ballots n)"
    using send_message_outbox [of E p ?m n] by (auto simp: ballots_def vote_resp_def)
  moreover have "covers (n_hard n) (insert (node_term n, p) (ballots n)) \<and> single_choice (insert (node_term n, p) (ballots n))"
    if "ballots_ok hs n"
    using that cast_ballot [of "n_hard n" "ballots n" "node_term n" p] assms h by (simp add: ballots_ok_def)
  ultimately show ?thesis using assms(1) by (auto simp: vote_kept_def ballots_kept_def rank_kept_def ballots_ok_def)
qed

lemma cast_vote_kept:
  assumes [simp]: "e_store E = S" and free: "can_vote \<Longrightarrow> voted_for (n_hard n) = None \<or> voted_for (n_hard n) = Some from"
  shows "vote_kept hs n (snd (bind_op (if can_vote
          then let n = n\<lparr>n_hard := (n_hard n)\<lparr>voted_for := Some from\<rparr>\<rparr> in
            with_storage (so_save_hard_state (e_store E) (n_hard n)) n
          else (Inr (), n)) (\<lambda>_ n.
         (Inr (), snd (send_message E from (RequestVoteResp (vote_resp n can_vote)) n)))))"
proof (cases can_vote)
  case True
  let ?h = "(n_hard n)\<lparr>voted_for := Some from\<rparr>"
  let ?r = "with_storage (so_save_hard_state S ?h) (n\<lparr>n_hard := ?h\<rparr>)"
  have "vote_kept hs n (snd ?r)"
    using free [OF True] by (intro later_hard_kept) (simp_all add: hard_le_vote save_cases rank_kept_def)
  moreover have "hs (n_storage (snd ?r)) = ?h" if "fst ?r = Inr a" for a
    using that save [of ?h "n_storage n", OF prod.collapse [symmetric]] by simp
  ultimately show ?thesis using True by (auto intro!: vote_kept_bind send_grant_kept)
qed (simp add: calm_vote_kept vote_resp_def)

lemma handle_request_vote_vote_kept:
  assumes [simp]: "e_store E = S" and honest: "rv_candidate_id msg = from"
  shows "vote_kept hs n (snd (handle_request_vote E from msg n))"
  unfolding handle_request_vote_def Let_def honest
  by (intro vote_kept_bind [OF adopt_term_vote_kept] vote_kept_bind [OF calm_vote_kept [OF last_position_calm]]
      cast_vote_kept [unfolded Let_def]) (auto split: option.splits)

lemma handle_pre_vote_calm:
  assumes [simp]: "e_store E = S"
  shows "calm hs n (snd (handle_pre_vote E from msg n))"
  unfolding handle_pre_vote_def Let_def
  by (intro calm_bind [OF last_position_calm]) (simp_all add: calm_send)

subsection \<open>The other handlers\<close>

lemma seat_at_boundary_calm:
  assumes [simp]: "e_store E = S"
  shows "calm hs n (snd (seat_at_boundary E meta n))"
  unfolding seat_at_boundary_def Let_def
  by (intro calm_bind calm_with_storage) (simp_all add: kept_defs)

lemma complete_snapshot_vote_kept:
  assumes [simp]: "e_store E = S"
  shows "vote_kept hs n (snd (complete_snapshot E p n))"
  unfolding complete_snapshot_def Let_def
proof (intro vote_kept_bind)
  fix m :: "'s raft_node"
  show "vote_kept hs m (snd (seat_at_boundary E (ps_meta p)
        (if commit_index m < last_included_index (ps_meta p)
         then set_commit_index (last_included_index (ps_meta p)) m else m)))"
    by (rule vote_kept_trans [OF _ calm_vote_kept [OF seat_at_boundary_calm]]) (simp_all add: set_commit_vote_kept)
qed (simp add: calm_vote_kept calm_with_storage)

lemma receive_chunk_vote_kept:
  assumes [simp]: "e_store E = S"
  shows "vote_kept hs n (snd (receive_chunk E from msg payload meta n))"
proof -
  have send: "vote_kept hs n (snd (send_message E from (snapshot_resp k ok i) m))" if "vote_kept hs n m" for k ok i m
    by (rule vote_kept_trans [OF that calm_vote_kept]) simp
  have tail: "vote_kept hs n (snd (bind_op
      (if is_done msg \<noteq> 0 then complete_snapshot E p m else (Inr (), k))
      (\<lambda>_ n. (Inr (), snd (send_message E from (snapshot_resp n ok i) n)))))"
    if "vote_kept hs n m" "vote_kept hs n k" for p m k ok i
    using that by (intro vote_kept_bind vote_kept_if vote_kept_trans [OF _ complete_snapshot_vote_kept])
      (simp_all add: calm_vote_kept)
  show ?thesis unfolding receive_chunk_def Let_def
    by (intro vote_kept_if tail) (simp_all add: vote_kept_quiet rank_kept_def send)
qed

lemma handle_install_snapshot_vote_kept:
  assumes [simp]: "e_store E = S"
  shows "vote_kept hs n (snd (handle_install_snapshot E from msg payload n))"
proof -
  let ?n = "snd (evict_stalled_snapshots (e_now E) n)"
  have n: "vote_kept hs n ?n"
    by (rule vote_kept_quiet) (simp_all add: evict_stalled_snapshots_def Let_def rank_kept_def)
  have "vote_kept hs m (snd (receive_chunk E from msg payload meta
      (m\<lparr>n_soft := s\<lparr>soft_role := Follower, soft_is_leader := False, leader_id := l\<rparr>\<rparr>)))" for m s l meta
    by (rule vote_kept_trans [OF _ receive_chunk_vote_kept]) (simp_all add: vote_kept_quiet rank_kept_def)
  then have "vote_kept hs ?n (snd (bind_op (if is_term msg > node_term ?n then step_down E (is_term msg) ?n else (Inr (), ?n)) (\<lambda>_ n.
         receive_chunk E from msg payload meta
           (n\<lparr>n_soft := (n_soft n)\<lparr>soft_role := Follower, soft_is_leader := False,
                leader_id := Some (is_leader_id msg)\<rparr>\<rparr>))))" for meta
    by (intro vote_kept_bind [OF adopt_term_vote_kept]) simp_all
  note chunk = vote_kept_trans [OF n this]
  show ?thesis unfolding handle_install_snapshot_def Let_def
    by (intro vote_kept_if chunk) (simp_all add: vote_kept_quiet inc_frames_dropped_nonfatal_def rank_kept_def
        vote_kept_trans [OF n calm_vote_kept [OF calm_send]])
qed

lemma handle_timeout_now_vote_kept:
  assumes [simp]: "e_store E = S"
  shows "vote_kept hs n (snd (handle_timeout_now E from msg n))"
  unfolding handle_timeout_now_def
  by (intro vote_kept_if vote_kept_bind [OF adopt_term_vote_kept]) (simp_all add: vote_kept_quiet rank_kept_def)

end

lemma handle_custom_calm: "calm hs n (snd (handle_custom_message E C from payload n))"
proof -
  have step: "calm hs n (send_custom_response E from payload kp n)" for kp n
    by (auto simp: send_custom_response_def Let_def split: sum.splits)
  have "calm hs n (fold (send_custom_response E from payload) rs n)" for rs n
    by (induction rs arbitrary: n) (auto intro: calm_trans step)
  then show ?thesis by (auto simp: handle_custom_message_def split: prod.splits)
qed

lemma handle_custom_response_calm: "calm hs n (snd (handle_custom_response C from payload n))"
  by (auto simp: handle_custom_response_def Let_def kept_defs split: sum.splits prod.splits)

text \<open>A request for votes names its sender as the candidate, as every campaign's request does.\<close>

definition honest :: "inbound_message \<Rightarrow> bool" where
  "honest m \<longleftrightarrow> (case in_message m of RequestVote r \<Rightarrow> rv_candidate_id r = in_from m | _ \<Rightarrow> True)"

lemma stamp_contact_fields [simp]:
  "n_hard (stamp_contact E m n) = n_hard n" "n_soft (stamp_contact E m n) = n_soft n"
  "n_storage (stamp_contact E m n) = n_storage n" "n_config (stamp_contact E m n) = n_config n"
  "n_joint_peers (stamp_contact E m n) = n_joint_peers n" "n_last_log (stamp_contact E m n) = n_last_log n"
  "n_outbox (stamp_contact E m n) = n_outbox n"
  by (simp_all add: stamp_contact_def)

context hard_store
begin

lemma handle_inbound_vote_kept:
  assumes [simp]: "e_store E = S" and "honest m"
  shows "vote_kept hs n (snd (handle_inbound E C m n))"
proof -
  have n: "vote_kept hs n (stamp_contact E m n)" by (simp add: vote_kept_quiet rank_kept_def)
  have "vote_kept hs (stamp_contact E m n) (snd (handle_inbound E C m n))"
    using assms(2) by (cases "in_message m")
      (simp_all add: honest_def handle_inbound_def Let_def handle_append_vote_kept handle_append_seeded_vote_kept
        handle_append_response_vote_kept handle_request_vote_vote_kept handle_install_snapshot_vote_kept
        handle_timeout_now_vote_kept calm_vote_kept handle_pre_vote_calm handle_custom_calm handle_custom_response_calm
        handle_request_vote_response_def handle_pre_vote_response_def handle_install_snapshot_response_def
        step_down_vote_kept)
  with n show ?thesis by (rule vote_kept_trans)
qed

end

end
