(* ===== verification/Leader_Votes.thy ===== *)
theory Leader_Votes
  imports Vote_Safety Raft_Propose
begin

text \<open>
  The operations of a leader - heartbeats, snapshot streaming, hand-over,
  proposals and reads - and the waiting loops keep the votes as the handlers do:
  the relation \<open>vote_kept\<close> is shown for each of them, for every answer the transport
  may give.
\<close>

section \<open>What a waiting node receives\<close>

definition frames :: "recv_event list \<Rightarrow> inbound_message set" where
  "frames evs = {m. \<exists>ev\<in>set evs. \<exists>f. ev_recv ev = Inr (Some f) \<and> decode_message f = Inr m}"

lemma frames_Cons: "frames (ev # evs) =
    {m. \<exists>f. ev_recv ev = Inr (Some f) \<and> decode_message f = Inr m} \<union> frames evs"
  by (auto simp: frames_def)

lemma drain_frames:
  "drain_inbound_frames deadline room got evs = (Inr ms, evs') \<Longrightarrow>
   set ms \<subseteq> set got \<union> frames evs \<and> frames evs' \<subseteq> frames evs"
proof (induction evs arbitrary: room got)
  case (Cons ev evs)
  then show ?case by (fastforce simp: frames_Cons split: if_splits sum.splits option.splits)
qed simp

lemma batch_env_store [simp]: "e_store (batch_env E evs evs') = e_store E"
  by (simp add: batch_env_def split: list.splits)

lemma frames_mono: "set evs' \<subseteq> set evs \<Longrightarrow> frames evs' \<subseteq> frames evs"
  by (auto simp: frames_def)

lemma at_clock_store [simp]: "e_store (at_clock E evs) = e_store E"
  by (simp add: at_clock_def split: list.splits)

lemma drain_events: "drain_inbound_frames deadline room got evs = (r, evs') \<Longrightarrow> set evs' \<subseteq> set evs"
proof (induction evs arbitrary: room got)
  case (Cons ev evs)
  then show ?case by (fastforce split: if_splits sum.splits option.splits)
qed simp

section \<open>Frame lemmas of the leader's helpers\<close>

lemma ensure_progress_calm: "calm hs n (ensure_leader_progress_initialized E n)"
  by (simp add: ensure_leader_progress_initialized_def initialize_leader_progress_def kept_defs Let_def)

text \<open>A step of a waiting operation: votes kept, and only events of the given list are left.\<close>

definition waits_well :: "('s \<Rightarrow> hard_state) \<Rightarrow> 's raft_node \<Rightarrow> recv_event list \<Rightarrow> 's raft_node \<Rightarrow> recv_event list \<Rightarrow> bool" where
  "waits_well hs n evs n' evs' \<longleftrightarrow> vote_kept hs n n' \<and> set evs' \<subseteq> set evs"

lemma waits_well_trans:
  "waits_well hs n evs m evs1 \<Longrightarrow> waits_well hs m evs1 k evs2 \<Longrightarrow> waits_well hs n evs k evs2"
  unfolding waits_well_def by (blast intro: vote_kept_trans)

lemma waits_well_calm: "calm hs n m \<Longrightarrow> waits_well hs n evs m evs"
  by (simp add: waits_well_def calm_vote_kept)

lemma waits_well_refl [simp]: "waits_well hs n evs n evs"
  by (simp add: waits_well_calm)

lemma all_honest_mono: "set evs' \<subseteq> set evs \<Longrightarrow> \<forall>m\<in>frames evs. honest m \<Longrightarrow> \<forall>m\<in>frames evs'. honest m"
  using frames_mono by blast

context hard_store
begin

lemma handle_tolerant_vote_kept:
  assumes "e_store E = S" and "honest m"
  shows "vote_kept hs n (snd (handle_inbound_tolerant E C m n))"
  using handle_inbound_vote_kept [OF assms, of n C]
  by (auto simp: handle_inbound_tolerant_def split: prod.splits sum.splits)

lemma handle_all_tolerant_vote_kept:
  assumes "e_store E = S" and "\<forall>m\<in>set ms. honest m"
  shows "vote_kept hs n (snd (handle_all_tolerant E C ms n))"
  using assms(2)
  by (induction ms arbitrary: n) (auto intro!: vote_kept_bind handle_tolerant_vote_kept assms(1))

lemma handle_all_vote_kept:
  assumes "e_store E = S" and "\<forall>m\<in>set ms. honest m"
  shows "vote_kept hs n (snd (handle_all E C ms n))"
  using assms(2)
  by (induction ms arbitrary: n) (auto intro!: vote_kept_bind handle_inbound_vote_kept assms(1))

lemma term_at_calm:
  assumes [simp]: "e_store E = S"
  shows "calm hs n (snd (term_at E i n))"
proof -
  have "calm hs m (snd (case r of
             None \<Rightarrow> (Inl (CorruptLog (''missing term at index '' @ show_u64 i)), m)
           | Some t \<Rightarrow> (Inr t, m\<lparr>n_log_metadata := arena_append i t (n_log_metadata m)\<rparr>)))" for m r
    by (simp add: kept_defs split: option.splits)
  then show ?thesis by (auto simp: term_at_def intro!: calm_bind calm_with_storage split: option.splits)
qed

lemma append_prev_calm:
  assumes [simp]: "e_store E = S"
  shows "calm hs n (snd (append_prev_for_peer E p n))"
  by (auto simp: append_prev_for_peer_def Let_def intro!: calm_bind term_at_calm split: option.splits)

lemma send_option_calm: "\<not> is_ballot m \<Longrightarrow> calm hs n (snd (send_option E p m i n))"
  by (simp add: send_option_def case_prod_beta)

lemma send_append_attempt_calm:
  assumes [simp]: "e_store E = S"
  shows "calm hs n (snd (send_append_attempt E p n))"
proof -
  have ergonomic: "calm hs m (snd (send_append_ergonomic E p i t x m))" for m i t x
    unfolding send_append_ergonomic_def Let_def
    by (intro calm_bind calm_with_storage send_option_calm) simp_all
  have read: "calm hs m (snd (with_storage (so_read_entry_headers S i j) m))" for m i j
    by (simp add: calm_with_storage)
  show ?thesis unfolding send_append_attempt_def
  proof (intro calm_bind append_prev_calm assms, clarify)
    fix prev_idx prev_term nxt and m :: "'s raft_node"
    obtain r k where k: "with_storage (so_read_entry_headers S nxt (- 1)) m = (r, k)" by fastforce
    then have mk: "calm hs m k" using read [of m nxt "- 1"] by simp
    show "calm hs m (snd (case with_storage (so_read_entry_headers (e_store E) nxt (- 1)) m of
         (Inr (Some (h # hs)), n) \<Rightarrow>
           let headers = take (max (append_batch_entries (cfg_limits (n_config n))) 1) (h # hs);
               last_idx = eh_index (last headers);
               to_idx = nxt + u64_of (length headers) - 1 in
           bind_op (with_storage (so_for_each_payload (e_store E) nxt to_idx) n) (\<lambda>payloads n.
             send_option E p (AppendEntriesSeededVectored
                 (append_request n prev_idx prev_term (length headers))
                 (concat (map enc_entry_header headers)) payloads) last_idx n)
       | (_, n) \<Rightarrow> send_append_ergonomic E p prev_idx prev_term nxt n))"
      using k by (auto simp: Let_def intro!: calm_trans [OF mk] ergonomic calm_bind calm_with_storage send_option_calm
          split: sum.splits option.splits list.splits)
  qed
qed

lemma build_heartbeat_calm:
  assumes [simp]: "e_store E = S"
  shows "calm hs n (snd (build_heartbeat_wire E p n))"
proof -
  have "calm hs m (snd (bind_op (append_prev_for_peer E p m) (\<lambda>(prev_idx, prev_term, next) n.
       bind_op (with_storage (so_read_entries (e_store E) next (- 1) SCRATCH_PAYLOAD_LEN) n) (\<lambda>_ n.
         (Inr (Some (append_request n prev_idx prev_term 0)), n)))))" for m
    by (auto intro!: calm_bind append_prev_calm calm_with_storage)
  then show ?thesis
    by (auto simp: build_heartbeat_wire_def Let_def intro: calm_trans [OF ensure_progress_calm])
qed

lemma bare_heartbeat_calm:
  assumes "e_store E = S"
  shows "calm hs n (bare_heartbeat E p n)"
  using build_heartbeat_calm [OF assms, of n p]
  by (auto simp: bare_heartbeat_def intro: calm_trans [OF _ calm_send] split: prod.splits sum.splits option.splits)

lemma send_bare_heartbeats_calm:
  assumes "e_store E = S"
  shows "calm hs n (fst (send_bare_heartbeats_except E skip (n, scratch)))"
proof -
  have "calm hs m (fold (bare_heartbeat E) ps m)" for ps m
    by (induction ps arbitrary: m) (auto intro: calm_trans bare_heartbeat_calm [OF assms])
  then show ?thesis by (simp add: send_bare_heartbeats_except_def Let_def)
qed

subsection \<open>Streaming a snapshot\<close>

lemma await_waits_well:
  assumes [simp]: "e_store E = S" and "\<forall>m\<in>frames evs. honest m"
    and "await_snapshot_answer E C peer trm evs n = (r, n', evs')"
  shows "waits_well hs n evs n' evs'"
  using assms(2,3)
proof (induction evs arbitrary: n)
  case (Cons ev evs)
  show ?case
  proof (cases "ev_recv ev")
    case (Inr f)
    show ?thesis
    proof (cases f)
      case (Some frame)
      show ?thesis
      proof (cases "decode_message frame")
        case (Inr m)
        have m: "honest m" using Cons.prems(1) \<open>ev_recv ev = Inr f\<close> Some Inr by (auto simp: frames_Cons)
        obtain q k where k: "handle_inbound (E\<lparr>e_now := ev_now ev\<rparr>) C m n = (q, k)" by fastforce
        then have nk: "vote_kept hs n k"
          using handle_inbound_vote_kept [of "E\<lparr>e_now := ev_now ev\<rparr>" m n C] m by simp
        have IH: "waits_well hs k evs n' evs'" if "await_snapshot_answer E C peer trm evs k = (r, n', evs')"
          using Cons.IH [of k] that Cons.prems(1) by (simp add: frames_Cons)
        show ?thesis
          using Cons.prems(2) \<open>ev_recv ev = Inr f\<close> Some Inr k nk IH
          by (auto simp: waits_well_def simp del: snapshot_answer.simps
              intro: vote_kept_trans split: option.splits sum.splits if_splits)
      qed (use Cons.prems Inr Some in \<open>auto simp: waits_well_def\<close>)
    qed (use Cons.prems Inr in \<open>auto simp: waits_well_def\<close>)
  qed (use Cons.prems in \<open>auto simp: waits_well_def\<close>)
qed simp

lemma take_answer_vote_kept:
  assumes [simp]: "e_store E = S"
  shows "vote_kept hs n (snd (take_answer E total_len done offset np cap resp n))"
  unfolding take_answer_def Let_def
  by (intro vote_kept_if vote_kept_bind [OF step_down_vote_kept]) simp_all

lemma send_chunk_calm:
  assumes [simp]: "e_store E = S"
  shows "calm hs (fst ns) (fst (send_chunk E peer meta snapshot offset hb ns))"
proof -
  obtain n scratch where ns: "ns = (n, scratch)" by fastforce
  let ?m = "if heartbeat_due n (e_now E) hb then send_bare_heartbeats_except E peer (n, scratch) else (n, scratch)"
  have "calm hs n (fst ?m)" by (simp add: send_bare_heartbeats_calm)
  moreover have "\<not> is_ballot (snapshot_chunk k meta snapshot i j)" for k :: "'s raft_node" and i j
    by (simp add: snapshot_chunk_def Let_def)
  ultimately show ?thesis
    unfolding ns send_chunk_def prod.case case_prod_beta fst_conv snd_conv by (rule calm_trans [OF _ calm_send])
qed

lemma stream_waits_well:
  assumes [simp]: "e_store E = S" and "\<forall>m\<in>frames evs. honest m"
    and "stream_snapshot E C peer meta snapshot trm pos hb ns evs = (r, n', scratch', evs')"
  shows "waits_well hs (fst ns) evs n' evs'"
  using assms(2,3)
proof (induction "length evs" arbitrary: evs pos hb ns rule: less_induct)
  case less
  let ?E = "at_clock E evs"
  let ?ns = "send_chunk ?E peer meta snapshot (fst pos) hb ns"
  obtain q n1 evs1 where a: "await_snapshot_answer E C peer trm evs (fst ?ns) = (q, n1, evs1)" by (metis prod_cases3)
  have "waits_well hs (fst ns) evs (fst ?ns) evs" by (simp add: waits_well_calm send_chunk_calm)
  then have w1: "waits_well hs (fst ns) evs n1 evs1"
    using await_waits_well [OF assms(1) less(2) a] by (rule waits_well_trans)
  show ?case
  proof (cases q)
    case (Inl e)
    then show ?thesis using less(3) a w1 by (subst (asm) stream_snapshot.simps) (auto simp: Let_def)
  next
    case (Inr resp)
    let ?t = "take_answer (at_clock E evs1) (length snapshot) (chunk_end (fst ns) (length snapshot) (fst pos) = length snapshot)
      (min (fst pos) (length snapshot)) (snd pos) (max (snapshot_max_attempts_per_peer (cfg_limits (n_config n1))) 1) resp n1"
    obtain t n2 where t: "?t = (t, n2)" by fastforce
    have "vote_kept hs n1 n2" using take_answer_vote_kept [of "at_clock E evs1"] t by (metis assms(1) at_clock_store snd_conv)
    then have w2: "waits_well hs (fst ns) evs n2 evs1" using w1 by (auto simp: waits_well_def intro: vote_kept_trans)
    show ?thesis
    proof (cases "\<exists>pos'. t = Inr (Some pos')")
      case True
      then obtain pos' hb' where rec: "stream_snapshot E C peer meta snapshot trm pos' hb' (n2, snd ?ns) evs1 = (r, n', scratch', evs')"
        using less(3) a Inr t by (subst (asm) stream_snapshot.simps) (auto simp: Let_def)
      have "length evs1 < length evs" using await_shorter a Inr by blast
      from less(1) [OF this _ rec] all_honest_mono [of evs1 evs] less(2) w1
      have "waits_well hs n2 evs1 n' evs'" by (simp add: waits_well_def)
      with w2 show ?thesis by (rule waits_well_trans)
    next
      case False
      then show ?thesis using less(3) a Inr t w2
        by (subst (asm) stream_snapshot.simps) (auto simp: Let_def split: sum.splits option.splits)
    qed
  qed
qed

lemma install_waits_well:
  assumes "e_store E = S" and "\<forall>m\<in>frames evs. honest m"
    and "install_snapshot_once E C peer meta snapshot (n, scratch, evs) = (r, n', scratch', evs')"
  shows "waits_well hs n evs n' evs'"
  using assms(3) stream_waits_well [OF assms(1,2), of C peer meta snapshot "node_term n" "(0, 0)" _ "(n, scratch)"]
  by (auto simp: install_snapshot_once_def split: if_splits)

lemma maybe_install_waits_well:
  assumes [simp]: "e_store E = S" and "\<forall>m\<in>frames evs. honest m"
    and "maybe_install_snapshot_to_lagging_peer E C peer (n, scratch, evs) = (r, n', scratch', evs')"
  shows "waits_well hs n evs n' evs'"
proof (cases "pm_get peer (n_progress n)")
  case None
  then show ?thesis using assms(3) by (auto simp: maybe_install_snapshot_to_lagging_peer_def)
next
  case (Some p)
  obtain q n1 where q: "with_storage (so_load_snapshot_meta S) n = (q, n1)" by fastforce
  have c1: "calm hs n n1" using calm_with_storage [of hs "so_load_snapshot_meta S" n] q by simp
  show ?thesis
  proof (cases "\<exists>meta. q = Inr (Some meta) \<and> next_index p \<le> last_included_index meta")
    case False
    then show ?thesis using assms(3) Some q c1
      by (auto simp: maybe_install_snapshot_to_lagging_peer_def waits_well_calm split: sum.splits option.splits if_splits)
  next
    case True
    then obtain meta where meta: "q = Inr (Some meta)" "next_index p \<le> last_included_index meta" by blast
    define st where "st = (case pm_get peer (n_snapshot_attempts n1) of Some st \<Rightarrow> st | None \<Rightarrow> default_snapshot_attempts)"
    obtain go st' where go: "admit_attempt (e_now (at_clock E evs)) (cfg_limits (n_config n1)) st = (go, st')" by fastforce
    define n2 where "n2 = n1\<lparr>n_snapshot_attempts := pm_insert peer st' (n_snapshot_attempts n1)\<rparr>"
    have c2: "calm hs n n2" using c1 by (rule calm_trans) (simp add: n2_def kept_defs)
    have c2': "calm hs n (inc_snapshot_installs_refused n2)"
      using c2 by (rule calm_trans) (simp add: inc_snapshot_installs_refused_def kept_defs)
    obtain l n3 where l: "with_storage (so_load_snapshot S) n2 = (l, n3)" by fastforce
    have c3: "calm hs n n3" using c2 calm_with_storage [of hs "so_load_snapshot S" n2] l by (auto intro: calm_trans)
    show ?thesis
    proof (cases "go \<and> (\<exists>meta bytes. l = Inr (Some (meta, bytes)))")
      case False
      then show ?thesis using assms(3) Some q meta(1) leD [OF meta(2)] go l c2' c3
        by (auto simp: maybe_install_snapshot_to_lagging_peer_def Let_def waits_well_calm n2_def st_def
            split: sum.splits option.splits if_splits)
    next
      case True
      then obtain meta' bytes where l': "l = Inr (Some (meta', bytes))" by auto
      obtain x n4 sc evs4 where x: "install_snapshot_once E C peer meta' bytes (n3, scratch, evs) = (x, n4, sc, evs4)"
        by (metis prod_cases4)
      have w: "waits_well hs n evs n4 evs4"
        by (rule waits_well_trans [OF waits_well_calm [OF c3] install_waits_well [OF assms(1,2) x]])
      have "waits_well hs n4 evs4 (n4\<lparr>n_snapshot_attempts := a, n_progress := b\<rparr>) evs4" for a b
        by (rule waits_well_calm) (simp add: kept_defs)
      then show ?thesis using assms(3) Some q meta(1) leD [OF meta(2)] go l l' x True w
        by (auto simp: maybe_install_snapshot_to_lagging_peer_def Let_def n2_def st_def
            intro: waits_well_trans split: sum.splits)
    qed
  qed
qed

lemma escalate_waits_well:
  assumes "e_store E = S" and "\<forall>m\<in>frames evs. honest m"
    and "escalate_snapshot_catchup E C peer (n, scratch, evs) = (r, n', scratch', evs')"
  shows "waits_well hs n evs n' evs'"
  using assms(3) maybe_install_waits_well [OF assms(1,2), of C peer n scratch]
  by (auto simp: escalate_snapshot_catchup_def split: prod.splits sum.splits bool.splits)

subsection \<open>Heartbeats\<close>

lemma heartbeat_peer_waits_well:
  assumes [simp]: "e_store E = S" and "\<forall>m\<in>frames evs. honest m"
    and "heartbeat_peer E C last_log peer esc (n, scratch, evs) = (esc', n', scratch', evs')"
  shows "waits_well hs n evs n' evs'"
proof -
  have bare: "waits_well hs n evs (bare_heartbeat (at_clock E evs) peer n) evs"
    by (simp add: waits_well_calm bare_heartbeat_calm)
  have esc: "waits_well hs n evs n' evs'"
    if "calm hs n m" and "(if esc then (esc, m, scratch, evs)
       else case escalate_snapshot_catchup E C peer (m, scratch, evs) of (outcome, st) \<Rightarrow> (outcome \<noteq> Refused, st)) =
       (esc', n', scratch', evs')" for m
    using that escalate_waits_well [OF assms(1,2), of C peer m scratch]
    by (auto intro: waits_well_calm waits_well_trans [OF waits_well_calm] split: if_splits prod.splits)
  show ?thesis
  proof (cases "pm_get peer (n_progress n)")
    case (Some p)
    show ?thesis
    proof (cases "next_index p \<le> last_log")
      case True
      obtain q n1 where q: "with_storage (so_entry_at S (next_index p) SCRATCH_PAYLOAD_LEN) n = (q, n1)" by fastforce
      have c1: "calm hs n n1"
        using calm_with_storage [of hs "so_entry_at S (next_index p) SCRATCH_PAYLOAD_LEN" n] q by simp
      obtain x n2 where x: "send_append_attempt (at_clock E evs) peer n1 = (x, n2)" by fastforce
      have c2: "calm hs n n2"
        using c1 send_append_attempt_calm [of "at_clock E evs" n1 peer] x by (auto intro: calm_trans)
      show ?thesis
      proof (cases "q = Inr None")
        case q0: True
        then show ?thesis using esc [OF c1] assms(3) Some True q by (simp add: heartbeat_peer_def Let_def)
      next
        case False
        show ?thesis
        proof (cases x)
          case (Inl e)
          then show ?thesis using esc [OF c2] assms(3) Some True q x False
            by (simp add: heartbeat_peer_def Let_def split: sum.splits option.splits)
        next
          case (Inr v)
          then show ?thesis using c2 assms(3) Some True q x False
            by (auto simp: heartbeat_peer_def Let_def waits_well_calm split: sum.splits option.splits)
        qed
      qed
    qed (use Some bare assms(3) in \<open>auto simp: heartbeat_peer_def Let_def\<close>)
  qed (use bare assms(3) in \<open>auto simp: heartbeat_peer_def Let_def\<close>)
qed

lemma heartbeat_loop_waits_well:
  assumes [simp]: "e_store E = S" and "\<forall>m\<in>frames evs. honest m"
    and "heartbeat_loop E C last_log is esc (n, scratch, evs) = (r, n', scratch', evs')"
  shows "waits_well hs n evs n' evs'"
  using assms(2,3)
proof (induction "is" arbitrary: esc n scratch evs)
  case (Cons i "is")
  obtain esc1 n1 scratch1 evs1 where
    one: "heartbeat_peer E C last_log (scratch ! i) esc (n, scratch, evs) = (esc1, n1, scratch1, evs1)" by (metis prod_cases4)
  have w: "waits_well hs n evs n1 evs1" by (rule heartbeat_peer_waits_well [OF assms(1) Cons.prems(1) one])
  show ?case
  proof (cases "i \<ge> length scratch")
    case False
    then have "heartbeat_loop E C last_log is esc1 (n1, scratch1, evs1) = (r, n', scratch', evs')"
      using Cons.prems(2) one by simp
    from Cons.IH [OF _ this] all_honest_mono [of evs1 evs] Cons.prems(1) w
    have "waits_well hs n1 evs1 n' evs'" by (simp add: waits_well_def)
    with w show ?thesis by (rule waits_well_trans)
  qed (use Cons.prems(2) in simp)
qed simp

lemma heartbeat_once_waits_well:
  assumes "e_store E = S" and "\<forall>m\<in>frames evs. honest m"
    and "send_heartbeat_once E C (n, scratch, evs) = (r, n', scratch', evs')"
  shows "waits_well hs n evs n' evs'"
proof (cases "is_leader n")
  case True
  let ?n = "ensure_leader_progress_initialized (at_clock E evs) n"
  have "heartbeat_loop E C (fst (n_last_log ?n)) [0..<length (followers ?n)] False (?n, followers ?n, evs) =
      (r, n', scratch', evs')" using assms(3) True by (simp add: send_heartbeat_once_def Let_def)
  from heartbeat_loop_waits_well [OF assms(1,2) this] show ?thesis
    by (rule waits_well_trans [OF waits_well_calm [OF ensure_progress_calm]])
qed (use assms(3) in \<open>simp add: send_heartbeat_once_def\<close>)

subsection \<open>Handing over\<close>

lemma transfer_probe_waits_well:
  assumes [simp]: "e_store E = S" and "\<forall>m\<in>frames evs. honest m"
    and "transfer_probe E C target probe (n, scratch, evs) = (r, n', scratch', evs')"
  shows "waits_well hs n evs n' evs'"
proof -
  obtain h m sc evs1 where h: "send_heartbeat_once E C (n, scratch, evs) = (h, m, sc, evs1)" by (metis prod_cases4)
  have "waits_well hs n evs m evs1" by (rule heartbeat_once_waits_well [OF assms(1,2) h])
  moreover have "calm hs n (snd (send_append_attempt (at_clock E evs) target n))" by (simp add: send_append_attempt_calm)
  ultimately show ?thesis using assms(3) h
    by (auto simp: transfer_probe_def Let_def waits_well_calm split: if_splits option.splits sum.splits prod.splits)
qed

lemma drain_waits_well:
  assumes "e_store E = S" and "\<forall>m\<in>frames evs. honest m" and "drain_inbound_frames deadline room [] evs = (Inr ms, evs')"
  shows "waits_well hs n evs (snd (handle_all_tolerant (batch_env E evs evs') C ms n)) evs'"
proof -
  have "\<forall>m\<in>set ms. honest m" using drain_frames [OF assms(3)] assms(2) by auto
  then show ?thesis
    using handle_all_tolerant_vote_kept [of "batch_env E evs evs'" ms n C] drain_events [OF assms(3)] assms(1)
    by (simp add: waits_well_def)
qed

lemma transfer_loop_waits_well:
  assumes [simp]: "e_store E = S" and "\<forall>m\<in>frames evs. honest m"
    and "transfer_loop E C target trm deadline room probe n scratch evs = (r, n', scratch', evs')"
  shows "waits_well hs n evs n' evs'"
  using assms(2,3)
proof (induction "length evs" arbitrary: evs probe n scratch rule: less_induct)
  case less
  show ?case
  proof (cases "\<not> is_leader n \<or> node_term n \<noteq> trm \<or> caught_up n target \<or> evs = [] \<or> e_now (at_clock E evs) \<ge> deadline")
    case True
    then show ?thesis using less(3) by (subst (asm) transfer_loop.simps) (auto split: if_splits)
  next
    case False
    obtain p n1 sc evs1 where p: "transfer_probe E C target probe (n, scratch, evs) = (p, n1, sc, evs1)" by (metis prod_cases4)
    have w1: "waits_well hs n evs n1 evs1" by (rule transfer_probe_waits_well [OF assms(1) less(2) p])
    show ?thesis
    proof (cases "\<exists>probe'. p = Some (Inr probe')")
      case None: False
      then show ?thesis using less(3) False p w1
        by (subst (asm) transfer_loop.simps) (auto split: if_splits option.splits sum.splits)
    next
      case True
      then obtain probe' where p': "p = Some (Inr probe')" by blast
      obtain d evs2 where d: "drain_inbound_frames (min deadline (fst probe')) room [] evs1 = (d, evs2)" by fastforce
      have h1: "\<forall>m\<in>frames evs1. honest m" using w1 less(2) all_honest_mono [of evs1 evs] by (simp add: waits_well_def)
      show ?thesis
      proof (cases d)
        case (Inl e)
        then show ?thesis using less(3) False p p' d w1 drain_events [OF d]
          by (subst (asm) transfer_loop.simps) (auto simp: Let_def waits_well_def)
      next
        case (Inr ms)
        obtain q n2 where q: "handle_all_tolerant (batch_env E evs1 evs2) C ms n1 = (q, n2)" by fastforce
        have "waits_well hs n1 evs1 n2 evs2"
          using drain_waits_well [OF assms(1) h1 d [unfolded Inr], of n1 C] q by simp
        with w1 have w2: "waits_well hs n evs n2 evs2" by (rule waits_well_trans)
        let ?rest = "if length evs1 < length evs then evs1 else tl evs"
        let ?evs = "if length evs2 < length ?rest then evs2 else ?rest"
        have shorter: "length ?evs < length evs" using False by (auto simp: neq_Nil_conv)
        have "set (tl evs) \<subseteq> set evs" using False by (auto simp: neq_Nil_conv)
        then have sub: "set ?evs \<subseteq> set evs" using w1 w2 by (auto simp: waits_well_def)
        show ?thesis
        proof (cases q)
          case (Inl e)
          then show ?thesis using less(3) False p p' d Inr q w2
            by (subst (asm) transfer_loop.simps) (auto simp: Let_def)
        next
          case ok: (Inr u)
          then have "transfer_loop E C target trm deadline room probe' n2 sc ?evs = (r, n', scratch', evs')"
            using less(3) False p p' d Inr q by (subst (asm) transfer_loop.simps) (auto simp: Let_def)
          from less(1) [OF shorter _ this] all_honest_mono [OF sub less(2)]
          have "waits_well hs n2 ?evs n' evs'" by blast
          then show ?thesis using w2 sub unfolding waits_well_def by (blast intro: vote_kept_trans)
        qed
      qed
    qed
  qed
qed

lemma transfer_waits_well:
  assumes [simp]: "e_store E = S" and "\<forall>m\<in>frames evs. honest m"
    and "transfer_leadership E C target room (n, scratch, evs) = (r, n', scratch', evs')"
  shows "waits_well hs n evs n' evs'"
proof (cases "is_leader n \<and> target \<noteq> node_id n \<and> target \<in> set (peers n)")
  case False
  then show ?thesis using assms(3) by (auto simp: transfer_leadership_def split: if_splits)
next
  case True
  let ?n = "ensure_leader_progress_initialized (at_clock E evs) n" and ?now = "e_now (at_clock E evs)"
  obtain l n1 sc evs1 where
    l: "transfer_loop E C target (node_term n) (?now + election_timeout ?n) room (?now, - 1) ?n scratch evs = (l, n1, sc, evs1)"
    by (metis prod_cases4)
  have w: "waits_well hs n evs n1 evs1"
    by (rule waits_well_trans [OF waits_well_calm [OF ensure_progress_calm] transfer_loop_waits_well [OF assms(1,2) l]])
  obtain ok n2 where m: "send_message (at_clock E evs1) target (TimeoutNow \<lparr>tn_term = node_term n, tn_leader_id = node_id n1\<rparr>) n1 = (ok, n2)"
    by fastforce
  have c: "calm hs n1 n2" using calm_send [of "TimeoutNow \<lparr>tn_term = node_term n, tn_leader_id = node_id n1\<rparr>" hs n1 "at_clock E evs1" target] m
    by (simp del: calm_send)
  moreover have "calm hs n2 (n2\<lparr>n_pending_transfer := x\<rparr>)" for x by (simp add: kept_defs)
  ultimately have "waits_well hs n evs n2 evs1" "waits_well hs n evs (n2\<lparr>n_pending_transfer := x\<rparr>) evs1" for x
    using w by (blast intro: waits_well_trans waits_well_calm calm_trans)+
  then show ?thesis using assms(3) True l m w
    by (auto simp: transfer_leadership_def Let_def split: option.splits sum.splits bool.splits)
qed

subsection \<open>Proposals\<close>

lemma check_freeze_calm: "calm hs n (snd (check_transfer_freeze now n))"
  by (auto simp: check_transfer_freeze_def leadership_transfer_in_progress_def kept_defs split: option.splits)

lemma append_propose_calm:
  assumes [simp]: "e_store E = S"
  shows "calm hs n (snd (append_propose_entries E payloads n))"
proof -
  have "calm hs m (m\<lparr>n_log_metadata := a, n_last_log := l\<rparr>)" for m a l by (simp add: kept_defs)
  then show ?thesis by (auto simp: append_propose_entries_def Let_def intro!: calm_bind calm_with_storage)
qed

lemma fan_out_calm: "\<not> is_ballot msg \<Longrightarrow> calm hs n (snd (fan_out E msg ps n))"
proof (induction ps arbitrary: n)
  case (Cons p ps)
  have "calm hs n (n\<lparr>n_outbox := n_outbox n @ [(p, msg)]\<rparr>)"
    using Cons.prems by (simp add: kept_defs outbox_quiet_def)
  then show ?case using Cons by (auto simp: case_prod_beta intro: calm_trans)
qed simp

lemma send_initial_calm:
  assumes [simp]: "e_store E = S"
  shows "calm hs n (snd (send_initial_appends E t entries n))"
proof -
  have "calm hs m (snd (case encode_batch t m msg entries of
             Inl e \<Rightarrow> (Inl e, m)
           | Inr _ \<Rightarrow> (case fan_out E msg (followers m) m of (ok, n) \<Rightarrow> (Inr (f ok), n))))"
    if "\<not> is_ballot msg" for m msg and f :: "peer_id list \<Rightarrow> append_attempt_state peer_map"
    using that fan_out_calm [of msg m E "followers m"] by (auto split: sum.splits prod.splits)
  then have "calm hs m (snd (bind_op (term_at E prev m) (\<lambda>prev_term n.
           let msg = AppendEntriesVectored (append_request n prev prev_term (length entries)) entries in
           case encode_batch t n msg entries of
             Inl e \<Rightarrow> (Inl e, n)
           | Inr _ \<Rightarrow>
               (case fan_out E msg (followers n) n of
                  (ok, n) \<Rightarrow> (Inr (f ok), n)))))"
    for m prev and f :: "peer_id list \<Rightarrow> append_attempt_state peer_map"
    by (intro calm_bind term_at_calm) (simp_all add: Let_def)
  then show ?thesis
    by (auto simp: send_initial_appends_def Let_def intro!: calm_bind calm_with_storage)
qed

lemma quorum_term_calm:
  assumes [simp]: "e_store E = S"
  shows "calm hs n (snd (quorum_term E i n))"
proof -
  have "calm hs m (if b then m\<lparr>n_log_metadata := a\<rparr> else m)" for m b a by (simp add: kept_defs)
  then show ?thesis
    by (auto simp: quorum_term_def Let_def intro!: calm_bind calm_with_storage split: option.splits)
qed

lemma commit_batch_vote_kept:
  assumes [simp]: "e_store E = S"
  shows "vote_kept hs n (snd (commit_batch E trm needed accepted i n))"
proof -
  have "vote_kept hs n (snd (bind_op (quorum_term E q n) (\<lambda>t n.
           (Inr (), if t = node_term n then set_commit_index q n else n))))" for q
    by (intro vote_kept_bind [OF calm_vote_kept [OF quorum_term_calm]]) (simp_all only: snd_conv set_commit_vote_kept assms)
  then have "vote_kept hs n (snd (try_advance_commit_index E n))"
    by (simp add: try_advance_commit_index_def split: option.splits)
  then show ?thesis by (simp add: commit_batch_def set_commit_vote_kept)
qed

lemma advance_vote_kept:
  assumes [simp]: "e_store E = S"
  shows "vote_kept hs n (snd (advance_append_replication E p i st resp n))"
proof -
  have retry: "vote_kept hs n (snd (bind_op (send_append_attempt E p (n\<lparr>n_progress := x\<rparr>)) (\<lambda>sent n. (Inr (f sent), n))))"
    for x and f :: "log_index option \<Rightarrow> append_advance"
  proof -
    have "calm hs n (n\<lparr>n_progress := x\<rparr>)" by (simp add: kept_defs)
    then show ?thesis
      by (intro calm_vote_kept calm_bind calm_trans [OF _ send_append_attempt_calm]) simp_all
  qed
  have "vote_kept hs n (n\<lparr>n_progress := x\<rparr>)" for x by (intro calm_vote_kept) (simp add: kept_defs)
  with retry show ?thesis unfolding advance_append_replication_def Let_def
    by (intro vote_kept_if vote_kept_bind [OF step_down_vote_kept]) (simp_all split: option.splits)
qed

lemma process_resp_vote_kept:
  assumes "e_store E = S"
  shows "vote_kept hs n (snd (snd (process_append_resp E p resp i g n)))"
  using advance_vote_kept [OF assms, of n p i _ resp] handle_append_response_vote_kept [OF assms, of n p resp]
  by (fastforce simp: process_append_resp_def case_prod_beta split: option.splits sum.splits append_advance.splits prod.splits)

lemma gather_dispatch_vote_kept:
  assumes "e_store E = S" and "\<And>m. decode_message frame = Inr m \<Longrightarrow> honest m"
  shows "vote_kept hs n (snd (snd (gather_dispatch_frame E C frame i g n)))"
proof (cases "decode_message frame")
  case (Inr m)
  then show ?thesis
    using assms process_resp_vote_kept [OF assms(1)] handle_inbound_vote_kept [OF assms(1), of m n C]
    by (auto simp: gather_dispatch_frame_def case_prod_beta split: raft_message.splits)
qed (simp add: gather_dispatch_frame_def)

lemma gather_loop_waits_well:
  assumes [simp]: "e_store E = S" and "\<forall>m\<in>frames evs. honest m"
    and "gather_loop E C needed i deadline burst evs g n = (r, n', evs')"
  shows "waits_well hs n evs n' evs'"
  using assms(2,3)
proof (induction evs arbitrary: burst g n)
  case (Cons ev evs)
  have sub: "waits_well hs n (ev # evs) n' evs'" if "waits_well hs n evs n' evs'"
    using that by (auto simp: waits_well_def)
  have hon: "\<forall>m\<in>frames evs. honest m" using Cons.prems(1) by (simp add: frames_Cons)
  have wait: "waits_well hs n (ev # evs) n' evs'"
    if "(if burst \<and> ev_now ev < deadline then gather_loop E C needed i deadline False evs g n
      else (Inr (snd g), n, evs)) = (r, n', evs')"
    using that Cons.IH [OF hon] sub by (auto simp: waits_well_def split: if_splits)
  show ?case
  proof (cases "\<exists>frame. ev_recv ev = Inr (Some frame)")
    case False
    then show ?thesis using Cons.prems(2) wait
      by (auto simp: Let_def waits_well_def split: sum.splits option.splits if_splits)
  next
    case True
    then obtain frame where f: "ev_recv ev = Inr (Some frame)" by blast
    obtain q g1 n1 where d: "gather_dispatch_frame (E\<lparr>e_now := ev_now ev\<rparr>) C frame i g n = (q, g1, n1)" by (metis prod_cases3)
    have "decode_message frame = Inr m \<Longrightarrow> honest m" for m using Cons.prems(1) f by (auto simp: frames_Cons)
    then have k: "vote_kept hs n n1"
      using gather_dispatch_vote_kept [of "E\<lparr>e_now := ev_now ev\<rparr>" frame n C i g] d by simp
    then have w: "waits_well hs n (ev # evs) n1 evs" by (auto simp: waits_well_def)
    show ?thesis using Cons.prems(2) f d w Cons.IH [OF hon, of True g1 n1]
      by (auto simp: Let_def intro: waits_well_trans split: if_splits)
  qed
qed simp

lemma drain_ready_waits_well:
  assumes [simp]: "e_store E = S" and "\<forall>m\<in>frames evs. honest m" and "drain_inbound_ready E C evs n = (r, n', evs')"
  shows "waits_well hs n evs n' evs'"
  using assms(2,3)
proof (induction evs arbitrary: n)
  case (Cons ev evs)
  have hon: "\<forall>m\<in>frames evs. honest m" using Cons.prems(1) by (simp add: frames_Cons)
  show ?case
  proof (cases "\<exists>frame m. ev_recv ev = Inr (Some frame) \<and> decode_message frame = Inr m")
    case False
    then show ?thesis using Cons.prems(2) Cons.IH [OF hon, of n]
      by (auto simp: waits_well_def split: sum.splits option.splits)
  next
    case True
    then obtain frame m where f: "ev_recv ev = Inr (Some frame)" "decode_message frame = Inr m" by blast
    obtain q n1 where q: "handle_inbound_tolerant (E\<lparr>e_now := ev_now ev\<rparr>) C m n = (q, n1)" by fastforce
    have "vote_kept hs n n1"
      using handle_tolerant_vote_kept [of "E\<lparr>e_now := ev_now ev\<rparr>" m n C] q Cons.prems(1) f by (auto simp: frames_Cons)
    then have w: "waits_well hs n (ev # evs) n1 evs" by (auto simp: waits_well_def)
    show ?thesis using Cons.prems(2) f q w Cons.IH [OF hon, of n1]
      by (auto intro: waits_well_trans split: sum.splits)
  qed
qed simp

lemma gather_waits_well:
  assumes "e_store E = S" and "\<forall>m\<in>frames evs. honest m"
    and "gather_quorum_acks E C needed i timeout pending n evs = (r, n', evs')"
  shows "waits_well hs n evs n' evs'"
  using assms(3) gather_loop_waits_well [OF assms(1,2)] by (auto simp: gather_quorum_acks_def split: if_splits)

lemma finish_waits_well:
  assumes [simp]: "e_store E = S" and "\<forall>m\<in>frames evs. honest m"
    and "finish_propose E C indexes i pending n evs = (r, n', evs')"
  shows "waits_well hs n evs n' evs'"
proof -
  obtain g n1 evs1 where g: "gather_quorum_acks E C (quorum (length (peers n))) i (gather_timeout n) pending n evs = (g, n1, evs1)"
    by (metis prod_cases3)
  have w1: "waits_well hs n evs n1 evs1" by (rule gather_waits_well [OF assms(1,2) g])
  show ?thesis
  proof (cases g)
    case (Inl e)
    then show ?thesis using assms(3) g w1 by (simp add: finish_propose_def Let_def)
  next
    case (Inr accepted)
    obtain c n2 where c: "commit_batch (at_clock E evs1) (node_term n) (quorum (length (peers n))) accepted i n1 = (c, n2)" by fastforce
    have "vote_kept hs n1 n2"
      using commit_batch_vote_kept [of "at_clock E evs1" n1 "node_term n" "quorum (length (peers n))" accepted i] c by simp
    with w1 have w2: "waits_well hs n evs n2 evs1" by (auto simp: waits_well_def intro: vote_kept_trans)
    obtain d n3 evs3 where d: "drain_inbound_ready E C evs1 n2 = (d, n3, evs3)" by (metis prod_cases3)
    have "\<forall>m\<in>frames evs1. honest m" using w1 assms(2) unfolding waits_well_def by (blast intro: frames_mono [THEN subsetD])
    from drain_ready_waits_well [OF assms(1) this d] w2 have w3: "waits_well hs n evs n3 evs3" by (blast intro: waits_well_trans)
    show ?thesis using assms(3) g Inr c d w2 w3
      by (auto simp: finish_propose_def Let_def split: sum.splits if_splits)
  qed
qed

lemma propose_batch_waits_well:
  assumes [simp]: "e_store E = S" and "\<forall>m\<in>frames evs. honest m"
    and "propose_batch_once E C t payloads n evs = (r, n', evs')"
  shows "waits_well hs n evs n' evs'"
proof -
  obtain f n1 where f: "check_transfer_freeze (e_now (at_clock E evs)) n = (f, n1)" by fastforce
  have c1: "calm hs n n1" using check_freeze_calm [of n "e_now (at_clock E evs)"] f by simp
  let ?E = "at_clock E evs" and ?n = "ensure_leader_progress_initialized (at_clock E evs) n1"
  obtain a n2 where a: "append_propose_entries ?E payloads ?n = (a, n2)" by fastforce
  have c2: "calm hs n n2"
    using calm_trans [OF calm_trans [OF c1 ensure_progress_calm] append_propose_calm [of ?E ?n payloads]] a by simp
  obtain s n3 where s: "send_initial_appends ?E t (propose_entries payloads ?n) n2 = (s, n3)" by fastforce
  have c3: "calm hs n n3"
    using calm_trans [OF c2 send_initial_calm [of ?E n2 t "propose_entries payloads ?n"]] s by simp
  have fin: "waits_well hs n evs n' evs'"
    if "finish_propose E C ix i pending n3 evs = (r, n', evs')" for ix i pending
    by (rule waits_well_trans [OF waits_well_calm [OF c3] finish_waits_well [OF assms(1,2) that]])
  show ?thesis using assms(3) f a s c1 c2 c3 fin
    by (auto simp: propose_batch_once_def Let_def waits_well_calm split: if_splits sum.splits)
qed

lemma propose_once_waits_well:
  assumes "e_store E = S" and "\<forall>m\<in>frames evs. honest m" and "propose_once E C t payload n evs = (r, n', evs')"
  shows "waits_well hs n evs n' evs'"
  using assms(3) propose_batch_waits_well [OF assms(1,2), of C t "[payload]" n]
  by (auto simp: propose_once_def split: prod.splits sum.splits list.splits)

lemma replicate_calm:
  assumes [simp]: "e_store E = S"
  shows "calm hs n (snd (replicate_batch_async E t payloads n))"
proof -
  have tail: "calm hs m (snd (case encode_batch t k msg es of Inl e \<Rightarrow> (Inl e, k)
      | Inr _ \<Rightarrow> (Inr x, snd (fan_out E msg (followers k) k))))"
    if "\<not> is_ballot msg" "calm hs m k" for m k msg es and x :: "log_index \<times> nat"
    using that calm_trans [OF that(2) fan_out_calm [OF that(1)]] by (auto split: sum.splits)
  have set: "calm hs m (set_last_from ps (m\<lparr>n_log_metadata := a\<rparr>))" for m ps a
    by (simp add: set_last_from_def kept_defs)
  have inner: "calm hs m (snd (let k = ensure_leader_progress_initialized E m; (i, t') = n_last_log k; es = propose_entries payloads k in
      bind_op (with_storage (so_append_entries S es) k) (\<lambda>_ k.
        let k = set_last_from (map entry_pos es) (k\<lparr>n_log_metadata := arena_append_all (map entry_pos es) (n_log_metadata k)\<rparr>);
            msg = AppendEntriesVectored (append_request k i t' (length es)) es in
        case encode_batch t k msg es of Inl e \<Rightarrow> (Inl e, k)
        | Inr _ \<Rightarrow> (Inr (sat_add i 1, length payloads), snd (fan_out E msg (followers k) k)))))" for m
    by (rule calm_trans [OF ensure_progress_calm [of hs m E]])
      (auto simp: Let_def case_prod_beta intro!: calm_bind tail set calm_with_storage)
  show ?thesis unfolding replicate_batch_async_def
    using inner by (auto simp: check_freeze_calm intro!: calm_bind)
qed

subsection \<open>Reads\<close>

lemma count_acks_vote_kept:
  assumes "e_store E = S" and "\<forall>m\<in>set ms. honest m"
  shows "vote_kept hs n (snd (count_acks E C trm probe ms acks n))"
  using assms(2)
  by (induction ms arbitrary: acks n) (auto intro!: vote_kept_bind handle_tolerant_vote_kept assms(1))

lemma confirm_loop_waits_well:
  assumes [simp]: "e_store E = S" and "\<forall>m\<in>frames evs. honest m"
    and "confirm_loop E C trm probe deadline room next_probe acks n scratch evs = (r, n', scratch', evs')"
  shows "waits_well hs n evs n' evs'"
  using assms(2,3)
proof (induction "length evs" arbitrary: evs next_probe acks n scratch rule: less_induct)
  case less
  show ?case
  proof (cases "\<not> is_leader n \<or> node_term n \<noteq> trm \<or> voter_majority n acks \<or> evs = [] \<or> e_now (at_clock E evs) \<ge> deadline")
    case True
    then show ?thesis using less(3) by (subst (asm) confirm_loop.simps) (auto split: if_splits)
  next
    case False
    let ?now = "e_now (at_clock E evs)"
    let ?np = "if ?now \<ge> next_probe then ?now + max (unat (heartbeat_ms (cfg_timing (n_config n)))) 1 else next_probe"
    obtain h n1 sc evs1 where h: "(if ?now \<ge> next_probe then send_heartbeat_once E C (n, scratch, evs)
        else (Some (Inr ()), n, scratch, evs)) = (h, n1, sc, evs1)" by (metis prod_cases4)
    have w1: "waits_well hs n evs n1 evs1"
      using h heartbeat_once_waits_well [OF assms(1) less(2)] by (auto split: if_splits)
    show ?thesis
    proof (cases "h = Some (Inr ())")
      case bad: False
      have "(r, n', evs') = (h, n1, evs1)"
        using less(3) False h bad by (subst (asm) confirm_loop.simps) (auto simp: Let_def split: option.splits sum.splits)
      then show ?thesis using w1 by simp
    next
      case True
      obtain d evs2 where d: "drain_inbound_frames (min deadline ?np) room [] evs1 = (d, evs2)" by fastforce
      have h1: "\<forall>m\<in>frames evs1. honest m" using w1 less(2) all_honest_mono [of evs1 evs] by (simp add: waits_well_def)
      show ?thesis
      proof (cases d)
        case (Inl e)
        then show ?thesis using less(3) False h True d w1 drain_events [OF d]
          by (subst (asm) confirm_loop.simps) (auto simp: Let_def waits_well_def)
      next
        case (Inr ms)
        obtain q n2 where q: "count_acks (batch_env E evs1 evs2) C trm probe ms acks n1 = (q, n2)" by fastforce
        have "\<forall>m\<in>set ms. honest m" using drain_frames [OF d [unfolded Inr]] h1 by auto
        then have "vote_kept hs n1 n2"
          using count_acks_vote_kept [of "batch_env E evs1 evs2" ms n1 C trm probe acks] q by simp
        then have w2: "waits_well hs n evs n2 evs2"
          using w1 drain_events [OF d] by (auto simp: waits_well_def intro: vote_kept_trans)
        let ?evs = "if length evs2 < length evs then evs2 else tl evs"
        have shorter: "length ?evs < length evs" using False by (auto simp: neq_Nil_conv)
        have sub: "set ?evs \<subseteq> set evs" using w2 False by (auto simp: waits_well_def neq_Nil_conv)
        show ?thesis
        proof (cases q)
          case (Inl e)
          then show ?thesis using less(3) False h True d Inr q w2
            by (subst (asm) confirm_loop.simps) (auto simp: Let_def)
        next
          case ok: (Inr acks')
          then have "confirm_loop E C trm probe deadline room ?np acks' n2 sc ?evs = (r, n', scratch', evs')"
            using less(3) False h True d Inr q by (subst (asm) confirm_loop.simps) (auto simp: Let_def)
          from less(1) [OF shorter _ this] all_honest_mono [OF sub less(2)]
          have "waits_well hs n2 ?evs n' evs'" by blast
          then show ?thesis using w2 sub unfolding waits_well_def by (blast intro: vote_kept_trans)
        qed
      qed
    qed
  qed
qed

lemma read_index_waits_well:
  assumes [simp]: "e_store E = S" and "\<forall>m\<in>frames evs. honest m"
    and "read_index E C t room (n, scratch, evs) = (r, n', scratch', evs')"
  shows "waits_well hs n evs n' evs'"
proof -
  obtain f n1 where f: "check_transfer_freeze (e_now (at_clock E evs)) n = (f, n1)" by fastforce
  have c1: "calm hs n n1" using check_freeze_calm [of n "e_now (at_clock E evs)"] f by simp
  obtain q n2 where q: "(if commit_index n1 > 0 then term_at (at_clock E evs) (commit_index n1) n1 else (Inl NoQuorum, n1)) = (q, n2)"
    by fastforce
  have c2: "calm hs n n2"
    using c1 q term_at_calm [of "at_clock E evs" n1 "commit_index n1"] by (auto intro: calm_trans split: if_splits)
  have proposed: "waits_well hs n evs m evs''" if "propose_once E C t noop_entry n2 evs = (x, m, evs'')" for x m evs''
    by (rule waits_well_trans [OF waits_well_calm [OF c2] propose_once_waits_well [OF assms(1,2) that]])
  have conf: "waits_well hs n evs m evs''"
    if "confirm_leadership_quorum E C (node_term n1) room (n2, scratch, evs) = (x, m, sc, evs'')" for x m sc evs''
  proof -
    let ?m = "n2\<lparr>n_read_probe_seq := bump_probe (n_read_probe_seq n2)\<rparr>"
    have "calm hs n ?m" using c2 by (rule calm_trans) (simp add: kept_defs)
    then show ?thesis using that confirm_loop_waits_well [OF assms(1,2)]
      by (auto simp: confirm_leadership_quorum_def Let_def waits_well_calm
          intro: waits_well_trans [OF waits_well_calm] split: if_splits)
  qed
  show ?thesis using assms(3) f q c1 proposed conf
    by (auto simp: read_index_def Let_def waits_well_calm split: if_splits sum.splits option.splits prod.splits)
qed

subsection \<open>Compaction and recovery\<close>

lemma maybe_compact_calm:
  assumes [simp]: "e_store E = S"
  shows "calm hs n (snd (maybe_compact E sm n))"
proof -
  have inc: "calm hs m (inc_log_compactions m)" for m by (simp add: inc_log_compactions_def kept_defs)
  have set: "calm hs m (m\<lparr>n_debt_entries := a, n_debt_bytes := b\<rparr>)" for m a b by (simp add: kept_defs)
  have drop: "calm hs m (snd (with_storage (so_truncate_before S up_to)
      (m\<lparr>n_snapshot_boundary := p, n_debt_entries := a, n_debt_bytes := b\<rparr>)))"
    "calm hs m (m\<lparr>n_snapshot_boundary := p, n_debt_entries := a, n_debt_bytes := b\<rparr>)" for m up_to p a b
    by (simp_all add: kept_defs with_storage_def case_prod_beta)
  have compact: "calm hs m (snd (compact_with_horizon E sm up_to m))" for m up_to
    unfolding compact_with_horizon_def Let_def
    by (auto simp: term_at_calm inc drop split: sum.splits intro!: calm_bind calm_with_storage)
  show ?thesis unfolding maybe_compact_def Let_def
    by (auto simp: compact set intro!: calm_bind calm_with_storage)
qed

lemma restore_vote_kept:
  assumes [simp]: "e_store E = S"
  shows "vote_kept hs n (snd (snd (restore_state_machine_from_snapshot E restore (sm, n))))"
proof -
  obtain r1 n1 where p1: "with_storage (so_load_snapshot_meta S) n = (r1, n1)" by fastforce
  obtain r2 n2 where p2: "with_storage (so_load_snapshot S) n1 = (r2, n2)" by fastforce
  have c1: "calm hs n n1" using calm_with_storage [of hs "so_load_snapshot_meta S" n] p1 by simp
  have c2: "calm hs n n2"
    using calm_trans [OF c1] calm_with_storage [of hs "so_load_snapshot S" n1] p2 by simp
  have applied: "calm hs m (set_last_applied j m)" for m j by (simp add: set_last_applied_def kept_defs)
  have base: "vote_kept hs n n2" "vote_kept hs n (set_commit_index i n2)" for i
    using calm_vote_kept [OF c2] set_commit_vote_kept [of n2 True i] by (auto intro: vote_kept_trans)
  have seat: "vote_kept hs n (snd (seat_at_boundary E meta (set_last_applied j m)))" if "vote_kept hs n m" for meta j m
    using that calm_vote_kept [OF applied] calm_vote_kept [OF seat_at_boundary_calm [OF assms]] by (meson vote_kept_trans)
  have seated: "vote_kept hs n (if ok then m\<lparr>n_debt_entries := a, n_debt_bytes := b\<rparr> else m)"
    if "vote_kept hs n m" for m ok a b
    by (rule vote_kept_trans [OF that calm_vote_kept]) (simp add: kept_defs)
  show ?thesis unfolding restore_state_machine_from_snapshot_def
    using p1 p2 c1 c2
    by (auto simp: calm_vote_kept Let_def case_prod_beta seat base intro: seated [of _ True, simplified] split: sum.split option.split prod.split)
qed

end

end
