(* ===== verification/Election_Safety.thy ===== *)
theory Election_Safety
  imports Leader_Votes Wire_Props
begin

text \<open>
  Elections are safe.  A campaign is won only with the recorded votes of a
  majority of the effective configuration, a node casts at most one vote per term
  over all its lives, crashes and restarts included, and so two campaigns of one
  term in one configuration have the same winner.
\<close>

declare collect_votes.simps [simp del]
declare collect_pre_votes.simps [simp del]

section \<open>The rule behind the counts\<close>

lemma voter_majority_cong:
  "n_joint_peers n = n_joint_peers m \<Longrightarrow> peers n = peers m \<Longrightarrow> voter_majority n g = voter_majority m g"
  by (cases "n_joint_peers m") (auto simp: voter_majority_def)

section \<open>Counting answers\<close>

lemma vote_answer_Some: "vote_answer m = Some r \<longleftrightarrow> m = RequestVoteResp r"
  by (cases m) auto

text \<open>A grant for the term from a voter, among the messages \<open>M\<close>.\<close>

definition granted_by :: "(raft_message \<Rightarrow> request_vote_resp option) \<Rightarrow> raft_term \<Rightarrow> inbound_message set \<Rightarrow> peer_id \<Rightarrow> bool" where
  "granted_by answer trm M p \<longleftrightarrow> (\<exists>m\<in>M. \<exists>r. in_from m = p \<and>
     answer (in_message m) = Some r \<and> rvr_term r = trm \<and> rvr_vote_granted r \<noteq> 0)"

lemma granted_by_mono: "granted_by answer trm M p \<Longrightarrow> M \<subseteq> N \<Longrightarrow> granted_by answer trm N p"
  by (auto simp: granted_by_def)

text \<open>Every counted voter other than the candidate itself sent a grant, and none is counted twice.\<close>

definition tally_ok :: "(raft_message \<Rightarrow> request_vote_resp option) \<Rightarrow> raft_term \<Rightarrow> inbound_message set \<Rightarrow>
    's raft_node \<Rightarrow> peer_id list \<times> peer_id list \<Rightarrow> bool" where
  "tally_ok answer trm M n = (\<lambda>(granted, responders). distinct granted \<and>
     set granted \<subseteq> insert (node_id n) (set responders) \<and> node_id n \<in> set granted \<and>
     (\<forall>p\<in>set granted - {node_id n}. p \<in> set (peers n) \<and> granted_by answer trm M p))"

lemma count_answers_tally:
  assumes "count_answers answer E trm ms tally n = (Inr (Some tally'), n')"
    and "tally_ok answer trm M n tally" and "set ms \<subseteq> M" and "\<forall>m\<in>M. in_from m \<noteq> node_id n"
  shows "n' = n \<and> tally_ok answer trm M n tally'"
  using assms
proof (induction answer E trm ms tally n rule: count_answers.induct)
  case (2 answer E trm m ms granted responders n)
  have m: "m \<in> M" "in_from m \<noteq> node_id n" using "2.prems"(3,4) by auto
  show ?case
  proof (cases "answer (in_message m)")
    case None
    then show ?thesis using 2 by simp
  next
    case (Some resp)
    show ?thesis
    proof (cases "in_from m \<in> set responders \<or> rvr_term resp > node_term n")
      case True
      then show ?thesis using 2 Some by (auto simp: bind_op_def split: if_splits prod.splits sum.splits)
    next
      case False
      let ?grant = "rvr_term resp = trm \<and> rvr_vote_granted resp \<noteq> 0 \<and> in_from m \<in> set (peers n)"
      have "granted_by answer trm M (in_from m)" if ?grant
        using that Some m(1) by (auto simp: granted_by_def)
      moreover have "in_from m \<notin> set granted"
        using False m(2) "2.prems"(2) by (auto simp: tally_ok_def)
      ultimately have "tally_ok answer trm M n (if ?grant then granted @ [in_from m] else granted, responders @ [in_from m])"
        using "2.prems"(2) by (auto simp: tally_ok_def)
      then show ?thesis using 2 Some False by simp
    qed
  qed
qed simp

text \<open>One round of the waiting loop that ends with the votes in.\<close>

lemma collect_votes_round [consumes 1, case_names now counted again]:
  assumes "collect_votes E C trm possible_votes deadline room tally evs n = (Inr True, n')"
  obtains "n' = n" and "voter_majority n (fst tally)"
  | ms evs' tally' k where "drain_inbound_frames deadline room [] evs = (Inr ms, evs')" and "ms \<noteq> []"
      and "count_answers vote_answer (batch_env E evs evs') trm ms tally n = (Inr (Some tally'), k)"
      and "voter_majority k (fst tally')" and "n' = k"
  | ms evs' tally' k k' where "drain_inbound_frames deadline room [] evs = (Inr ms, evs')" and "ms \<noteq> []"
      and "count_answers vote_answer (batch_env E evs evs') trm ms tally n = (Inr (Some tally'), k)"
      and "handle_all_tolerant (batch_env E evs evs') C (filter (\<lambda>m. vote_answer (in_message m) = None) ms) k = (Inr (), k')"
      and "role k' = Candidate" and "node_term k' = trm"
      and "collect_votes E C trm possible_votes deadline room tally' evs' k' = (Inr True, n')"
proof (cases "voter_majority n (fst tally) \<or> length (snd tally) \<ge> possible_votes")
  case True
  then show ?thesis using assms that(1) by (subst (asm) collect_votes.simps) auto
next
  case False
  obtain r evs' where drain: "drain_inbound_frames deadline room [] evs = (r, evs')" by fastforce
  show ?thesis
  proof (cases r)
    case (Inr ms)
    have "ms \<noteq> []" using assms False drain Inr by (subst (asm) collect_votes.simps) auto
    then obtain counted k where k: "count_answers vote_answer (batch_env E evs evs') trm ms tally n = (Inr counted, k)"
      and rest: "(case counted of None \<Rightarrow> (Inr False, k)
           | Some tally \<Rightarrow>
               if voter_majority k (fst tally) then (Inr True, k)
               else bind_op (handle_all_tolerant (batch_env E evs evs') C
                   (filter (\<lambda>m. vote_answer (in_message m) = None) ms) k) (\<lambda>_ n.
                 if role n \<noteq> Candidate \<or> node_term n \<noteq> trm then (Inr False, n)
                 else collect_votes E C trm possible_votes deadline room tally evs' n)) = (Inr True, n')"
      using assms False drain Inr by (subst (asm) collect_votes.simps) (auto simp: Let_def bind_op_ok_iff)
    show ?thesis
    proof (cases counted)
      case (Some tally')
      show ?thesis
      proof (cases "voter_majority k (fst tally')")
        case True
        then show ?thesis using that(2) [of ms evs' tally' k] drain Inr \<open>ms \<noteq> []\<close> k Some rest by simp
      next
        case no: False
        then show ?thesis using that(3) [of ms evs' tally' k] drain Inr \<open>ms \<noteq> []\<close> k Some rest
          by (auto simp: bind_op_ok_iff split: if_splits)
      qed
    qed (use rest in simp)
  qed (use assms False drain in \<open>subst (asm) collect_votes.simps, simp\<close>)
qed

section \<open>Asking for votes\<close>


lemma broadcast_cases:
  obtains e where "broadcast E msg targets n = (Inl e, n)"
  | sent where "broadcast E msg targets n = (Inr sent, n\<lparr>n_outbox := n_outbox n @ map (\<lambda>p. (p, msg)) targets\<rparr>)"
proof -
  have "\<exists>c'. fold (send_owned E msg) targets (c, n) = (c', n\<lparr>n_outbox := n_outbox n @ map (\<lambda>p. (p, msg)) targets\<rparr>)" for c
  proof (induction targets arbitrary: c n)
    case (Cons p ps)
    show ?case
      using Cons.IH [of _ "n\<lparr>n_outbox := n_outbox n @ [(p, msg)]\<rparr>"] by (simp add: send_owned_def)
  qed simp
  then obtain c where
    c: "fold (send_owned E msg) targets (0, n) = (c, n\<lparr>n_outbox := n_outbox n @ map (\<lambda>p. (p, msg)) targets\<rparr>)" by blast
  show ?thesis
  proof (cases "encode_message_to_bytes (node_id n) msg")
    case (Inl e)
    then show ?thesis using that(1) [of e] by (simp add: broadcast_def)
  next
    case (Inr b)
    then show ?thesis using that(2) [of c] c by (simp add: broadcast_def)
  qed
qed

definition asked :: "raft_term \<Rightarrow> 's raft_node \<Rightarrow> log_index \<times> raft_term \<Rightarrow> 's raft_node" where
  "asked trm n last_pos = n\<lparr>n_outbox := n_outbox n @
     map (\<lambda>p. (p, RequestVote (vote_request trm n last_pos))) (other_voters n)\<rparr>"

lemma asked_ballots:
  "ballots (asked trm n last_pos) = ballots n \<union> (if other_voters n = [] then {} else {(trm, node_id n)})"
  by (cases "other_voters n") (auto simp: ballots_def asked_def vote_request_def)

lemma become_candidate_fields [simp]:
  "n_storage (become_candidate n) = n_storage n" "n_config (become_candidate n) = n_config n"
  "n_joint_peers (become_candidate n) = n_joint_peers n" "n_outbox (become_candidate n) = n_outbox n"
  "n_hard (become_candidate n) = \<lparr>current_term = sat_add (node_term n) 1, voted_for = Some (node_id n)\<rparr>"
  "role (become_candidate n) = Candidate"
  by (simp_all add: become_candidate_def inc_elections_started_def Let_def)

lemma become_leader_fields [simp]:
  "n_storage (become_leader E n) = n_storage n" "n_config (become_leader E n) = n_config n"
  "n_joint_peers (become_leader E n) = n_joint_peers n" "n_outbox (become_leader E n) = n_outbox n"
  "n_hard (become_leader E n) = n_hard n" "role (become_leader E n) = Leader"
  by (simp_all add: become_leader_def inc_elections_won_def initialize_leader_progress_def Let_def)

text \<open>The state of a candidate that has stored its vote and asked the other voters.\<close>

definition standing :: "'s raft_env \<Rightarrow> 's raft_node \<Rightarrow> 's \<Rightarrow> log_index \<times> raft_term \<Rightarrow> 's raft_node" where
  "standing E n s last_pos = asked (sat_add (node_term n) 1) (become_candidate n\<lparr>n_storage := s\<rparr>) last_pos"

context hard_store
begin

text \<open>The start of a campaign, up to the wait for answers.\<close>

lemma campaign_once_cases:
  assumes "e_store E = S" and "node_id n \<in> set (peers n)"
  obtains (failed) e s where "campaign_once E C room evs n = (Inl e, become_candidate n\<lparr>n_storage := s\<rparr>)"
      and "hs s = n_hard (become_candidate n) \<or> hs s = hs (n_storage n)"
  | (asked) s last_pos possible_votes where "hs s = n_hard (become_candidate n)"
      and "campaign_once E C room evs n = (if possible_votes < quorum (length (peers n)) then (Inl NoQuorum, standing E n s last_pos)
         else bind_op (collect_votes E C (sat_add (node_term n) 1) possible_votes (e_now E + election_timeout n) room
             ([node_id n], []) evs (standing E n s last_pos))
           (\<lambda>won n'. if \<not> won then (Inr False, n')
             else if role n' \<noteq> Candidate \<or> node_term n' \<noteq> sat_add (node_term n) 1 then (Inr False, n')
             else (Inr True, become_leader E n')))"
proof -
  let ?n = "become_candidate n"
  obtain r s where r: "so_save_hard_state S (n_hard ?n) (n_storage n) = (r, s)" by fastforce
  show ?thesis
  proof (cases r)
    case (Inl e)
    then show ?thesis using failed [of e s] save [OF r] assms r
      by (simp add: campaign_once_def Let_def with_storage_def)
  next
    case (Inr u)
    then have s: "hs s = n_hard ?n" using save [OF r] by simp
    obtain r' s' where r': "so_last_log_position S s = (r', s')" by fastforce
    then have s': "hs s' = n_hard ?n" using s last_pos_keeps [of s] by simp
    show ?thesis
    proof (cases r')
      case (Inl e)
      then show ?thesis using failed [of e s'] assms r r' Inr s'
        by (simp add: campaign_once_def Let_def with_storage_def)
    next
      case (Inr last_pos)
      let ?k = "?n\<lparr>n_storage := s'\<rparr>"
      let ?msg = "RequestVote (vote_request (sat_add (node_term n) 1) ?k last_pos)"
      show ?thesis
      proof (cases rule: broadcast_cases [of E ?msg "other_voters ?k" ?k])
        case (1 e)
        then show ?thesis using failed [of e s'] assms r r' \<open>r = Inr u\<close> Inr s'
          by (simp add: campaign_once_def Let_def with_storage_def)
      next
        case (2 sent)
        then show ?thesis using asked [of s' "1 + sent" last_pos] assms r r' \<open>r = Inr u\<close> Inr s'
          by (simp add: campaign_once_def Let_def with_storage_def standing_def asked_def election_timeout_def
              cong: if_cong)
      qed
    qed
  qed
qed

lemma count_answers_vote_kept:
  assumes [simp]: "e_store E = S"
  shows "vote_kept hs n (snd (count_answers answer E trm ms tally n))"
proof (induction ms arbitrary: tally)
  case (Cons m ms)
  then show ?case
    by (cases tally) (auto intro!: vote_kept_bind step_down_vote_kept split: option.splits)
qed simp

text \<open>The waiting loops, one round at a time.\<close>

lemma collect_votes_vote_kept:
  assumes [simp]: "e_store E = S" and "\<forall>m\<in>frames evs. honest m"
  shows "vote_kept hs n (snd (collect_votes E C trm possible_votes deadline room tally evs n))"
  using assms(2)
proof (induction "length evs" arbitrary: evs tally n rule: less_induct)
  case less
  have "vote_kept hs m (snd (case counted of None \<Rightarrow> (Inr False, m)
     | Some tally \<Rightarrow>
       if voter_majority m (fst tally) then (Inr True, m)
       else bind_op (handle_all_tolerant (batch_env E evs evs') C (filter (\<lambda>m. vote_answer (in_message m) = None) ms) m) (\<lambda>_ n.
         if role n \<noteq> Candidate \<or> node_term n \<noteq> trm then (Inr False, n)
         else collect_votes E C trm possible_votes deadline room tally evs' n)))"
    if "drain_inbound_frames deadline room [] evs = (Inr ms, evs')" "ms \<noteq> []" for ms evs' m counted
  proof -
    have "set ms \<subseteq> frames evs" "frames evs' \<subseteq> frames evs" "length evs' < length evs"
      using drain_frames [OF that(1)] drain_progress [OF that(1) [symmetric] that(2)] by auto
    moreover from this
    have "vote_kept hs k (snd (collect_votes E C trm possible_votes deadline room t evs' k))" for t k
      using less by blast
    ultimately show ?thesis using less(2)
      by (auto intro!: vote_kept_bind handle_all_tolerant_vote_kept simp del: split_paired_All split: option.splits)
  qed
  then show ?case
    by (subst collect_votes.simps)
      (auto simp: Let_def intro!: vote_kept_bind count_answers_vote_kept split: prod.splits sum.splits)
qed

lemma collect_pre_votes_vote_kept:
  assumes [simp]: "e_store E = S" and "\<forall>m\<in>frames evs. honest m"
  shows "vote_kept hs n (snd (collect_pre_votes E C trm possible_votes deadline room tally evs n))"
  using assms(2)
proof (induction "length evs" arbitrary: evs tally n rule: less_induct)
  case less
  have "vote_kept hs m (snd (case counted of None \<Rightarrow> (Inr False, m)
     | Some tally \<Rightarrow>
       if voter_majority m (fst tally) then (Inr True, m)
       else bind_op (handle_all (batch_env E evs evs') C (filter (\<lambda>m. pre_vote_answer (in_message m) = None) ms) m) (\<lambda>_ n.
         if node_term n \<ge> trm then (Inr False, n)
         else collect_pre_votes E C trm possible_votes deadline room tally evs' n)))"
    if "drain_inbound_frames deadline room [] evs = (Inr ms, evs')" "ms \<noteq> []" for ms evs' m counted
  proof -
    have "set ms \<subseteq> frames evs" "frames evs' \<subseteq> frames evs" "length evs' < length evs"
      using drain_frames [OF that(1)] drain_progress [OF that(1) [symmetric] that(2)] by auto
    moreover from this
    have "vote_kept hs k (snd (collect_pre_votes E C trm possible_votes deadline room t evs' k))" for t k
      using less by blast
    ultimately show ?thesis using less(2)
      by (auto intro!: vote_kept_bind handle_all_vote_kept split: option.splits)
  qed
  then show ?case
    by (subst collect_pre_votes.simps)
      (auto simp: Let_def intro!: vote_kept_bind count_answers_vote_kept split: prod.splits sum.splits)
qed

text \<open>What is known when the votes are in: the candidate still stands, and a majority granted its vote.\<close>

lemma collect_votes_won:
  assumes "collect_votes E C trm possible_votes deadline room tally evs n = (Inr True, n')"
    and [simp]: "e_store E = S" and "\<forall>m\<in>M. honest m \<and> in_from m \<noteq> node_id n" and "frames evs \<subseteq> M"
    and "tally_ok vote_answer trm M n tally" and "role n = Candidate" and "node_term n = trm"
  shows "role n' = Candidate \<and> node_term n' = trm \<and> n_config n' = n_config n \<and> n_joint_peers n' = n_joint_peers n \<and>
    (\<exists>tally'. voter_majority n' (fst tally') \<and> tally_ok vote_answer trm M n tally')"
  using assms
proof (induction "length evs" arbitrary: evs tally n rule: less_induct)
  case less
  from less(2) show ?case
  proof (cases rule: collect_votes_round)
    case now
    then show ?thesis using less by blast
  next
    case (counted ms evs' tally' k)
    have fr: "set ms \<subseteq> M" "frames evs' \<subseteq> M" "length evs' < length evs"
      using less(5) drain_frames [OF counted(1)] drain_progress [OF counted(1) [symmetric] counted(2)] by auto
    have k: "k = n" "tally_ok vote_answer trm M n tally'"
      using count_answers_tally [OF counted(3) less(6) fr(1)] less(4) by auto
    then show ?thesis using less counted by blast
  next
    case (again ms evs' tally' k k')
    have fr: "set ms \<subseteq> M" "frames evs' \<subseteq> M" "length evs' < length evs"
      using less(5) drain_frames [OF again(1)] drain_progress [OF again(1) [symmetric] again(2)] by auto
    have k: "k = n" "tally_ok vote_answer trm M n tally'"
      using count_answers_tally [OF again(3) less(6) fr(1)] less(4) by auto
    have "rank_kept n k'"
      using handle_all_tolerant_vote_kept [of "batch_env E evs evs'" "filter (\<lambda>m. vote_answer (in_message m) = None) ms" n C]
        again(4) less(4) fr(1) k(1) by (auto simp: vote_kept_def)
    then have same: "n_config k' = n_config n" "n_joint_peers k' = n_joint_peers n"
      using again(5) by (simp_all add: rank_kept_def)
    then have "tally_ok vote_answer trm M k' tally'" using k(2) by (simp add: tally_ok_def)
    from less(1) [OF fr(3) again(7) less(3) _ fr(2) this again(5,6)]
    show ?thesis using less(4) same by (simp add: tally_ok_def)
  qed
qed

lemma campaign_ballots_kept:
  assumes [simp]: "e_store E = S" and "\<forall>m\<in>frames evs. honest m" and "node_term n \<noteq> - 1"
  shows "ballots_kept hs n (snd (campaign_once E C room evs n))"
proof (cases "node_id n \<in> set (peers n)")
  case True
  let ?c = "become_candidate n"
  have later: "hard_le (n_hard n) (n_hard ?c)"
    using sat_add_one_gt [OF assms(3)] by (simp add: hard_le_later)
  have stored: "ballots_kept hs n (?c\<lparr>n_storage := s\<rparr>)" if "hs s = n_hard ?c \<or> hs s = hs (n_storage n)" for s
    using later that by (intro later_hard_ballots) auto
  from assms(1) True show ?thesis
  proof (cases rule: campaign_once_cases [where C = C and room = room and evs = evs])
    case (failed e s)
    then show ?thesis using stored by simp
  next
    case (asked s last_pos possible_votes)
    let ?k = "?c\<lparr>n_storage := s\<rparr>" and ?s = "standing E n s last_pos"
    have "ballots_kept hs ?k ?s"
      using cast_ballot [of "n_hard ?c" "ballots ?k" "sat_add (node_term n) 1" "node_id n"] asked(1)
        asked_ballots [of "sat_add (node_term n) 1" ?k last_pos]
      by (auto simp: ballots_kept_def ballots_ok_def standing_def) (auto simp: asked_def)
    with stored [of s] asked(1) have kept: "ballots_kept hs n ?s"
      by (auto intro: ballots_kept_trans)
    have wait: "ballots_kept hs ?s (snd (collect_votes E C t p d room tally evs ?s))" for t p d tally
      using collect_votes_vote_kept [of E evs ?s C t p d room tally] assms(2) by (simp add: vote_kept_def)
    obtain r k where k: "collect_votes E C (sat_add (node_term n) 1) possible_votes (e_now E + election_timeout n) room
             ([node_id n], []) evs ?s = (r, k)" by fastforce
    have nk: "ballots_kept hs n k"
      using wait [of "sat_add (node_term n) 1" possible_votes "e_now E + election_timeout n" "([node_id n], [])"] k kept
      by (auto intro: ballots_kept_trans)
    moreover have "ballots_kept hs k (become_leader E k)" by (rule ballots_kept_quiet) simp_all
    ultimately show ?thesis using kept k unfolding asked(2)
      by (cases r) (auto intro: ballots_kept_trans)
  qed
qed (simp add: campaign_once_def ballots_kept_quiet)

lemma campaign_pre_vote_kept:
  assumes [simp]: "e_store E = S" and "\<forall>m\<in>frames evs. honest m"
  shows "vote_kept hs n (snd (campaign_pre_vote E C room evs n))"
proof -
  have ask: "vote_kept hs n (snd (broadcast E (PreVote req) targets n))" for req targets and n :: "'s raft_node"
    by (cases rule: broadcast_cases [of E "PreVote req" targets n])
      (auto intro!: vote_kept_quiet simp: rank_kept_def outbox_quiet_def)
  show ?thesis unfolding campaign_pre_vote_def Let_def
    by (intro vote_kept_if vote_kept_bind [OF calm_vote_kept [OF last_position_calm]] vote_kept_bind [OF ask])
      (simp_all add: collect_pre_votes_vote_kept assms)
qed

text \<open>A won campaign: the new leader, its term, and the majority behind it.\<close>

lemma campaign_once_won:
  assumes "campaign_once E C room evs n = (Inr True, n')" and [simp]: "e_store E = S"
    and fr: "\<forall>m\<in>frames evs. honest m \<and> in_from m \<noteq> node_id n"
  shows "role n' = Leader \<and> node_term n' = sat_add (node_term n) 1 \<and>
    n_config n' = n_config n \<and> n_joint_peers n' = n_joint_peers n \<and> node_id n \<in> set (peers n) \<and>
    (\<exists>granted. voter_majority n' granted \<and> counted_grants n' granted \<and>
       (\<forall>p\<in>set granted - {node_id n}. granted_by vote_answer (node_term n') (frames evs) p))"
proof -
  have self: "node_id n \<in> set (peers n)" using assms(1) by (auto simp: campaign_once_def split: if_splits)
  from assms(2) self show ?thesis
  proof (cases rule: campaign_once_cases [where C = C and room = room and evs = evs])
    case (failed e s)
    then show ?thesis using assms(1) by simp
  next
    case (asked s last_pos possible_votes)
    let ?s = "standing E n s last_pos" and ?t = "sat_add (node_term n) 1"
    have st: "n_config ?s = n_config n" "n_joint_peers ?s = n_joint_peers n" "role ?s = Candidate" "node_term ?s = ?t"
      by (simp_all add: standing_def asked_def)
    obtain k where k: "collect_votes E C ?t possible_votes (e_now E + election_timeout n) room
             ([node_id n], []) evs ?s = (Inr True, k)" "n' = become_leader E k"
      using assms(1) unfolding asked(2) by (auto simp: bind_op_ok_iff split: if_splits)
    have "tally_ok vote_answer ?t (frames evs) ?s ([node_id n], [])" by (simp add: tally_ok_def st)
    from collect_votes_won [OF k(1) assms(2) _ subset_refl this st(3,4)] fr
    obtain tally where won: "voter_majority k (fst tally)" "tally_ok vote_answer ?t (frames evs) ?s tally"
      and k': "node_term k = ?t" "n_config k = n_config n" "n_joint_peers k = n_joint_peers n"
      by (auto simp: st)
    have "counted_grants n' (fst tally)"
      using won(2) self k' by (cases tally) (auto simp: k(2) tally_ok_def counted_grants_def st)
    moreover have "voter_majority n' (fst tally)"
      using won(1) voter_majority_cong [of n' k] by (simp add: k(2))
    ultimately show ?thesis
      using won(2) self by (cases tally) (auto simp: k(2) k' tally_ok_def st)
  qed
qed

text \<open>The winner's own vote is on the wire when there is anyone to ask.\<close>

lemma campaign_once_own_ballot:
  assumes "campaign_once E C room evs n = (Inr True, n')" and [simp]: "e_store E = S"
    and fr: "\<forall>m\<in>frames evs. honest m" and "ballots_ok hs n" and "node_term n \<noteq> - 1" and "other_voters n \<noteq> []"
  shows "(sat_add (node_term n) 1, node_id n) \<in> ballots n'"
proof -
  have self: "node_id n \<in> set (peers n)" using assms(1) by (auto simp: campaign_once_def split: if_splits)
  from assms(2) self show ?thesis
  proof (cases rule: campaign_once_cases [where C = C and room = room and evs = evs])
    case (failed e s)
    then show ?thesis using assms(1) by simp
  next
    case (asked s last_pos possible_votes)
    let ?s = "standing E n s last_pos" and ?t = "sat_add (node_term n) 1" and ?k = "become_candidate n\<lparr>n_storage := s\<rparr>"
    have "(?t, node_id n) \<in> ballots ?s"
      using asked_ballots [of ?t ?k last_pos] assms(6) by (simp add: standing_def other_voters_def)
    moreover have "ballots_ok hs ?s"
    proof -
      have "ballots_kept hs n ?k"
        using sat_add_one_gt [OF assms(5)] asked(1) by (intro later_hard_ballots) (auto simp: hard_le_later)
      then show ?thesis
        using assms(4) asked(1) cast_ballot [of "n_hard ?k" "ballots ?k" ?t "node_id n"] asked_ballots [of ?t ?k last_pos]
        by (auto simp: ballots_kept_def ballots_ok_def standing_def) (auto simp: asked_def)
    qed
    moreover obtain k where k: "collect_votes E C ?t possible_votes (e_now E + election_timeout n) room
             ([node_id n], []) evs ?s = (Inr True, k)" "n' = become_leader E k"
      using assms(1) unfolding asked(2) by (auto simp: bind_op_ok_iff split: if_splits)
    moreover have "vote_kept hs ?s k"
      using collect_votes_vote_kept [OF assms(2) fr, of ?s C ?t possible_votes "e_now E + election_timeout n" room
          "([node_id n], [])"] k(1) by simp
    ultimately have "(?t, node_id n) \<in> ballots k" by (auto simp: vote_kept_def ballots_kept_def)
    moreover have "ballots n' = ballots k" unfolding k(2) by (rule quiet_ballots) simp_all
    ultimately show ?thesis by simp
  qed
qed

end

section \<open>The lives of a node\<close>

text \<open>
  A node starts on some storage, handles messages, runs pre-vote rounds, campaigns
  and the leader's operations, compacts and restores, and may crash at any of these points and start again on what its
  storage holds; what it has sent stays sent.  Campaigns start below the largest
  term, see the finding on terms that no longer advance.
\<close>

inductive node_life :: "'s storage_ops \<Rightarrow> peer_id \<Rightarrow> 's raft_node \<Rightarrow> bool" for S self where
  start: "raft_node_new S config s = (Inr n, s') \<Longrightarrow> cfg_node_id config = self \<Longrightarrow> node_life S self n"
| message: "node_life S self n \<Longrightarrow> e_store E = S \<Longrightarrow> honest m \<Longrightarrow> handle_inbound E C m n = (r, n') \<Longrightarrow> node_life S self n'"
| pre_vote: "node_life S self n \<Longrightarrow> e_store E = S \<Longrightarrow> \<forall>m\<in>frames evs. honest m \<Longrightarrow>
    campaign_pre_vote E C room evs n = (r, n') \<Longrightarrow> node_life S self n'"
| campaign: "node_life S self n \<Longrightarrow> e_store E = S \<Longrightarrow> \<forall>m\<in>frames evs. honest m \<Longrightarrow> node_term n \<noteq> - 1 \<Longrightarrow>
    campaign_once E C room evs n = (r, n') \<Longrightarrow> node_life S self n'"
| heartbeat: "node_life S self n \<Longrightarrow> e_store E = S \<Longrightarrow> \<forall>m\<in>frames evs. honest m \<Longrightarrow>
    send_heartbeat_once E C (n, scratch, evs) = (r, n', scratch', evs') \<Longrightarrow> node_life S self n'"
| transfer: "node_life S self n \<Longrightarrow> e_store E = S \<Longrightarrow> \<forall>m\<in>frames evs. honest m \<Longrightarrow>
    transfer_leadership E C target room (n, scratch, evs) = (r', n', scratch', evs') \<Longrightarrow> node_life S self n'"
| propose: "node_life S self n \<Longrightarrow> e_store E = S \<Longrightarrow> \<forall>m\<in>frames evs. honest m \<Longrightarrow>
    propose_batch_once E C t payloads n evs = (is, n', evs') \<Longrightarrow> node_life S self n'"
| replicate: "node_life S self n \<Longrightarrow> e_store E = S \<Longrightarrow>
    replicate_batch_async E t payloads n = (accepted, n') \<Longrightarrow> node_life S self n'"
| read: "node_life S self n \<Longrightarrow> e_store E = S \<Longrightarrow> \<forall>m\<in>frames evs. honest m \<Longrightarrow>
    read_index E C t room (n, scratch, evs) = (i, n', scratch', evs') \<Longrightarrow> node_life S self n'"
| compact: "node_life S self n \<Longrightarrow> e_store E = S \<Longrightarrow> maybe_compact E sm n = (meta, n') \<Longrightarrow> node_life S self n'"
| restore: "node_life S self n \<Longrightarrow> e_store E = S \<Longrightarrow>
    restore_state_machine_from_snapshot E (\<lambda>_ _. (restored, ())) ((), n) = (done, u, n') \<Longrightarrow> node_life S self n'"
| restart: "node_life S self n \<Longrightarrow> raft_node_new S config (n_storage n) = (Inr n', s') \<Longrightarrow> cfg_node_id config = self \<Longrightarrow>
    node_life S self (n'\<lparr>n_outbox := n_outbox n\<rparr>)"

context hard_store
begin

lemma new_node_hard:
  assumes "raft_node_new S config s = (Inr n, s')"
  shows "node_id n = cfg_node_id config \<and> n_outbox n = [] \<and> n_hard n = hs s \<and> hs (n_storage n) = hs s"
proof -
  obtain h s1 p s2 m where "so_load_hard_state S s = (Inr h, s1)" "so_last_log_position S s1 = (Inr p, s2)"
    "so_load_snapshot_meta S s2 = (Inr m, s')"
    and n: "n_hard n = h" "n_storage n = s'" "n_config n = config" "n_outbox n = []"
    using assms by (auto simp: raft_node_new_def bind_op_ok_iff fresh_node_def split: sum.splits)
  then have "h = hs s" "hs s1 = hs s" "hs s2 = hs s1" "hs s' = hs s2"
    using load load_keeps [of s] last_pos_keeps [of s1] load_meta_keeps [of s2] by auto
  then show ?thesis using n by simp
qed

lemma vote_kept_life: "node_id n = self \<and> ballots_ok hs n \<Longrightarrow> vote_kept hs n n' \<Longrightarrow> node_id n' = self \<and> ballots_ok hs n'"
  unfolding vote_kept_def ballots_kept_def by blast

lemma waits_well_life: "node_id n = self \<and> ballots_ok hs n \<Longrightarrow> waits_well hs n evs n' evs' \<Longrightarrow> node_id n' = self \<and> ballots_ok hs n'"
  unfolding waits_well_def using vote_kept_life by blast

lemma life_ballots: "node_life S self n \<Longrightarrow> node_id n = self \<and> ballots_ok hs n"
proof (induction rule: node_life.induct)
  case (start config s n s')
  then show ?case using new_node_hard [of config s n s']
    by (simp add: ballots_ok_def ballots_def covers_def single_choice_def)
next
  case (message n E m C r n')
  then show ?case using handle_inbound_vote_kept [of E m n C] by (simp add: vote_kept_def ballots_kept_def)
next
  case (pre_vote n E evs C room r n')
  then show ?case using campaign_pre_vote_kept [of E evs n C room] by (simp add: vote_kept_def ballots_kept_def)
next
  case (campaign n E evs C room r n')
  then show ?case using campaign_ballots_kept [of E evs n C room] by (simp add: ballots_kept_def)
next
  case (heartbeat n E evs C scratch r n' scratch' evs')
  show ?case by (rule waits_well_life [OF heartbeat(5) heartbeat_once_waits_well [OF heartbeat(2,3,4)]])
next
  case (transfer n E evs C target room scratch r n' scratch' evs')
  show ?case by (rule waits_well_life [OF transfer(5) transfer_waits_well [OF transfer(2,3,4)]])
next
  case (propose n E evs C t payloads r n' evs')
  show ?case by (rule waits_well_life [OF propose(5) propose_batch_waits_well [OF propose(2,3,4)]])
next
  case (replicate n E t payloads r n')
  show ?case using vote_kept_life [OF replicate(4) calm_vote_kept [OF replicate_calm [OF replicate(2)]]] replicate(3)
    by (metis snd_conv)
next
  case (read n E evs C t room scratch r n' scratch' evs')
  show ?case by (rule waits_well_life [OF read(5) read_index_waits_well [OF read(2,3,4)]])
next
  case (compact n E sm r n')
  show ?case using vote_kept_life [OF compact(4) calm_vote_kept [OF maybe_compact_calm [OF compact(2)]]] compact(3)
    by (metis snd_conv)
next
  case (restore n E restored r u n')
  show ?case using vote_kept_life [OF restore(4) restore_vote_kept [OF restore(2)]] restore(3) by (metis snd_conv)
next
  case (restart n config n' s')
  then show ?case using new_node_hard [of config "n_storage n" n' s'] by (auto simp: ballots_ok_def ballots_def)
qed

end

section \<open>Safety\<close>


text \<open>
  The state of a node that has just won its campaign, in a cluster whose nodes have
  come to the states \<open>node p\<close>: the campaign is part of the node's life, and the
  transport has handed it only frames that their senders sent to it, none under
  its own name.
\<close>

definition elected :: "'s storage_ops \<Rightarrow> (peer_id \<Rightarrow> 's raft_node) \<Rightarrow> 's raft_node \<Rightarrow> bool" where
  "elected S node l \<longleftrightarrow> (\<exists>E C room evs n. e_store E = S \<and> node_life S (node_id n) n \<and> node_term n \<noteq> - 1 \<and>
     campaign_once E C room evs n = (Inr True, l) \<and> ballots l \<subseteq> ballots (node (node_id n)) \<and>
     (\<forall>m\<in>frames evs. honest m \<and> in_from m \<noteq> node_id n \<and>
        (\<forall>r. in_message m = RequestVoteResp r \<and> rvr_vote_granted r \<noteq> 0 \<longrightarrow>
           (rvr_term r, node_id n) \<in> ballots (node (in_from m)))))"

text \<open>A majority of the winner's configuration has voted for it in its term.\<close>

lemma elected_majority:
  assumes "hard_store S hs" and "elected S node l"
  shows "node_id l \<in> set (peers l) \<and> (set (peers l) = {node_id l} \<or>
    (\<exists>granted. voter_majority l granted \<and> counted_grants l granted \<and>
       (\<forall>p\<in>set granted. (node_term l, node_id l) \<in> ballots (node p))))"
proof -
  obtain E C room evs n where S: "e_store E = S" and life: "node_life S (node_id n) n" and below: "node_term n \<noteq> - 1"
    and won: "campaign_once E C room evs n = (Inr True, l)" and own: "ballots l \<subseteq> ballots (node (node_id n))"
    and fr: "\<forall>m\<in>frames evs. honest m \<and> in_from m \<noteq> node_id n"
    and sent: "\<forall>m\<in>frames evs. \<forall>r. in_message m = RequestVoteResp r \<and> rvr_vote_granted r \<noteq> 0 \<longrightarrow>
           (rvr_term r, node_id n) \<in> ballots (node (in_from m))"
    using assms(2) unfolding elected_def by blast
  from hard_store.campaign_once_won [OF assms(1) won S fr]
  obtain granted where l: "node_term l = sat_add (node_term n) 1" "n_config l = n_config n" "node_id n \<in> set (peers n)"
    and granted: "voter_majority l granted" "counted_grants l granted"
      "\<forall>p\<in>set granted - {node_id n}. granted_by vote_answer (node_term l) (frames evs) p" by blast
  have other: "(node_term l, node_id n) \<in> ballots (node p)" if "p \<in> set granted - {node_id n}" for p
  proof -
    have "granted_by vote_answer (node_term l) (frames evs) p" using granted(3) that by simp
    then obtain m r where "m \<in> frames evs" "in_from m = p" "in_message m = RequestVoteResp r"
      and "rvr_term r = node_term l" "rvr_vote_granted r \<noteq> 0"
      unfolding granted_by_def vote_answer_Some by blast
    then show ?thesis using sent by force
  qed
  show ?thesis
  proof (cases "other_voters n = []")
    case True
    then have "\<forall>p\<in>set (peers n). p = node_id n" by (simp add: other_voters_def filter_empty_conv)
    then have "set (peers n) = {node_id n}" using l(3) by blast
    then show ?thesis using l by simp
  next
    case False
    then have "(node_term l, node_id n) \<in> ballots l"
      using hard_store.campaign_once_own_ballot [OF assms(1) won S _ _ below False] fr
        hard_store.life_ballots [OF assms(1) life] l(1) by simp
    then have "(node_term l, node_id n) \<in> ballots (node p)" if "p \<in> set granted" for p
      using own other [of p] that by (cases "p = node_id n") auto
    then have "\<forall>p\<in>set granted. (node_term l, node_id l) \<in> ballots (node p)" by (simp add: l(2))
    then show ?thesis using granted(1,2) l(2,3) by auto
  qed
qed


section \<open>A sample election\<close>

lemma send_vote_resp:
  "length (rvr_pad r) = 7 \<Longrightarrow> send_message E p (RequestVoteResp r) n = (e_send_ok E (length (n_outbox n)) p, n\<lparr>n_outbox := n_outbox n @ [(p, RequestVoteResp r)]\<rparr>)"
  by (simp add: send_message_def encode_message_vectored_def encode_message_vectored_impl_def wire_len_u32_def
      SCRATCH_OUTBOUND_LEN_def)

text \<open>Node 1 asks, node 2 grants, node 1 wins the first term of a cluster of three.\<close>

definition sample_custom :: custom_env where
  "sample_custom = \<lparr>ce_registry = custom_registry_new, ce_response = (\<lambda>_ _ _. (Inr (), False))\<rparr>"

definition sample_request :: inbound_message where
  "sample_request = \<lparr>in_from = 1, in_group_id = 0, in_message = RequestVote
     \<lparr>rv_term = 1, rv_candidate_id = 1, rv_last_log_index = 0, rv_last_log_term = 0\<rparr>\<rparr>"

definition sample_grant :: request_vote_resp where
  "sample_grant = \<lparr>rvr_term = 1, rvr_vote_granted = 1, rvr_pad = replicate 7 0\<rparr>"

definition sample_voter :: "mem_storage raft_node" where
  "sample_voter = snd (handle_inbound sample_env sample_custom sample_request (sample_node 2))"

definition sample_answers :: "recv_event list" where
  "sample_answers = [\<lparr>ev_now = 1000, ev_recv = map_sum id Some (encode_message_to_bytes 2 (RequestVoteResp sample_grant))\<rparr>]"

definition sample_winner :: "mem_storage raft_node" where
  "sample_winner = snd (campaign_once sample_env sample_custom 4096 sample_answers (sample_node 1))"

lemma sample_nodes_new:
  assumes "i \<in> {1, 2, 3}"
  shows "raft_node_new mem_ops (sample_config i) mem_empty = (Inr (sample_node i), mem_empty)"
proof -
  have "validate_node_config (sample_config i) = Inr ()"
    using assms by (auto simp: validate_node_config_iff sound_membership_def sample_config_def default_timing_def
        default_limits_def)
  then show ?thesis
    by (simp add: raft_node_new_def mem_ops_def mem_load_hard_state_def mem_last_log_position_def
        default_load_snapshot_meta_def mem_load_snapshot_def mem_empty_def sample_node_def)
qed

lemma sample_env_simps [simp]:
  "e_store sample_env = mem_ops" "e_now sample_env = 1000" "e_send_ok sample_env k p"
  "so_save_hard_state mem_ops h t = (Inr (), t\<lparr>ms_hard_state := Some h\<rparr>)"
  "so_last_log_position mem_ops mem_empty = (Inr (0, 0), mem_empty)"
  "so_last_log_position mem_ops (mem_empty\<lparr>ms_hard_state := h'\<rparr>) = (Inr (0, 0), mem_empty\<lparr>ms_hard_state := h'\<rparr>)"
  by (simp_all add: sample_env_def mem_ops_def mem_save_hard_state_def mem_last_log_position_def mem_empty_def)

lemma sample_node_simps [simp]:
  "node_id (sample_node i) = i" "peers (sample_node i) = [1, 2, 3]" "n_joint_peers (sample_node i) = None"
  "n_hard (sample_node i) = \<lparr>current_term = 0, voted_for = None\<rparr>" "n_storage (sample_node i) = mem_empty"
  "n_outbox (sample_node i) = []" "election_timeout (sample_node i) = 600"
  by (simp_all add: sample_node_def sample_config_def fresh_node_def default_hard_state_def election_timeout_def default_timing_def)

lemma sample_voter_facts:
  "n_outbox sample_voter = [(1, RequestVoteResp sample_grant)]" "node_id sample_voter = 2"
  by (simp_all add: sample_voter_def handle_inbound_def sample_request_def stamp_contact_def is_leader_def
      handle_request_vote_def send_vote_resp step_down_def demote_to_follower_keep_term_def with_storage_def
      sample_node_def sample_config_def fresh_node_def default_hard_state_def
      candidate_up_to_date_def vote_resp_def sample_grant_def Let_def)

lemma sample_frame:
  obtains f where "encode_message_to_bytes 2 (RequestVoteResp sample_grant) = Inr f"
    and "decode_message f = Inr \<lparr>in_from = 2, in_group_id = 0, in_message = RequestVoteResp sample_grant\<rparr>"
proof -
  let ?m = "RequestVoteResp sample_grant"
  obtain f where f: "encode_message_to_bytes 2 ?m = Inr f"
    by (simp add: encode_message_to_bytes_def wire_len_u32_def sample_grant_def)
  then have "decode_message f = Inr \<lparr>in_from = 2, in_group_id = 0, in_message = ?m\<rparr>"
    using decode_encoded_frame [of ?m 2 f] by (simp add: sample_grant_def)
  with f show ?thesis using that by blast
qed

lemma sample_wins:
  "campaign_once sample_env sample_custom 4096 sample_answers (sample_node 1) = (Inr True, sample_winner)"
  "node_id sample_winner = 1" "node_term sample_winner = 1" "peers sample_winner = [1, 2, 3]"
  "n_joint_peers sample_winner = None" "ballots sample_winner = {(1, 1)}"
  "frames sample_answers = {\<lparr>in_from = 2, in_group_id = 0, in_message = RequestVoteResp sample_grant\<rparr>}"
proof -
  obtain f where f: "encode_message_to_bytes 2 (RequestVoteResp sample_grant) = Inr f"
    and d: "decode_message f = Inr \<lparr>in_from = 2, in_group_id = 0, in_message = RequestVoteResp sample_grant\<rparr>"
    by (rule sample_frame)
  have ans: "sample_answers = [\<lparr>ev_now = 1000, ev_recv = Inr (Some f)\<rparr>]" by (simp add: sample_answers_def f)
  let ?n = "standing sample_env (sample_node 1) (mem_empty\<lparr>ms_hard_state := Some \<lparr>current_term = 1, voted_for = Some 1\<rparr>\<rparr>) (0, 0)"
  have one: "sat_add 0 1 = (1 :: u64)" by (simp add: sat_add_def)
  have n: "n_config ?n = n_config (sample_node 1)" "n_joint_peers ?n = None" "node_term ?n = 1" "role ?n = Candidate"
    "election_timeout ?n = election_timeout (sample_node 1)"
    by (simp_all add: standing_def asked_def one election_timeout_def)
  have votes: "collect_votes sample_env sample_custom 1 3 1600 4096 ([1], []) sample_answers ?n = (Inr True, ?n)"
    by (subst collect_votes.simps) (simp add: ans d voter_majority_def quorum_def n sample_grant_def Let_def)
  have start: "broadcast sample_env (RequestVote (vote_request 1 m last_pos)) (other_voters m) m = (Inr 2, asked 1 m last_pos)"
    if "node_id m = 1" "peers m = [1, 2, 3]" for m last_pos
    using that by (simp add: broadcast_def other_voters_def send_owned_def encode_message_to_bytes_def wire_len_u32_def
        vote_request_def asked_def)
  have "campaign_once sample_env sample_custom 4096 sample_answers (sample_node 1) = (Inr True, become_leader sample_env ?n)"
    using votes start n
    by (simp add: campaign_once_def with_storage_def Let_def one quorum_def standing_def)
  then have w: "campaign_once sample_env sample_custom 4096 sample_answers (sample_node 1) = (Inr True, sample_winner)"
    "sample_winner = become_leader sample_env ?n" by (simp_all add: sample_winner_def)
  show "campaign_once sample_env sample_custom 4096 sample_answers (sample_node 1) = (Inr True, sample_winner)"
    by (rule w(1))
  show "node_id sample_winner = 1" "node_term sample_winner = 1" "peers sample_winner = [1, 2, 3]"
    "n_joint_peers sample_winner = None" by (simp_all add: w(2) n)
  show "ballots sample_winner = {(1, 1)}"
    by (simp add: w(2) ballots_def standing_def asked_def one other_voters_def vote_request_def)
  show "frames sample_answers = {\<lparr>in_from = 2, in_group_id = 0, in_message = RequestVoteResp sample_grant\<rparr>}"
    using d by (auto simp: ans frames_def)
qed

lemma sample_lives:
  "node_life mem_ops 1 (sample_node 1)" "node_life mem_ops 2 sample_voter" "node_life mem_ops 3 (sample_node 3)"
  "node_life mem_ops 1 sample_winner" "ballots sample_voter = {(1, 1)}"
proof -
  have new: "node_life mem_ops i (sample_node i)" if "i \<in> {1, 2, 3}" for i
    using node_life.start [OF sample_nodes_new [OF that]] by (simp add: sample_config_def)
  then show "node_life mem_ops 1 (sample_node 1)" "node_life mem_ops 3 (sample_node 3)" by simp_all
  have "node_life mem_ops 2 (sample_node 2)" using new by simp
  then show "node_life mem_ops 2 sample_voter"
    unfolding sample_voter_def
    by (rule node_life.message [where E = sample_env and C = sample_custom and m = sample_request and
          r = "fst (handle_inbound sample_env sample_custom sample_request (sample_node 2))"])
      (simp_all add: honest_def sample_request_def)
  show "node_life mem_ops 1 sample_winner"
    using node_life.campaign [of mem_ops 1 "sample_node 1" sample_env sample_answers] sample_wins(1,7) new
    by (simp add: honest_def)
  show "ballots sample_voter = {(1, 1)}" by (simp add: ballots_def sample_voter_facts sample_grant_def)
qed



end
