(* ===== verification/Node_Api.thy ===== *)
theory Node_Api
  imports Multi_Driver
begin

text \<open>
  What is left of the surface of a node: the accessors of a received message
  (\<open>src/protocol/message.rs\<close>, \<open>src/protocol/codec/view.rs\<close>), the observers and the
  single-frame step of a node (\<open>src/api/node/mod.rs\<close>), the recycled vectors of
  \<open>src/api/node/scratch.rs\<close> and the hash of a group identifier
  (\<open>src/api/registry/mod.rs\<close>).
\<close>

section \<open>Accessors of a received message\<close>

definition as_append_entries_seeded :: "inbound_message \<Rightarrow> (append_entries \<times> bytes \<times> bytes) option" where
  "as_append_entries_seeded m =
    (case in_message m of AppendEntriesSeeded ae headers payloads \<Rightarrow> Some (ae, headers, payloads) | _ \<Rightarrow> None)"

definition as_append_entries :: "inbound_message \<Rightarrow> (append_entries \<times> bytes) option" where
  "as_append_entries m = (case in_message m of AppendEntries ae payload \<Rightarrow> Some (ae, payload) | _ \<Rightarrow> None)"

definition as_request_vote :: "inbound_message \<Rightarrow> request_vote option" where
  "as_request_vote m = (case in_message m of RequestVote r \<Rightarrow> Some r | _ \<Rightarrow> None)"

definition as_request_vote_resp :: "inbound_message \<Rightarrow> request_vote_resp option" where
  "as_request_vote_resp m = (case in_message m of RequestVoteResp r \<Rightarrow> Some r | _ \<Rightarrow> None)"

definition as_append_entries_resp :: "inbound_message \<Rightarrow> append_entries_resp option" where
  "as_append_entries_resp m = (case in_message m of AppendEntriesResp r \<Rightarrow> Some r | _ \<Rightarrow> None)"

definition as_install_snapshot :: "inbound_message \<Rightarrow> (install_snapshot \<times> bytes) option" where
  "as_install_snapshot m = (case in_message m of InstallSnapshot r payload \<Rightarrow> Some (r, payload) | _ \<Rightarrow> None)"

definition as_install_snapshot_resp :: "inbound_message \<Rightarrow> install_snapshot_resp option" where
  "as_install_snapshot_resp m = (case in_message m of InstallSnapshotResp r \<Rightarrow> Some r | _ \<Rightarrow> None)"

definition as_timeout_now :: "inbound_message \<Rightarrow> timeout_now option" where
  "as_timeout_now m = (case in_message m of TimeoutNow r \<Rightarrow> Some r | _ \<Rightarrow> None)"

definition as_custom :: "inbound_message \<Rightarrow> bytes option" where
  "as_custom m = (case in_message m of Custom payload \<Rightarrow> Some payload | _ \<Rightarrow> None)"

definition as_custom_response :: "inbound_message \<Rightarrow> bytes option" where
  "as_custom_response m = (case in_message m of CustomResponse payload \<Rightarrow> Some payload | _ \<Rightarrow> None)"

lemmas accessor_defs = as_append_entries_seeded_def as_append_entries_def as_request_vote_def as_request_vote_resp_def
  as_append_entries_resp_def as_install_snapshot_def as_install_snapshot_resp_def as_timeout_now_def as_custom_def
  as_custom_response_def

text \<open>
  An accessor answers exactly for its kind byte, except that the two shapes a
  leader builds for sending share their kind with the two a receiver decodes.
\<close>

lemma accessor_matches_kind:
  "as_request_vote m \<noteq> None \<longleftrightarrow> kind_of (in_message m) = 1"
  "as_request_vote_resp m \<noteq> None \<longleftrightarrow> kind_of (in_message m) = 2"
  "as_append_entries m \<noteq> None \<or> (\<exists>ae es. in_message m = AppendEntriesVectored ae es) \<longleftrightarrow> kind_of (in_message m) = 3"
  "as_append_entries_resp m \<noteq> None \<longleftrightarrow> kind_of (in_message m) = 4"
  "as_install_snapshot m \<noteq> None \<longleftrightarrow> kind_of (in_message m) = 5"
  "as_install_snapshot_resp m \<noteq> None \<longleftrightarrow> kind_of (in_message m) = 6"
  "as_custom m \<noteq> None \<longleftrightarrow> kind_of (in_message m) = 7"
  "as_custom_response m \<noteq> None \<longleftrightarrow> kind_of (in_message m) = 8"
  "as_append_entries_seeded m \<noteq> None \<or> (\<exists>ae hs ps. in_message m = AppendEntriesSeededVectored ae hs ps)
     \<longleftrightarrow> kind_of (in_message m) = 9"
  "as_timeout_now m \<noteq> None \<longleftrightarrow> kind_of (in_message m) = 12"
  by (cases "in_message m"; simp add: accessor_defs)+

section \<open>The public batch encoder\<close>

text \<open>The encoder a transport may call directly carries no read token.\<close>

definition encode_append_entries_vectored ::
    "peer_id \<Rightarrow> u64 \<Rightarrow> raft_term \<Rightarrow> peer_id \<Rightarrow> log_index \<Rightarrow> raft_term \<Rightarrow> log_index \<Rightarrow>
     log_entry list \<Rightarrow> nat \<Rightarrow> bytes list result" where
  "encode_append_entries_vectored from gid trm leader prev_index prev_term commit entries buf_len =
     encode_append_entries_vectored_with_pad from gid trm leader prev_index prev_term commit 0 entries buf_len"

text \<open>It frames a batch exactly as the encoder of a node does for a request without a token.\<close>

lemma batch_encoder_agrees:
  "encode_append_entries_vectored from gid (ae_term ae) (ae_leader_id ae) (ae_prev_log_index ae) (ae_prev_log_term ae)
      (ae_leader_commit ae) entries buf_len =
   encode_message_vectored_impl from gid (AppendEntriesVectored (ae\<lparr>ae_pad := 0\<rparr>) entries) buf_len"
  by (simp add: encode_append_entries_vectored_def encode_message_vectored_impl_def)

section \<open>The trivial state machine\<close>

definition noop_state_machine :: "unit sm_ops" where
  "noop_state_machine = \<lparr>sm_apply_at = (\<lambda>_ _ m. (Inr (), m)), sm_snapshot = (\<lambda>_. Inr []), sm_restore = (\<lambda>_ m. (Inr (), m))\<rparr>"

section \<open>Observers and the single-frame step\<close>

text \<open>The observer another thread polls; it reads the published copy of the commit index.\<close>

definition observer_get :: "'s raft_node \<Rightarrow> log_index" where
  "observer_get n = n_commit_index_pub n"

definition peer_progress_of :: "peer_id \<Rightarrow> 's raft_node \<Rightarrow> (log_index \<times> log_index) option" where
  "peer_progress_of peer n = map_option (\<lambda>p. (next_index p, match_index p)) (pm_get peer (n_progress n))"

definition read_entry_payload_into :: "'s raft_env \<Rightarrow> log_index \<Rightarrow> nat \<Rightarrow> (log_entry option, 's raft_node) raft_op" where
  "read_entry_payload_into E index buf_len = with_storage (so_entry_at (e_store E) index buf_len)"

text \<open>One frame of the transport, decoded and handled; every error ends the call.\<close>

definition handle_once :: "'s raft_env \<Rightarrow> custom_env \<Rightarrow> bytes result \<Rightarrow> (unit, 's raft_node) raft_op" where
  "handle_once E C received n =
    (case received of
       Inl e \<Rightarrow> (Inl e, n)
     | Inr frame \<Rightarrow>
         (case decode_message frame of Inl e \<Rightarrow> (Inl e, n) | Inr inbound \<Rightarrow> handle_inbound E C inbound n))"

definition become_leader_for_benchmark :: "'s raft_env \<Rightarrow> raft_term \<Rightarrow> 's raft_node \<Rightarrow> 's raft_node" where
  "become_leader_for_benchmark E t n =
     initialize_leader_progress E (n\<lparr>n_soft := (n_soft n)\<lparr>soft_is_leader := True, soft_role := Leader,
       leader_id := Some (node_id n)\<rparr>, n_hard := (n_hard n)\<lparr>current_term := t\<rparr>\<rparr>)"

lemma observer_follows_commit: "observer_get (set_commit_index i n) = commit_index (set_commit_index i n)"
  by (simp add: observer_get_def set_commit_index_def)

text \<open>A frame that does not decode reaches no handler and changes nothing.\<close>

lemma undecodable_frame_is_inert:
  "decode_message frame = Inl e \<Longrightarrow> handle_once E C (Inr frame) n = (Inl e, n)"
  by (simp add: handle_once_def)

section \<open>Recycled vectors\<close>

text \<open>
  A vector is its elements and its capacity.  A dock keeps the capacity of a vector
  between two uses and never an element of it; the two docks of a node differ in
  the type of the elements only.
\<close>

record 'a vec =
  v_items :: "'a list"
  v_capacity :: nat

type_synonym slice_scratch = "bytes vec"

type_synonym entry_scratch = "log_entry vec"

definition dock_with_capacity :: "nat \<Rightarrow> 'a vec" where
  "dock_with_capacity c = \<lparr>v_items = [], v_capacity = c\<rparr>"

text \<open>\<open>take\<close> leaves an empty vector without a buffer behind.\<close>

definition dock_take :: "'a vec \<Rightarrow> 'a vec \<times> 'a vec" where
  "dock_take d = (\<lparr>v_items = [], v_capacity = v_capacity d\<rparr>, \<lparr>v_items = [], v_capacity = 0\<rparr>)"

definition dock_put :: "'a vec \<Rightarrow> 'a vec \<Rightarrow> 'a vec" where
  "dock_put v d = \<lparr>v_items = [], v_capacity = v_capacity v\<rparr>"

text \<open>The use of a dock: taken, filled by any code, and put back or dropped by an early return.\<close>

inductive dock_life :: "'a vec \<Rightarrow> 'a vec option \<Rightarrow> bool" where
  new: "dock_life (dock_with_capacity c) None"
| take: "dock_life d out \<Longrightarrow> dock_life (snd (dock_take d)) (Some (fst (dock_take d)))"
| fill: "dock_life d (Some v) \<Longrightarrow> v_capacity v \<le> c \<Longrightarrow> dock_life d (Some \<lparr>v_items = xs, v_capacity = c\<rparr>)"
| put: "dock_life d (Some v) \<Longrightarrow> dock_life (dock_put v d) None"
| lost: "dock_life d (Some v) \<Longrightarrow> dock_life d None"

lemma docked_vector_is_empty:
  assumes "dock_life d out"
  shows "v_items d = [] \<and> v_items (fst (dock_take d)) = []"
  using assms by (induction rule: dock_life.induct) (simp_all add: dock_with_capacity_def dock_take_def dock_put_def)

lemma dock_recycles_capacity:
  "v_capacity (fst (dock_take (dock_put v (snd (dock_take d))))) = v_capacity v"
  by (simp add: dock_take_def dock_put_def)

section \<open>The hash of a group identifier\<close>

definition FIB :: u64 where
  "FIB = 0x9e3779b97f4a7c15"

definition hash_bytes :: "bytes \<Rightarrow> u64 \<Rightarrow> u64" where
  "hash_bytes bs h = (let h = fold (\<lambda>b h. (xor h (ucast b)) * FIB) bs h in xor h (drop_bit 32 h))"

definition hash_u64 :: "u64 \<Rightarrow> u64" where
  "hash_u64 n = (let x = n * FIB in xor x (drop_bit 32 x))"

lemma fold_high_half: "xor (xor x (drop_bit 32 x)) (drop_bit 32 (xor x (drop_bit 32 x))) = (x :: u64)"
proof -
  have "drop_bit 64 x = 0" by (rule bit_word_eqI) (simp add: bit_drop_bit_eq)
  then show ?thesis by (simp add: drop_bit_xor drop_bit_drop_bit xor.assoc)
qed

text \<open>
  Two group identifiers never have the same hash, so the routing table of a
  registry meets only the collisions of its own number of buckets: multiplying
  by an odd constant and folding the high half into the low half can both be undone.
\<close>

lemma group_hash_injective: "inj hash_u64"
proof (rule injI)
  fix a b assume "hash_u64 a = hash_u64 b"
  then have "a * FIB = b * FIB" using fold_high_half [of "a * FIB"] fold_high_half [of "b * FIB"]
    by (simp add: hash_u64_def Let_def)
  then have "a * FIB * 0xf1de83e19937733d = b * FIB * 0xf1de83e19937733d" by simp
  moreover have "FIB * 0xf1de83e19937733d = 1" by (simp add: FIB_def)
  ultimately show "a = b" by (simp add: mult.assoc)
qed

end
