(* ===== verification/Propose_Props.thy ===== *)
theory Propose_Props
  imports Election_Safety
begin

text \<open>
  What a client may rely on: a linearizable read is confirmed by a quorum of fresh
  answers, and a proposal is acknowledged only after a quorum has stored it.  Both
  proofs follow the frames from the transport to the answer: every waiting call
  consumes its events in order, and every answer that is counted was a frame.
\<close>

section \<open>Waiting calls only consume events\<close>

lemma await_events: "await_snapshot_answer E C peer trm evs n = (r, n', evs') \<Longrightarrow> set evs' \<subseteq> set evs"
proof (induction evs arbitrary: n)
  case (Cons ev evs)
  then show ?case
    by (fastforce split: sum.splits option.splits prod.splits if_splits simp del: snapshot_answer.simps)
qed simp

lemma stream_events: "stream_snapshot E C peer meta snapshot trm pos hb ns evs = (r, n', scratch, evs') \<Longrightarrow> set evs' \<subseteq> set evs"
proof (induction "length evs" arbitrary: pos hb ns evs rule: less_induct)
  case less
  let ?ns = "send_chunk (at_clock E evs) peer meta snapshot (fst pos) hb ns"
  obtain a m evs1 where w: "await_snapshot_answer E C peer trm evs (fst ?ns) = (a, m, evs1)" by (metis prod_cases3)
  have evs1: "set evs1 \<subseteq> set evs" by (rule await_events [OF w])
  show ?case
  proof (cases a)
    case (Inl e)
    then show ?thesis using less.prems w evs1 by (subst (asm) stream_snapshot.simps) (simp add: Let_def)
  next
    case (Inr resp)
    have short: "length evs1 < length evs" using await_shorter w Inr by blast
    show ?thesis
      using less.prems w Inr evs1 less.hyps [OF short]
      by (subst (asm) stream_snapshot.simps) (fastforce simp: Let_def split: prod.splits sum.splits option.splits)
  qed
qed

lemma install_events: "maybe_install_snapshot_to_lagging_peer E C peer (n, scratch, evs) = (r, n', scratch', evs') \<Longrightarrow> set evs' \<subseteq> set evs"
  unfolding maybe_install_snapshot_to_lagging_peer_def install_snapshot_once_def
  by (auto simp: Let_def split: option.splits prod.splits sum.splits if_splits dest!: stream_events)

lemma heartbeat_peer_events: "heartbeat_peer E C last_log peer esc (n, scratch, evs) = (b, n', scratch', evs') \<Longrightarrow> set evs' \<subseteq> set evs"
  unfolding heartbeat_peer_def escalate_snapshot_catchup_def
  by (auto simp: Let_def split: option.splits prod.splits sum.splits if_splits bool.splits dest!: install_events)

lemma heartbeat_loop_events: "heartbeat_loop E C last_log is esc (n, scratch, evs) = (r, n', scratch', evs') \<Longrightarrow> set evs' \<subseteq> set evs"
proof (induction "is" arbitrary: esc n scratch evs)
  case (Cons i "is")
  obtain b m s evs1 where h: "heartbeat_peer E C last_log (scratch ! i) esc (n, scratch, evs) = (b, m, s, evs1)"
    by (metis prod_cases4)
  show ?case using Cons.prems h heartbeat_peer_events [OF h] Cons.IH [of b m s evs1] by (auto split: if_splits)
qed simp

lemma heartbeat_events: "send_heartbeat_once E C (n, scratch, evs) = (r, n', scratch', evs') \<Longrightarrow> set evs' \<subseteq> set evs"
  unfolding send_heartbeat_once_def by (auto simp: Let_def split: if_splits dest: heartbeat_loop_events)

section \<open>A confirmed read\<close>

text \<open>An answer to the round of heartbeats that carried the token \<open>probe\<close>, in the term of the read.\<close>

definition echoes :: "raft_term \<Rightarrow> u32 \<Rightarrow> inbound_message \<Rightarrow> bool" where
  "echoes trm probe m = (case in_message m of
     AppendEntriesResp resp \<Rightarrow> aer_term resp = trm \<and> le_word (take 4 (aer_pad resp)) = probe | _ \<Rightarrow> False)"

lemma count_acks_spec:
  "count_acks E C trm probe ms acks n = (Inr acks', n') \<Longrightarrow> distinct acks \<Longrightarrow>
   distinct acks' \<and> (\<forall>p\<in>set acks'. p \<in> set acks \<or> (\<exists>m\<in>set ms. in_from m = p \<and> echoes trm probe m))"
proof (induction ms arbitrary: acks n)
  case (Cons m ms)
  let ?acks = "if fresh_ack trm probe n acks m then acks @ [in_from m] else acks"
  obtain n1 where "count_acks E C trm probe ms ?acks n1 = (Inr acks', n')"
    using Cons.prems(1) by (auto simp: bind_op_def split: prod.splits sum.splits)
  moreover have "distinct ?acks" using Cons.prems(2) by (auto simp: fresh_ack_def split: raft_message.splits)
  ultimately have "distinct acks' \<and> (\<forall>p\<in>set acks'. p \<in> set ?acks \<or> (\<exists>m\<in>set ms. in_from m = p \<and> echoes trm probe m))"
    by (rule Cons.IH)
  moreover have "p \<in> set acks \<or> (p = in_from m \<and> echoes trm probe m)" if "p \<in> set ?acks" for p
    using that by (auto simp: fresh_ack_def echoes_def split: if_splits raft_message.splits)
  ultimately show ?case by (metis list.set_intros(1,2))
qed simp

lemma confirm_loop_spec:
  assumes "confirm_loop E C trm probe deadline room next_probe acks n scratch evs = (Some (Inr ()), n', scratch', evs')" and "distinct acks"
  shows "is_leader n' \<and> node_term n' = trm \<and> (\<exists>acks'. distinct acks' \<and> voter_majority n' acks' \<and>
    (\<forall>p\<in>set acks'. p \<in> set acks \<or> (\<exists>m. m \<in> frames evs \<and> in_from m = p \<and> echoes trm probe m)))"
  using assms
proof (induction "length evs" arbitrary: next_probe acks n scratch evs rule: less_induct)
  case less
  let ?now = "e_now (at_clock E evs)"
  let ?next = "if ?now \<ge> next_probe then ?now + max (unat (heartbeat_ms (cfg_timing (n_config n)))) 1 else next_probe"
  note run = less.prems(1) [unfolded confirm_loop.simps [of E C trm probe deadline room next_probe acks n scratch evs]]
  have lead: "is_leader n" "node_term n = trm" using run by (simp_all split: if_splits)
  show ?case
  proof (cases "voter_majority n acks")
    case True
    then have "n' = n" using run lead by simp
    then show ?thesis using True lead less.prems(2) by blast
  next
    case False
    have evs: "evs \<noteq> []" "?now < deadline" using run lead False by (simp_all split: if_splits)
    obtain r n1 s1 evs1 where hb: "(if ?now \<ge> next_probe then send_heartbeat_once E C (n, scratch, evs) else (Some (Inr ()), n, scratch, evs)) = (r, n1, s1, evs1)"
      by (metis prod_cases4)
    have evs1: "set evs1 \<subseteq> set evs" using hb heartbeat_events [of E C n scratch evs] by (simp split: if_splits)
    obtain d evs2 where dr: "drain_inbound_frames (min deadline ?next) room [] evs1 = (d, evs2)" by fastforce
    obtain c n2 where ca: "count_acks (batch_env E evs1 evs2) C trm probe (projr d) acks n1 = (c, n2)" by fastforce
    let ?rest = "if length evs2 < length evs then evs2 else tl evs"
    have run2: "(case (r, n1, s1, evs1) of (Some (Inr _), n, scratch, evs1) \<Rightarrow>
           (case drain_inbound_frames (min deadline ?next) room [] evs1 of
              (Inl e, evs2) \<Rightarrow> (Some (Inl e), n, scratch, evs2)
            | (Inr ms, evs2) \<Rightarrow>
                (case count_acks (batch_env E evs1 evs2) C trm probe ms acks n of
                   (Inl e, n) \<Rightarrow> (Some (Inl e), n, scratch, evs2)
                 | (Inr acks, n) \<Rightarrow> confirm_loop E C trm probe deadline room ?next acks n scratch
                     (if length evs2 < length evs then evs2 else tl evs)))
       | (r, st) \<Rightarrow> (r, st)) = (Some (Inr ()), n', scratch', evs')"
      using run lead False evs unfolding Let_def hb by simp
    obtain ms acks2 where r: "r = Some (Inr ())" and ms: "d = Inr ms" and c: "c = Inr acks2"
        and loop: "confirm_loop E C trm probe deadline room ?next acks2 n2 s1 ?rest = (Some (Inr ()), n', scratch', evs')"
      using run2 dr ca by (cases r; cases "the r"; cases d; cases c) simp_all
    note wire = drain_frames [OF dr [unfolded ms]] and left = drain_events [OF dr]
    have ca: "count_acks (batch_env E evs1 evs2) C trm probe ms acks n1 = (Inr acks2, n2)" using ca ms c by simp
    note acks2 = count_acks_spec [OF ca less.prems(2)]
    have rest: "length ?rest < length evs" "set ?rest \<subseteq> set evs"
      using evs(1) left evs1 by (auto simp: neq_Nil_conv dest: list.set_sel(2))
    from less.hyps [OF rest(1) loop conjunct1 [OF acks2]]
    obtain acks' where A: "is_leader n'" "node_term n' = trm" "distinct acks'" "voter_majority n' acks'"
      "\<forall>p\<in>set acks'. p \<in> set acks2 \<or> (\<exists>m. m \<in> frames ?rest \<and> in_from m = p \<and> echoes trm probe m)" by blast
    have "p \<in> set acks \<or> (\<exists>m. m \<in> frames evs \<and> in_from m = p \<and> echoes trm probe m)" if "p \<in> set acks'" for p
      using A(5) that acks2 wire frames_mono [OF evs1] frames_mono [OF rest(2)] by fastforce
    then show ?thesis using A by blast
  qed
qed

lemma term_at_frame:
  "n_soft (snd (term_at E i n)) = n_soft n \<and> n_hard (snd (term_at E i n)) = n_hard n \<and> n_config (snd (term_at E i n)) = n_config n \<and>
   n_read_probe_seq (snd (term_at E i n)) = n_read_probe_seq n"
  by (auto simp: term_at_def bind_op_def with_storage_def split: option.splits prod.splits sum.splits)

lemma freeze_frame:
  "n_soft (snd (check_transfer_freeze now n)) = n_soft n \<and> n_hard (snd (check_transfer_freeze now n)) = n_hard n \<and>
   n_config (snd (check_transfer_freeze now n)) = n_config n \<and> n_read_probe_seq (snd (check_transfer_freeze now n)) = n_read_probe_seq n"
  by (auto simp: check_transfer_freeze_def leadership_transfer_in_progress_def split: option.splits)

lemma freeze_term_at: "fst (term_at E i (snd (check_transfer_freeze now n))) = fst (term_at E i n)"
  by (auto simp: check_transfer_freeze_def leadership_transfer_in_progress_def term_at_def bind_op_def with_storage_def
      split: option.splits prod.splits sum.splits)

lemma confirm_spec:
  assumes "confirm_leadership_quorum E C trm room (n, scratch, evs) = (Some (Inr ()), n', scratch', evs')"
    and "is_leader n" and "node_term n = trm"
  shows "is_leader n' \<and> node_term n' = trm \<and> (\<exists>acks. distinct acks \<and> voter_majority n' acks \<and>
    (\<forall>p\<in>set acks. p = node_id n \<or> (\<exists>m. m \<in> frames evs \<and> in_from m = p \<and> echoes trm (bump_probe (n_read_probe_seq n)) m)))"
proof -
  let ?n = "n\<lparr>n_read_probe_seq := bump_probe (n_read_probe_seq n)\<rparr>"
  show ?thesis
  proof (cases "voter_majority ?n [node_id n]")
    case True
    then have "n' = ?n" using assms(1) by (simp add: confirm_leadership_quorum_def Let_def)
    then show ?thesis using True assms(2,3) by (intro conjI exI [of _ "[node_id n]"]) (simp_all add: is_leader_def)
  next
    case False
    let ?now = "e_now (at_clock E evs)"
    have "confirm_loop E C trm (bump_probe (n_read_probe_seq n)) (?now + election_timeout ?n) room ?now [node_id n] ?n scratch evs =
        (Some (Inr ()), n', scratch', evs')"
      using assms(1) False by (simp add: confirm_leadership_quorum_def Let_def)
    from confirm_loop_spec [OF this] show ?thesis by simp
  qed
qed


text \<open>A leader on its own, whose committed entry is of its term.\<close>

definition sample_reader :: "mem_storage raft_node" where
  "sample_reader = set_commit_index 4 (sample_leader\<lparr>n_config := (sample_config 1)\<lparr>cfg_peers := [1]\<rparr>, n_last_log := (4, 1)\<rparr>)"


section \<open>An acknowledged proposal\<close>

text \<open>A follower's answer that it holds the log up to an index.\<close>

definition stored_up_to :: "log_index \<Rightarrow> inbound_message \<Rightarrow> bool" where
  "stored_up_to i m = (case in_message m of
     AppendEntriesResp resp \<Rightarrow> aer_success resp \<noteq> 0 \<and> i \<le> aer_match_index resp | _ \<Rightarrow> False)"

lemma advance_completed:
  "advance_append_replication E p i st resp n = (Inr Completed, n') \<Longrightarrow> aer_success resp \<noteq> 0 \<and> i \<le> aer_match_index resp"
  by (auto simp: advance_append_replication_def Let_def bind_op_def split: if_splits option.splits prod.splits sum.splits)

lemma process_resp_spec:
  assumes "process_append_resp E p resp i (pending, k) n = (r, (pending', k'), n')"
  shows "pending' = pending \<and> k' = k \<or>
    pm_get p pending \<noteq> None \<and> pending' = pm_remove p pending \<and> aer_success resp \<noteq> 0 \<and> i \<le> aer_match_index resp \<and>
      k' = (if p \<in> set (peers n') then k + 1 else k)"
proof (cases "pm_get p pending")
  case (Some st)
  obtain a m where adv: "advance_append_replication E p i st resp n = (a, m)" by fastforce
  show ?thesis using assms Some adv advance_completed [of E p i st resp n m]
    by (auto simp: process_append_resp_def split: sum.splits append_advance.splits)
qed (use assms in \<open>auto simp: process_append_resp_def split: prod.splits\<close>)

lemma gather_dispatch_spec:
  assumes "gather_dispatch_frame E C frame i (pending, k) n = (r, (pending', k'), n')" and "pm_ok pending"
  shows "pending' = pending \<and> k' = k \<or>
    (\<exists>m. decode_message frame = Inr m \<and> stored_up_to i m \<and> pm_get (in_from m) pending \<noteq> None \<and>
       pending' = pm_remove (in_from m) pending \<and> k' = (if in_from m \<in> set (peers n') then k + 1 else k))"
proof (cases "decode_message frame")
  case (Inr m)
  show ?thesis
  proof (cases "\<exists>resp. in_message m = AppendEntriesResp resp")
    case True
    then obtain resp where "in_message m = AppendEntriesResp resp" by blast
    then show ?thesis using assms(1) Inr process_resp_spec [of E "in_from m" resp i pending k n r pending' k' n']
      by (auto simp: gather_dispatch_frame_def stored_up_to_def)
  next
    case False
    then show ?thesis using assms(1) Inr by (auto simp: gather_dispatch_frame_def split: raft_message.splits prod.splits)
  qed
qed (use assms in \<open>simp add: gather_dispatch_frame_def\<close>)

text \<open>The peers that were counted: distinct, asked, still voters while the node leads, and each with its answer on the wire.\<close>

definition counted :: "log_index \<Rightarrow> recv_event list \<Rightarrow> append_attempt_state peer_map \<Rightarrow> 's raft_node \<Rightarrow> peer_id list \<Rightarrow> bool" where
  "counted i evs pending n A \<longleftrightarrow> distinct A \<and> (\<forall>p\<in>set A. pm_get p pending \<noteq> None \<and> (\<exists>m\<in>frames evs. in_from m = p \<and> stored_up_to i m)) \<and>
     (is_leader n \<longrightarrow> set A \<subseteq> set (peers n))"

lemma counted_mono: "counted i evs pending n A \<Longrightarrow> set evs \<subseteq> set evs' \<Longrightarrow> counted i evs' pending n A"
  using frames_mono [of evs evs'] by (fastforce simp: counted_def)

context hard_store
begin

lemma gather_loop_counts:
  assumes E: "e_store E = S" and "\<forall>m\<in>frames evs. honest m" and "pm_ok pending"
    and "gather_loop E C needed i deadline burst evs (pending, k) n = (Inr k', n', evs')"
  shows "\<exists>A. counted i evs pending n' A \<and> k' = k + length A"
  using assms(2,3,4)
proof (induction evs arbitrary: burst pending k n)
  case Nil
  then show ?case by (intro exI [of _ "[]"]) (simp add: counted_def)
next
  case (Cons ev evs)
  have hon: "\<forall>m\<in>frames evs. honest m" using Cons.prems(1) by (simp add: frames_Cons)
  have none: "\<exists>A. counted i (ev # evs) pending n' A \<and> k' = k + length A" if "k' = k"
    using that by (intro exI [of _ "[]"]) (simp add: counted_def)
  have wait: "\<exists>A. counted i (ev # evs) pending n' A \<and> k' = k + length A"
    if "(if burst \<and> ev_now ev < deadline then gather_loop E C needed i deadline False evs (pending, k) n
      else (Inr (snd (pending, k)), n, evs)) = (Inr k', n', evs')"
  proof (cases "burst \<and> ev_now ev < deadline")
    case True
    then have "gather_loop E C needed i deadline False evs (pending, k) n = (Inr k', n', evs')" using that by simp
    from Cons.IH [OF hon Cons.prems(2) this] show ?thesis using counted_mono [of i evs pending n' _ "ev # evs"] by auto
  qed (use that none in auto)
  show ?case
  proof (cases "\<exists>frame. ev_recv ev = Inr (Some frame)")
    case False
    then show ?thesis using Cons.prems(3) wait by (auto simp: Let_def split: sum.splits option.splits if_splits)
  next
    case True
    then obtain frame where f: "ev_recv ev = Inr (Some frame)" by blast
    obtain q pending1 k1 n1 where d: "gather_dispatch_frame (E\<lparr>e_now := ev_now ev\<rparr>) C frame i (pending, k) n = (q, (pending1, k1), n1)"
      by (metis prod_cases4 surj_pair)
    have "decode_message frame = Inr m \<Longrightarrow> honest m" for m using Cons.prems(1) f by (auto simp: frames_Cons)
    note spec = gather_dispatch_spec [OF d Cons.prems(2)]
    have ok1: "pm_ok pending1" using spec Cons.prems(2) by (auto simp: pm_ok_remove)
    have rest: "(k' = k1 \<and> n' = n1 \<and> evs' = evs) \<or> gather_loop E C needed i deadline True evs (pending1, k1) n1 = (Inr k', n', evs')"
      using Cons.prems(3) f d by (auto simp: Let_def split: if_splits sum.splits)
    have "\<exists>A. counted i evs pending1 n' A \<and> k' = k1 + length A"
      using rest Cons.IH [OF hon ok1] by (auto intro: exI [of _ "[]"] simp: counted_def)
    then obtain A where A: "counted i evs pending1 n' A" "k' = k1 + length A" by blast
    have kept: "rank_kept n1 n'"
      using rest gather_loop_waits_well [OF E hon, of C needed i deadline True "(pending1, k1)" n1]
      by (auto simp: waits_well_def vote_kept_def rank_kept_def)
    from spec show ?thesis
    proof (elim disjE exE conjE)
      assume "pending1 = pending" "k1 = k"
      then show ?thesis using A counted_mono [OF A(1), of "ev # evs"] by auto
    next
      fix m assume m: "decode_message frame = Inr m" "stored_up_to i m" "pm_get (in_from m) pending \<noteq> None"
        "pending1 = pm_remove (in_from m) pending" "k1 = (if in_from m \<in> set (peers n1) then k + 1 else k)"
      have A': "counted i (ev # evs) pending n' A" "in_from m \<notin> set A"
        using A(1) m(4) Cons.prems(2) by (auto simp: counted_def frames_Cons pm_get_remove split: if_splits)
      have w: "m \<in> frames (ev # evs)" using f m(1) by (auto simp: frames_Cons)
      show ?thesis
      proof (cases "in_from m \<in> set (peers n1)")
        case True
        have "is_leader n' \<Longrightarrow> in_from m \<in> set (peers n')"
          using kept True by (auto simp: rank_kept_def is_leader_def)
        then have "counted i (ev # evs) pending n' (in_from m # A)" using A' m w by (auto simp: counted_def)
        then show ?thesis using A(2) m(5) True by (intro exI [of _ "in_from m # A"]) simp
      qed (use A' A(2) m(5) in auto)
    qed
  qed
qed

lemma gather_counts:
  assumes "e_store E = S" and "\<forall>m\<in>frames evs. honest m" and "pm_ok pending"
    and "gather_quorum_acks E C needed i timeout pending n evs = (Inr k, n', evs')"
  shows "\<exists>A. counted i evs pending n' A \<and> k = 1 + length A"
proof (cases "propose_commit_reached n needed 1 i \<or> pm_is_empty pending")
  case True
  then show ?thesis using assms(4) by (intro exI [of _ "[]"]) (auto simp: gather_quorum_acks_def counted_def)
next
  case False
  then have "gather_loop E C needed i (e_now (at_clock E evs) + timeout) True evs (pending, 1) n = (Inr k, n', evs')"
    using assms(4) by (simp add: gather_quorum_acks_def)
  from gather_loop_counts [OF assms(1,2,3) this] show ?thesis .
qed

text \<open>
  What the commit decision of a proposal rests on: a quorum of the voters that were
  counted, the leader with them, or the general commit rule.
\<close>

lemma finish_counts:
  assumes E: "e_store E = S" and "\<forall>m\<in>frames evs. honest m" and "pm_ok pending"
    and "finish_propose E C indexes i pending n evs = (Inr ix, n', evs')"
  shows "ix = indexes \<and> (\<exists>m evs1. i \<le> commit_index m \<and> drain_inbound_ready E C evs1 m = (Inr (), n', evs') \<and> set evs1 \<subseteq> set evs \<and>
    ((\<exists>A. counted i evs pending m A \<and> set A \<subseteq> set (peers n) \<and> quorum (length (peers n)) \<le> 1 + length A \<and> is_leader m \<and> node_term m = node_term n) \<or>
     (\<exists>m0. try_advance_commit_index (at_clock E evs1) m0 = (Inr (), m))))"
proof -
  let ?q = "quorum (length (peers n))"
  obtain k n1 evs1 where g: "gather_quorum_acks E C ?q i (gather_timeout n) pending n evs = (Inr k, n1, evs1)"
    using assms(4) by (auto simp: finish_propose_def Let_def split: prod.splits sum.splits)
  obtain n2 where c: "commit_batch (at_clock E evs1) (node_term n) ?q k i n1 = (Inr (), n2)" and le: "i \<le> commit_index n2"
      and d: "drain_inbound_ready E C evs1 n2 = (Inr (), n', evs')" and ix: "ix = indexes"
    using assms(4) g by (auto simp: finish_propose_def Let_def split: prod.splits sum.splits if_splits)
  obtain A where A: "counted i evs pending n1 A" "k = 1 + length A" using gather_counts [OF assms(1-3) g] by blast
  have w: "rank_kept n n1" "set evs1 \<subseteq> set evs"
    using gather_waits_well [OF assms(1,2) g] by (auto simp: waits_well_def vote_kept_def)
  show ?thesis
  proof (cases "n_joint_peers n1 = None \<and> is_leader n1 \<and> node_term n1 = node_term n \<and> k \<ge> ?q")
    case True
    then have "n2 = n1 \<or> n2 = set_commit_index i n1" using c by (auto simp: commit_batch_def split: if_splits)
    then have n2: "is_leader n2" "node_term n2 = node_term n" "counted i evs pending n2 A"
      using True A(1) by (auto simp: is_leader_def counted_def)
    have "set A \<subseteq> set (peers n)" using A(1) True w(1) by (auto simp: counted_def rank_kept_def is_leader_def)
    then show ?thesis using ix le d w(2) n2 True A(2) by blast
  next
    case False
    then have "try_advance_commit_index (at_clock E evs1) n1 = (Inr (), n2)" using c by (auto simp: commit_batch_def)
    then show ?thesis using ix le d w(2) by blast
  qed
qed

end

lemma fold_insert_pending:
  "pm_ok m \<Longrightarrow> pm_ok (fold (\<lambda>p. pm_insert p x) ps m) \<and> (\<forall>p. pm_get p (fold (\<lambda>p. pm_insert p x) ps m) \<noteq> None \<longrightarrow> p \<in> set ps \<or> pm_get p m \<noteq> None)"
proof (induction ps arbitrary: m)
  case (Cons p ps)
  from Cons.IH [of "pm_insert p x m"] Cons.prems show ?case by (auto split: if_splits)
qed simp

lemma fan_out_targets: "set (fst (fan_out E msg ps n)) \<subseteq> set ps"
proof (induction ps arbitrary: n)
  case (Cons p ps)
  obtain ok n1 where "fan_out E msg ps (n\<lparr>n_outbox := n_outbox n @ [(p, msg)]\<rparr>) = (ok, n1)" by fastforce
  then show ?case using Cons.IH [of "n\<lparr>n_outbox := n_outbox n @ [(p, msg)]\<rparr>"] by auto
qed simp

lemma send_initial_pending:
  assumes "send_initial_appends E t entries n = (Inr pending, n')"
  shows "pm_ok pending \<and> (\<forall>p. pm_get p pending \<noteq> None \<longrightarrow> p \<in> set (followers n))"
proof (cases "followers n = []")
  case True
  then show ?thesis using assms by (simp add: send_initial_appends_def pm_empty_def pm_ok_def)
next
  case False
  obtain li lt s1 where l: "so_last_log_position (e_store E) (n_storage n) = (Inr (li, lt), s1)"
    using assms False by (auto simp: send_initial_appends_def bind_op_def with_storage_def split: prod.splits sum.splits)
  let ?n = "n\<lparr>n_storage := s1\<rparr>" and ?prev = "li - u64_of (length entries)"
  obtain pt n2 where t: "term_at E ?prev ?n = (Inr pt, n2)"
    using assms False l
    by (auto simp: send_initial_appends_def bind_op_def with_storage_def Let_def split: prod.splits sum.splits if_splits)
  have fol: "followers n2 = followers n" using term_at_frame [of E ?prev ?n] t by (simp add: followers_def)
  let ?msg = "AppendEntriesVectored (append_request n2 ?prev pt (length entries)) entries"
  obtain ok n3 where f: "fan_out E ?msg (followers n2) n2 = (ok, n3)" by fastforce
  have "pending = fold (\<lambda>p. pm_insert p \<lparr>attempts = 1, sent_last_index = li\<rparr>) ok pm_empty"
    using assms False l t f
    by (auto simp: send_initial_appends_def bind_op_def with_storage_def Let_def
        split: prod.splits sum.splits if_splits)
  then show ?thesis
    using fold_insert_pending [of pm_empty "\<lparr>attempts = 1, sent_last_index = li\<rparr>" ok] fan_out_targets [of E ?msg "followers n2" n2] f fol
    by (auto simp: pm_ok_def pm_empty_def)
qed


definition sample_proposer :: "mem_storage raft_node" where
  "sample_proposer = sample_leader\<lparr>n_config := (sample_config 1)\<lparr>cfg_peers := [1]\<rparr>\<rparr>"

lemma sample_proposal:
  "\<exists>n'. propose_batch_once sample_env sample_custom default_vec_tuning [[7], [8]] sample_proposer [] = (Inr [1, 2], n', [])"
  by (simp add: propose_batch_once_def sample_proposer_def sample_leader_def sample_node_def fresh_node_def sample_config_def is_leader_def
      check_transfer_freeze_def leadership_transfer_in_progress_def at_clock_def ensure_leader_progress_initialized_def pm_is_empty_def
      propose_entries_def sat_add_def append_propose_entries_def with_storage_def bind_op_def sample_env_def mem_ops_def mem_append_entries_def
      send_initial_appends_def followers_def finish_propose_def gather_quorum_acks_def propose_commit_reached_def quorum_def commit_batch_def
      set_commit_index_def pm_empty_def Let_def)


end
