(* ===== verification/Snapshot_Props.thy ===== *)
theory Snapshot_Props
  imports Raft_Heartbeat "HOL-Library.Sublist"
begin

text \<open>
  Snapshot transfers.  The locale \<open>snapshot_keeper\<close> adds to the contract of the
  storage what a transfer needs of it: a saved snapshot is the one that is loaded,
  and the other operations leave it alone.  Whatever chunks arrive, in whatever
  order, a follower never stores a torn snapshot.
\<close>

section \<open>Keeping a snapshot\<close>

locale snapshot_keeper = raft_storage +
  fixes snap :: "'a \<Rightarrow> (snapshot_meta \<times> bytes) option"
  assumes snap_save: "invar s \<Longrightarrow> so_save_snapshot S m b s = (r, t) \<Longrightarrow>
      (if is_ok r then snap t = Some (m, b) else snap t = snap s \<or> snap t = Some (m, b))"
    and snap_save_hs: "invar s \<Longrightarrow> so_save_hard_state S h s = (rs, t) \<Longrightarrow> snap t = snap s"
    and snap_term_at: "invar s \<Longrightarrow> so_term_at S i s = (rt, t) \<Longrightarrow> snap t = snap s"
    and snap_trunc_suffix: "invar s \<Longrightarrow> so_truncate_suffix S i s = (ru, t) \<Longrightarrow> snap t = snap s"
    and snap_trunc_before: "invar s \<Longrightarrow> so_truncate_before S i s = (rb, t) \<Longrightarrow> snap t = snap s"

interpretation mem_keeper: snapshot_keeper mem_ops mem_hs mem_log mem_ok ms_snapshot
  by unfold_locales
    (auto simp: mem_ops_def mem_save_snapshot_def mem_save_hard_state_def default_term_at_def mem_entry_at_def bind_op_def mem_truncate_suffix_def
      mem_truncate_before_def split: option.splits if_splits)

section \<open>Chunks and transfers\<close>

abbreviation chunk_meta :: "install_snapshot \<Rightarrow> snapshot_meta" where
  "chunk_meta msg \<equiv> \<lparr>last_included_index = is_last_included_index msg, last_included_term = is_last_included_term msg\<rparr>"

text \<open>
  A chunk of the snapshots \<open>content\<close>: the bytes at its offset of the snapshot it
  names, and marked as the last one only when it reaches the end.
\<close>

definition honest_chunk :: "(snapshot_meta \<Rightarrow> bytes) \<Rightarrow> install_snapshot \<Rightarrow> bytes \<Rightarrow> bool" where
  "honest_chunk content msg payload \<longleftrightarrow>
    (let whole = content (chunk_meta msg); offset = unat (is_offset msg) in
     length whole < 2 ^ 64 \<and> offset + length payload \<le> length whole \<and>
     payload = take (length payload) (drop offset whole) \<and>
     (is_done msg \<noteq> 0 \<longrightarrow> offset + length payload = length whole))"

definition whole_so_far :: "(snapshot_meta \<Rightarrow> bytes) \<Rightarrow> pending_snapshot \<Rightarrow> bool" where
  "whole_so_far content p \<longleftrightarrow> prefix (ps_bytes p) (content (ps_meta p))"

definition stored_whole :: "(snapshot_meta \<Rightarrow> bytes) \<Rightarrow> (snapshot_meta \<times> bytes) option \<Rightarrow> bool" where
  "stored_whole content stored \<longleftrightarrow> (case stored of None \<Rightarrow> True | Some (m, b) \<Rightarrow> b = content m)"

definition transfers_ok :: "('s \<Rightarrow> (snapshot_meta \<times> bytes) option) \<Rightarrow> ('s \<Rightarrow> bool) \<Rightarrow> (snapshot_meta \<Rightarrow> bytes) \<Rightarrow> 's raft_node \<Rightarrow> bool" where
  "transfers_ok snap invar content n \<longleftrightarrow> invar (n_storage n) \<and> stored_whole content (snap (n_storage n)) \<and>
     (\<forall>e\<in>set (n_pending_snapshots n). whole_so_far content (snd e))"

text \<open>The leader sends honest chunks of the snapshot it streams.\<close>

lemma streamed_chunk_honest:
  assumes "content meta = snapshot" and "length snapshot < 2 ^ 64"
    and "snapshot_chunk n meta snapshot (min offset (length snapshot)) (chunk_end n' (length snapshot) offset) = InstallSnapshot msg payload"
  shows "honest_chunk content msg payload"
proof -
  let ?o = "min offset (length snapshot)" and ?u = "chunk_end n' (length snapshot) offset"
  have u: "?o \<le> ?u" "?u \<le> length snapshot" by (auto simp: chunk_end_def)
  have m: "chunk_meta msg = meta" "unat (is_offset msg) = ?o" "payload = take (?u - ?o) (drop ?o snapshot)"
      "is_done msg \<noteq> 0 \<longrightarrow> ?u = length snapshot"
    using assms(2,3) by (auto simp: snapshot_chunk_def Let_def unsigned_of_nat take_bit_nat_eq_self_iff split: if_splits)
  have "length payload = ?u - ?o" using u m(3) by simp
  then show ?thesis using u m assms(1,2) by (auto simp: honest_chunk_def Let_def)
qed

lemma set_pm_insert: "set (pm_insert k v m) \<subseteq> insert (k, v) (set m)"
  by (induction k v m rule: pm_insert.induct) auto

lemma set_pm_remove: "set (pm_remove k m) \<subseteq> set m"
proof (cases "position (\<lambda>e. fst e = k) m")
  case (Some i)
  then have "i < length m" by (auto dest: position_Some)
  then have "set_mset (mset (pm_remove k m)) = set (take i m @ drop (Suc i) m)"
    using Some by (simp add: pm_remove_def mset_swap_remove)
  then show ?thesis by (auto dest: in_set_takeD in_set_dropD)
qed (simp add: pm_remove_def)

lemma pm_get_mem: "pm_get k m = Some v \<Longrightarrow> (k, v) \<in> set m"
  by (induction k m rule: pm_get.induct) (auto split: if_splits)

lemma chunk_extends:
  assumes "honest_chunk content msg payload" and "prefix b (content (chunk_meta msg))"
    and "u64_of (length b) = is_offset msg"
  shows "prefix (b @ payload) (content (chunk_meta msg))" and "is_done msg \<noteq> 0 \<Longrightarrow> b @ payload = content (chunk_meta msg)"
proof -
  let ?w = "content (chunk_meta msg)"
  have w: "length ?w < 2 ^ 64" "payload = take (length payload) (drop (unat (is_offset msg)) ?w)"
      "is_done msg \<noteq> 0 \<Longrightarrow> unat (is_offset msg) + length payload = length ?w"
    using assms(1) by (auto simp: honest_chunk_def Let_def)
  have "length b < 2 ^ 64" using prefix_length_le [OF assms(2)] w(1) by simp
  then have off: "unat (is_offset msg) = length b"
    using arg_cong [OF assms(3), of unat] by (simp add: unsigned_of_nat take_bit_nat_eq_self)
  have b: "b = take (length b) ?w" using assms(2) by (auto simp: prefix_def)
  then have eq: "b @ payload = take (length b + length payload) ?w" using w(2) off by (metis take_add)
  then show "prefix (b @ payload) ?w" by (simp add: take_is_prefix)
  show "b @ payload = ?w" if "is_done msg \<noteq> 0" using eq w(3) [OF that] off by simp
qed

section \<open>The follower\<close>

lemma transfers_ok_cong:
  "n_storage n' = n_storage n \<Longrightarrow> set (n_pending_snapshots n') \<subseteq> set (n_pending_snapshots n) \<Longrightarrow>
   transfers_ok snap invar content n \<Longrightarrow> transfers_ok snap invar content n'"
  by (auto simp: transfers_ok_def)

lemma send_message_pending [simp]: "n_pending_snapshots (snd (send_message E p m n)) = n_pending_snapshots n"
  by (simp add: send_message_def split: sum.splits)

lemma open_transfer_ok:
  assumes "\<forall>e\<in>set (n_pending_snapshots n). whole_so_far content (snd e)"
  shows "ps_meta (open_transfer E from meta offset n) = meta \<and> prefix (ps_bytes (open_transfer E from meta offset n)) (content meta)"
proof (cases "pm_get from (n_pending_snapshots n)")
  case (Some p)
  then have "prefix (ps_bytes p) (content (ps_meta p))"
    using bspec [OF assms pm_get_mem [OF Some]] by (simp add: whole_so_far_def)
  then show ?thesis using Some
    by (auto simp: open_transfer_def Let_def pending_snapshot_reset_def pending_snapshot_touch_def)
qed (simp add: open_transfer_def Let_def pending_snapshot_new_def pending_snapshot_reset_def pending_snapshot_touch_def)

context snapshot_keeper
begin

lemma seat_keeps:
  assumes "e_store E = S" and "transfers_ok snap invar content n"
  shows "transfers_ok snap invar content (snd (seat_at_boundary E meta n))"
proof -
  obtain rt s where t: "so_term_at S (last_included_index meta) (n_storage n) = (rt, s)" by fastforce
  have s: "invar s" "snap s = snap (n_storage n)"
    using assms(2) term_at [OF _ t] snap_term_at [OF _ t] by (auto simp: transfers_ok_def)
  have "invar s'" "snap s' = snap s" if "so_truncate_suffix S 1 s = (r, s')" for r s'
    using trunc_suffix [OF s(1) that] snap_trunc_suffix [OF s(1) that] by auto
  moreover have "invar s'" "snap s' = snap s" if "so_truncate_before S i s = (r, s')" for r s' i
    using trunc_before [OF s(1) that] snap_trunc_before [OF s(1) that] by auto
  ultimately show ?thesis using assms t s
    by (auto simp: seat_at_boundary_def Let_def bind_op_def with_storage_def transfers_ok_def
        split: sum.splits prod.splits if_splits option.splits)
qed

lemma complete_keeps:
  assumes "e_store E = S" and "transfers_ok snap invar content n" and "ps_bytes p = content (ps_meta p)"
  shows "transfers_ok snap invar content (snd (complete_snapshot E p n))"
proof -
  obtain r s where sv: "so_save_snapshot S (ps_meta p) (ps_bytes p) (n_storage n) = (r, s)" by fastforce
  have n: "invar (n_storage n)" "stored_whole content (snap (n_storage n))" "\<forall>e\<in>set (n_pending_snapshots n). whole_so_far content (snd e)"
    using assms(2) by (auto simp: transfers_ok_def)
  have "invar s" "snap s = snap (n_storage n) \<or> snap s = Some (ps_meta p, ps_bytes p)"
    using save_snap [OF n(1) sv] snap_save [OF n(1) sv] by (auto split: if_splits)
  then have ok: "transfers_ok snap invar content (n\<lparr>n_storage := s\<rparr>)"
    using n assms(3) by (auto simp: transfers_ok_def stored_whole_def)
  let ?n = "n\<lparr>n_storage := s\<rparr>"
  let ?n' = "if commit_index ?n < last_included_index (ps_meta p) then set_commit_index (last_included_index (ps_meta p)) ?n else ?n"
  have "transfers_ok snap invar content ?n'"
    by (rule transfers_ok_cong [OF _ _ ok]) (simp_all add: set_commit_index_def)
  from seat_keeps [OF assms(1) this] ok show ?thesis using assms(1) sv
    by (cases r) (simp_all add: complete_snapshot_def Let_def bind_op_def with_storage_def)
qed

lemma receive_keeps:
  assumes E: "e_store E = S" and ok: "transfers_ok snap invar content n" and honest: "honest_chunk content msg payload"
  shows "transfers_ok snap invar content (snd (receive_chunk E from msg payload (chunk_meta msg) n))"
proof -
  let ?meta = "chunk_meta msg"
  define p where "p = open_transfer E from ?meta (is_offset msg) n"
  have p: "ps_meta p = ?meta" "prefix (ps_bytes p) (content ?meta)"
    using open_transfer_ok [of n content] ok unfolding p_def transfers_ok_def by blast+
  have ins: "transfers_ok snap invar content (m\<lparr>n_pending_snapshots := pm_insert from q (n_pending_snapshots m)\<rparr>)"
    if "transfers_ok snap invar content m" "whole_so_far content q" for m :: "'a raft_node" and q
    using that set_pm_insert [of "from" q "n_pending_snapshots m"] by (auto simp: transfers_ok_def)
  have rem: "transfers_ok snap invar content (m\<lparr>n_pending_snapshots := pm_remove from (n_pending_snapshots m)\<rparr>)"
    if "transfers_ok snap invar content m" for m :: "'a raft_node"
    using that set_pm_remove [of "from" "n_pending_snapshots m"] by (auto simp: transfers_ok_def)
  have snd_ok: "transfers_ok snap invar content (snd (send_message E from x m))" if "transfers_ok snap invar content m" for m :: "'a raft_node" and x
    by (rule transfers_ok_cong [OF _ _ that]) simp_all
  let ?n = "n\<lparr>n_pending_snapshots := pm_insert from p (n_pending_snapshots n)\<rparr>"
  have n1: "transfers_ok snap invar content ?n" by (rule ins [OF ok]) (simp add: whole_so_far_def p)
  define q where "q = pending_snapshot_touch (e_now E) (unat (snapshot_stall_timeout_ms (cfg_limits (n_config n)))) (p\<lparr>ps_bytes := ps_bytes p @ payload\<rparr>)"
  have q: "ps_meta q = ?meta" "ps_bytes q = ps_bytes p @ payload" by (simp_all add: q_def pending_snapshot_touch_def p)
  show ?thesis
  proof (cases "u64_of (length (ps_bytes p)) = is_offset msg \<and> length (ps_bytes p) + length payload \<le> max_snapshot_bytes (cfg_limits (n_config n))")
    case True
    note ext = chunk_extends [OF honest p(2)]
    have n2: "transfers_ok snap invar content (?n\<lparr>n_pending_snapshots := pm_insert from q (n_pending_snapshots ?n)\<rparr>)" (is "transfers_ok _ _ _ ?n2")
      by (rule ins [OF n1]) (use ext True q in \<open>simp add: whole_so_far_def\<close>)
    have fin: "transfers_ok snap invar content (snd (complete_snapshot E q (?n2\<lparr>n_pending_snapshots := pm_remove from (n_pending_snapshots ?n2)\<rparr>)))"
      if "is_done msg \<noteq> 0" by (rule complete_keeps [OF E rem [OF n2]]) (use ext True q that in simp)
    show ?thesis
      using True n2 fin snd_ok
      by (cases "is_done msg = 0") (auto simp: receive_chunk_def Let_def p_def [symmetric] q_def [symmetric] bind_op_def split: prod.splits sum.splits)
  qed (use n1 rem [OF n1] snd_ok in \<open>auto simp: receive_chunk_def Let_def p_def [symmetric]\<close>)
qed

lemma install_keeps:
  assumes E: "e_store E = S" and ok: "transfers_ok snap invar content n" and honest: "honest_chunk content msg payload"
  shows "transfers_ok snap invar content (snd (handle_install_snapshot E from msg payload n))"
proof -
  let ?n = "snd (evict_stalled_snapshots (e_now E) n)"
  have n1: "transfers_ok snap invar content ?n"
    by (rule transfers_ok_cong [OF _ _ ok]) (auto simp: evict_stalled_snapshots_def Let_def)
  have drop: "transfers_ok snap invar content (inc_frames_dropped_nonfatal n)"
    by (rule transfers_ok_cong [OF _ _ ok]) (simp_all add: inc_frames_dropped_nonfatal_def)
  have nack: "transfers_ok snap invar content (snd (send_message E from x ?n))" for x
    by (rule transfers_ok_cong [OF _ _ n1]) simp_all
  have down: "transfers_ok snap invar content (snd (step_down E t ?n))" for t
  proof -
    obtain r s where sv: "so_save_hard_state S \<lparr>current_term = t, voted_for = None\<rparr> (n_storage ?n) = (r, s)" by fastforce
    have "invar s" "snap s = snap (n_storage ?n)"
      using n1 save_hs [OF _ sv] snap_save_hs [OF _ sv] by (auto simp: transfers_ok_def)
    then show ?thesis using n1 sv E
      by (cases r) (auto simp: step_down_def bind_op_def with_storage_def Let_def transfers_ok_def demote_to_follower_keep_term_def
          inc_step_downs_def pm_clear_def)
  qed
  have soft: "transfers_ok snap invar content (m\<lparr>n_soft := x\<rparr>)" if "transfers_ok snap invar content m" for m :: "'a raft_node" and x
    by (rule transfers_ok_cong [OF _ _ that]) simp_all
  have recv: "transfers_ok snap invar content (snd (receive_chunk E from msg payload (chunk_meta msg) (m\<lparr>n_soft := x\<rparr>)))"
    if "transfers_ok snap invar content m" for m x by (rule receive_keeps [OF E soft [OF that] honest])
  show ?thesis
    using ok drop nack recv [OF n1] recv [OF down] down
    by (auto simp: handle_install_snapshot_def Let_def bind_op_def split: prod.splits sum.splits)
      (metis snd_conv)+
qed

end

section \<open>A stored snapshot is never torn\<close>

text \<open>
  The life of a follower as far as snapshots are concerned: chunks arrive from any
  senders, in any order, again or not at all, and are handled with any outcome; the
  stalled transfers are evicted; and everything else the node does leaves the
  transfers alone, or drops some of them, and the stored snapshot too, unless it
  stores one of its own state machine.
\<close>

inductive follower_life :: "'s storage_ops \<Rightarrow> ('s \<Rightarrow> (snapshot_meta \<times> bytes) option) \<Rightarrow> ('s \<Rightarrow> bool) \<Rightarrow> (snapshot_meta \<Rightarrow> bytes) \<Rightarrow>
    's raft_node \<Rightarrow> bool" for S snap invar content where
  start: "n_pending_snapshots n = [] \<Longrightarrow> invar (n_storage n) \<Longrightarrow> snap (n_storage n) = None \<Longrightarrow> follower_life S snap invar content n"
| chunk: "follower_life S snap invar content n \<Longrightarrow> e_store E = S \<Longrightarrow> honest_chunk content msg payload \<Longrightarrow>
    follower_life S snap invar content (snd (handle_install_snapshot E from msg payload n))"
| sweep: "follower_life S snap invar content n \<Longrightarrow> follower_life S snap invar content (snd (evict_stalled_snapshots now n))"
| other: "follower_life S snap invar content n \<Longrightarrow> set (n_pending_snapshots n') \<subseteq> set (n_pending_snapshots n) \<Longrightarrow> invar (n_storage n') \<Longrightarrow>
    snap (n_storage n') = snap (n_storage n) \<or> snap (n_storage n') = Some (meta, content meta) \<Longrightarrow> follower_life S snap invar content n'"

text \<open>
  (C8) A follower never stores a torn snapshot.  When every chunk on the network is
  an honest piece of the snapshot it names - as the leader's streaming loop sends
  them - then through any life of the follower the stored snapshot is the whole of
  the snapshot its metadata names, and the buffer of every running transfer is a
  prefix of the snapshot that transfer is about.  Lost, repeated, reordered and
  interleaved chunks, refusals, evictions and storage failures are all covered.
\<close>

theorem stored_snapshot_is_whole:
  assumes "snapshot_keeper S hs log invar snap" and "follower_life S snap invar content n"
  shows "stored_whole content (snap (n_storage n)) \<and> (\<forall>e\<in>set (n_pending_snapshots n). whole_so_far content (snd e))"
proof -
  have "transfers_ok snap invar content n"
    using assms(2)
  proof induction
    case (start n)
    then show ?case by (simp add: transfers_ok_def stored_whole_def)
  next
    case (chunk n E msg payload "from")
    show ?case by (rule snapshot_keeper.install_keeps [OF assms(1) chunk.hyps(2) chunk.IH chunk.hyps(3)])
  next
    case (sweep n now)
    show ?case by (rule transfers_ok_cong [OF _ _ sweep.IH]) (auto simp: evict_stalled_snapshots_def Let_def)
  next
    case (other n n' meta)
    then show ?case by (auto simp: transfers_ok_def stored_whole_def)
  qed
  then show ?thesis by (simp add: transfers_ok_def)
qed

text \<open>A snapshot of three bytes in two chunks.\<close>

definition sample_meta :: snapshot_meta where
  "sample_meta = \<lparr>last_included_index = 5, last_included_term = 1\<rparr>"

definition sample_content :: "snapshot_meta \<Rightarrow> bytes" where
  "sample_content m = (if m = sample_meta then [1, 2, 3] else [])"

definition sample_chunk :: "u64 \<Rightarrow> bytes \<Rightarrow> bool \<Rightarrow> install_snapshot" where
  "sample_chunk offset payload fin = \<lparr>is_term = 1, is_leader_id = 1, is_last_included_index = 5, is_last_included_term = 1,
     is_offset = offset, is_chunk_len = word_of_nat (length payload), is_done = (if fin then 1 else 0), is_pad = [0, 0, 0]\<rparr>"

definition receive_sample :: "u64 \<Rightarrow> bytes \<Rightarrow> bool \<Rightarrow> mem_storage raft_node \<Rightarrow> mem_storage raft_node" where
  "receive_sample offset payload fin n = snd (handle_install_snapshot sample_env 1 (sample_chunk offset payload fin) payload n)"

lemma sample_chunks_honest: "honest_chunk sample_content (sample_chunk 0 [1, 2] False) [1, 2]" "honest_chunk sample_content (sample_chunk 2 [3] True) [3]"
  by (simp_all add: honest_chunk_def sample_content_def sample_chunk_def sample_meta_def)

definition sample_receiver :: "mem_storage raft_node" where
  "sample_receiver = (sample_node 2)\<lparr>n_hard := \<lparr>current_term = 1, voted_for = None\<rparr>\<rparr>"

lemmas chunk_steps = receive_sample_def handle_install_snapshot_def receive_chunk_def open_transfer_def evict_stalled_snapshots_def
  pending_snapshot_new_def pending_snapshot_reset_def pending_snapshot_touch_def pending_snapshot_is_expired_def bind_op_def Let_def

lemma sample_first_chunk:
  "n_pending_snapshots (receive_sample 0 [1, 2] False sample_receiver) = [(1, \<lparr>ps_meta = sample_meta, ps_bytes = [1, 2], ps_deadline = 61000\<rparr>)] \<and>
   n_storage (receive_sample 0 [1, 2] False sample_receiver) = mem_empty \<and> n_config (receive_sample 0 [1, 2] False sample_receiver) = sample_config 2 \<and>
   n_hard (receive_sample 0 [1, 2] False sample_receiver) = \<lparr>current_term = 1, voted_for = None\<rparr>"
  by (simp add: chunk_steps sample_receiver_def sample_node_def fresh_node_def pm_empty_def sample_config_def sample_env_def default_limits_def
      sample_chunk_def sample_meta_def)

lemma sample_second_chunk:
  assumes "n_pending_snapshots n = [(1, \<lparr>ps_meta = sample_meta, ps_bytes = [1, 2], ps_deadline = 61000\<rparr>)] \<and> n_storage n = mem_empty \<and>
    n_config n = sample_config 2 \<and> n_hard n = \<lparr>current_term = 1, voted_for = None\<rparr>"
  shows "ms_snapshot (n_storage (receive_sample 2 [3] True n)) = Some (sample_meta, [1, 2, 3])"
  using assms
  by (simp add: chunk_steps sample_config_def sample_env_def default_limits_def sample_chunk_def sample_meta_def complete_snapshot_def
      seat_at_boundary_def with_storage_def mem_ops_def mem_save_snapshot_def default_term_at_def mem_entry_at_def mem_truncate_before_def mem_empty_def
      set_commit_index_def)

theorem stored_snapshot_is_whole_witness:
  "stored_whole sample_content (ms_snapshot (n_storage (receive_sample 2 [3] True (receive_sample 0 [1, 2] False sample_receiver)))) \<and>
   ms_snapshot (n_storage (receive_sample 2 [3] True (receive_sample 0 [1, 2] False sample_receiver))) = Some (sample_meta, [1, 2, 3])"
proof -
  let ?n = "receive_sample 2 [3] True (receive_sample 0 [1, 2] False sample_receiver)"
  have k: "snapshot_keeper mem_ops mem_hs mem_log mem_ok ms_snapshot" by (rule mem_keeper.snapshot_keeper_axioms)
  have "follower_life mem_ops ms_snapshot mem_ok sample_content sample_receiver"
    by (rule follower_life.start) (simp_all add: sample_receiver_def sample_node_def fresh_node_def mem_empty_def mem_ok_def pm_empty_def)
  then have "follower_life mem_ops ms_snapshot mem_ok sample_content ?n"
    unfolding receive_sample_def by (intro follower_life.chunk sample_chunks_honest) (simp_all add: sample_env_def)
  from stored_snapshot_is_whole [OF k this] show ?thesis using sample_second_chunk [OF sample_first_chunk] by simp
qed

section \<open>A repeated snapshot\<close>

text \<open>
  The handler does not compare a snapshot with what the follower has committed.  The
  snapshot that follower holds, delivered once more after the log has grown, moves
  the cached end of the log back to its boundary, below the commit index; and the
  next heartbeat that announces a later commit index then moves the commit index
  itself back.
\<close>

definition grown_follower :: "mem_storage raft_node" where
  "grown_follower = sample_receiver\<lparr>n_storage := mem_empty\<lparr>ms_entries := [\<lparr>entry_term = 1, entry_index = 6, entry_payload = [9]\<rparr>],
       ms_snapshot := Some (sample_meta, [1, 2, 3])\<rparr>, n_last_log := (6, 1), n_snapshot_boundary := (5, 1),
     n_soft := \<lparr>leader_id = Some 1, soft_is_leader = False, soft_role = Follower, soft_commit_index = 6\<rparr>\<rparr>"

definition later_heartbeat :: append_entries where
  "later_heartbeat = \<lparr>ae_term = 1, ae_leader_id = 1, ae_prev_log_index = 6, ae_prev_log_term = 1, ae_leader_commit = 7,
     ae_entry_count = 0, ae_pad = 0\<rparr>"

lemma repeated_snapshot_state:
  "n_last_log (receive_sample 0 [1, 2, 3] True grown_follower) = (5, 1) \<and> commit_index (receive_sample 0 [1, 2, 3] True grown_follower) = 6 \<and>
   n_storage (receive_sample 0 [1, 2, 3] True grown_follower) = n_storage grown_follower \<and>
   n_hard (receive_sample 0 [1, 2, 3] True grown_follower) = \<lparr>current_term = 1, voted_for = None\<rparr> \<and>
   arena_get_term (n_log_metadata (receive_sample 0 [1, 2, 3] True grown_follower)) 6 = None"
  by (simp add: chunk_steps sample_config_def sample_env_def default_limits_def sample_chunk_def sample_meta_def complete_snapshot_def
      seat_at_boundary_def with_storage_def mem_ops_def mem_save_snapshot_def default_term_at_def mem_entry_at_def mem_truncate_before_def mem_empty_def
      set_commit_index_def grown_follower_def sample_receiver_def sample_node_def fresh_node_def pm_empty_def arena_get_term_def arena_clear_def
      sat_add_def)

lemma repeated_snapshot_rewinds_commit:
  "commit_index grown_follower = 6 \<and>
   commit_index (snd (handle_append_entries sample_env 1 later_heartbeat [] (receive_sample 0 [1, 2, 3] True grown_follower))) = 5"
  using repeated_snapshot_state
  by (simp add: handle_append_entries_def append_handler_def later_heartbeat_def Let_def bind_op_def check_prev_def follow_def with_storage_def
      sample_env_def mem_ops_def default_term_at_def mem_entry_at_def apply_append_entries_def set_commit_index_def grown_follower_def mem_empty_def)

end
