(* ===== verification/Spec2Isabelle.thy ===== *)
theory Spec2Isabelle
  imports Raft_Prelude Raft_Types Peer_Map Log_Arena Wire_Codec Raft_Storage Raft_Node Raft_Membership
    Raft_Replication Commit_Props Wire_Props Append_Props Dispatch_Wire Dispatch_Tx
    Dispatch_Registry Dispatch_Props Dispatch_Api Raft_Vote Raft_Snapshot Raft_Transfer
    Raft_Inbound Raft_Campaign Raft_Heartbeat Raft_Propose Slot_Registry Engine_Guards
    Raft_Engine Engine_Clients Engine_Apply Multiplex Multi_Driver Engine_Props Driver_Props
    Vote_Safety Leader_Votes Election_Safety Node_Api Propose_Props Snapshot_Props
begin

text \<open>
  A verification library for the consensus core of the repository.
\<close>

end
